(* ===== verification/Xeth_Prelude.thy ===== *)
theory Xeth_Prelude
  imports Main "HOL-Library.Word"
begin

text \<open>
  Shared vocabulary of the development: the machine integers of the driver, kernel error
  numbers, the result type that separates a normal return from a kernel fault, byte buffers
  with the little-endian field access of an x86 C compiler, and the generic lemmas on lists and
  words that the component theories rely on.
\<close>

unbundle bit_operations_syntax

section \<open>Types and collections of facts\<close>

type_synonym u8 = "8 word"
type_synonym u16 = "16 word"
type_synonym u32 = "32 word"
type_synonym u64 = "64 word"

text \<open>Pointers to \<^verbatim>\<open>struct net_device\<close> and to \<^verbatim>\<open>struct net\<close> are opaque identifiers.\<close>

type_synonym ndp = nat
type_synonym netp = nat

named_theorems xeth_simps \<open>definitions of the components, unfolded by the component proofs\<close>
named_theorems xeth_msg_simps \<open>layout of the side band messages\<close>
named_theorems xeth_frame \<open>which part of the state an operation leaves alone\<close>

section \<open>Error numbers\<close>

text \<open>Error numbers of the kernel's \<^verbatim>\<open>errno.h\<close>; a function returns the negated number.\<close>

abbreviation ENXIO :: int where "ENXIO \<equiv> 6"
abbreviation EAGAIN :: int where "EAGAIN \<equiv> 11"
abbreviation ENOMEM :: int where "ENOMEM \<equiv> 12"
abbreviation EBUSY :: int where "EBUSY \<equiv> 16"
abbreviation ENODEV :: int where "ENODEV \<equiv> 19"
abbreviation EINVAL :: int where "EINVAL \<equiv> 22"
abbreviation ERANGE :: int where "ERANGE \<equiv> 34"
abbreviation EOPNOTSUPP :: int where "EOPNOTSUPP \<equiv> 95"
abbreviation ECONNRESET :: int where "ECONNRESET \<equiv> 104"
abbreviation EPROBE_DEFER :: int where "EPROBE_DEFER \<equiv> 517"

section \<open>Faults\<close>

text \<open>
  A C function either returns or runs into undefined behaviour. A fault is kept apart from the
  error numbers the code returns on purpose: \<open>Inl\<close> is a fault, \<open>Inr\<close> a normal return.
\<close>

datatype fault = Null_deref | Out_of_bounds | Null_call | Uninitialized

type_synonym 'a outcome = "fault + 'a"

definition bindR :: "'a outcome \<Rightarrow> ('a \<Rightarrow> 'b outcome) \<Rightarrow> 'b outcome" where
  "bindR m f = (case m of Inl e \<Rightarrow> Inl e | Inr x \<Rightarrow> f x)"

lemma bindR_simps [simp]:
  "bindR (Inl e) f = Inl e"
  "bindR (Inr x) f = f x"
  by (simp_all add: bindR_def)

lemma bindR_eq_Inr: "bindR m f = Inr y \<longleftrightarrow> (\<exists>x. m = Inr x \<and> f x = Inr y)"
  by (cases m) auto

lemma bindR_eq_Inl: "bindR m f = Inl e \<longleftrightarrow> m = Inl e \<or> (\<exists>x. m = Inr x \<and> f x = Inl e)"
  by (cases m) auto

lemma bindR_assoc: "bindR (bindR m f) g = bindR m (\<lambda>x. bindR (f x) g)"
  by (cases m) auto

text \<open>Running a fallible step over a list, left to right, stopping at the first fault.\<close>

fun foldR :: "('a \<Rightarrow> 's \<Rightarrow> 's outcome) \<Rightarrow> 'a list \<Rightarrow> 's \<Rightarrow> 's outcome" where
  "foldR f [] s = Inr s"
| "foldR f (x # xs) s = bindR (f x s) (foldR f xs)"

lemma foldR_append: "foldR f (xs @ ys) s = bindR (foldR f xs s) (foldR f ys)"
  by (induction xs arbitrary: s) (simp_all add: bindR_assoc fun_eq_iff bindR_def split: sum.split)

lemma foldR_invariant:
  assumes "foldR f xs s = Inr t" and "I s"
    and step: "\<And>x s t. x \<in> set xs \<Longrightarrow> I s \<Longrightarrow> f x s = Inr t \<Longrightarrow> I t"
  shows "I t"
  using assms(1,2) step
proof (induction xs arbitrary: s)
  case (Cons x xs)
  from Cons.prems(1) obtain u where u: "f x s = Inr u" "foldR f xs u = Inr t"
    by (auto simp: bindR_eq_Inr)
  with Cons.prems have "I u" by (meson list.set_intros(1))
  with u Cons.IH Cons.prems(3) show ?case by (meson list.set_intros(2))
qed simp

lemma foldR_total:
  assumes "I s" and step: "\<And>x s. x \<in> set xs \<Longrightarrow> I s \<Longrightarrow> \<exists>t. f x s = Inr t \<and> I t"
  shows "\<exists>t. foldR f xs s = Inr t \<and> I t"
  using assms
proof (induction xs arbitrary: s)
  case (Cons x xs)
  then obtain u where u: "f x s = Inr u" "I u" by (meson list.set_intros(1))
  have "\<exists>t. foldR f xs u = Inr t \<and> I t"
    using u(2) Cons.prems(2) by (intro Cons.IH) auto
  with u show ?case by simp
qed simp

section \<open>Byte buffers\<close>

text \<open>
  A structure in a buffer is accessed by the byte offset of its fields. \<open>put_bytes\<close> stores a run
  of bytes and \<open>get_bytes\<close> loads one; \<open>le_bytes\<close> and \<open>le_word\<close> are the in-memory
  representation of an integer field on a little-endian machine.
\<close>

fun put_bytes :: "nat \<Rightarrow> u8 list \<Rightarrow> u8 list \<Rightarrow> u8 list" where
  "put_bytes off [] d = d"
| "put_bytes off (b # bs) d = put_bytes (Suc off) bs (d[off := b])"

definition get_bytes :: "nat \<Rightarrow> nat \<Rightarrow> u8 list \<Rightarrow> u8 list" where
  "get_bytes off n d = take n (drop off d)"

definition le_bytes :: "nat \<Rightarrow> 'a::len word \<Rightarrow> u8 list" where
  "le_bytes n w = map (\<lambda>i. ucast (drop_bit (8 * i) w)) [0..<n]"

fun le_word :: "u8 list \<Rightarrow> 'a::len word" where
  "le_word [] = 0"
| "le_word (b # bs) = ucast b OR push_bit 8 (le_word bs)"

abbreviation le16 :: "u16 \<Rightarrow> u8 list" where "le16 \<equiv> le_bytes 2"
abbreviation le32 :: "u32 \<Rightarrow> u8 list" where "le32 \<equiv> le_bytes 4"
abbreviation le64 :: "u64 \<Rightarrow> u8 list" where "le64 \<equiv> le_bytes 8"
abbreviation get8 :: "nat \<Rightarrow> u8 list \<Rightarrow> u8" where "get8 off d \<equiv> le_word (get_bytes off 1 d)"
abbreviation get16 :: "nat \<Rightarrow> u8 list \<Rightarrow> u16" where "get16 off d \<equiv> le_word (get_bytes off 2 d)"
abbreviation get32 :: "nat \<Rightarrow> u8 list \<Rightarrow> u32" where "get32 off d \<equiv> le_word (get_bytes off 4 d)"
abbreviation get64 :: "nat \<Rightarrow> u8 list \<Rightarrow> u64" where "get64 off d \<equiv> le_word (get_bytes off 8 d)"

declare put_bytes.simps(2) [simp del]

lemma length_put_bytes [simp]: "length (put_bytes off bs d) = length d"
  by (induction off bs d rule: put_bytes.induct) (auto simp: put_bytes.simps)

lemma nth_put_bytes:
  "i < length d \<Longrightarrow>
   put_bytes off bs d ! i = (if off \<le> i \<and> i < off + length bs then bs ! (i - off) else d ! i)"
proof (induction off bs d rule: put_bytes.induct)
  case (2 off b bs d)
  then have IH: "put_bytes (Suc off) bs (d[off := b]) ! i =
      (if Suc off \<le> i \<and> i < Suc off + length bs then bs ! (i - Suc off) else d[off := b] ! i)"
    by simp
  show ?case
  proof (cases "i = off")
    case True
    then show ?thesis using 2 IH by (simp add: put_bytes.simps)
  next
    case False
    then show ?thesis using IH by (auto simp: put_bytes.simps nth_Cons' Suc_diff_Suc)
  qed
qed auto

lemma length_get_bytes [simp]: "length (get_bytes off n d) = min n (length d - off)"
  by (simp add: get_bytes_def)

lemma nth_get_bytes: "i < n \<Longrightarrow> off + i < length d \<Longrightarrow> get_bytes off n d ! i = d ! (off + i)"
  by (simp add: get_bytes_def)

lemma get_put_same [simp]:
  "n = length bs \<Longrightarrow> off + length bs \<le> length d \<Longrightarrow> get_bytes off n (put_bytes off bs d) = bs"
  by (rule nth_equalityI) (auto simp: nth_get_bytes nth_put_bytes)

lemma get_put_disjoint [simp]:
  "off + n \<le> off' \<or> off' + length bs \<le> off \<Longrightarrow>
   get_bytes off n (put_bytes off' bs d) = get_bytes off n d"
  by (rule nth_equalityI) (auto simp: nth_get_bytes nth_put_bytes)

lemma get_bytes_replicate [simp]:
  "off + n \<le> m \<Longrightarrow> get_bytes off n (replicate m b) = replicate n b"
  by (simp add: get_bytes_def)

lemma length_le_bytes [simp]: "length (le_bytes n w) = n"
  by (simp add: le_bytes_def)

lemma bit_le_word:
  "bit (le_word bs :: 'a::len word) i \<longleftrightarrow>
     i < LENGTH('a) \<and> i div 8 < length bs \<and> bit (bs ! (i div 8)) (i mod 8)"
proof (induction bs arbitrary: i)
  case (Cons b bs)
  show ?case
  proof (cases "i < 8")
    case True
    then show ?thesis
      by (auto simp: bit_or_iff bit_push_bit_iff bit_ucast_iff dest: bit_imp_le_length)
  next
    case False
    then have "i div 8 = Suc ((i - 8) div 8)" "i mod 8 = (i - 8) mod 8"
      by (simp_all add: le_div_geq le_mod_geq)
    with False Cons[of "i - 8"] show ?thesis
      by (auto simp: bit_or_iff bit_push_bit_iff bit_ucast_iff dest: bit_imp_le_length)
  qed
qed simp

lemma le_word_le_bytes:
  "LENGTH('a) \<le> 8 * n \<Longrightarrow> le_word (le_bytes n (w :: 'a::len word)) = w"
  by (rule bit_word_eqI) (auto simp: bit_le_word le_bytes_def bit_ucast_iff bit_drop_bit_eq)

lemma le_bytes_le_word:
  assumes "length bs = n" and "8 * n \<le> LENGTH('a)"
  shows "le_bytes n (le_word bs :: 'a::len word) = bs"
proof (rule nth_equalityI)
  fix i assume "i < length (le_bytes n (le_word bs :: 'a word))"
  then have i: "i < n" by simp
  show "le_bytes n (le_word bs :: 'a word) ! i = bs ! i"
  proof (rule bit_word_eqI)
    fix j assume "j < LENGTH(8)"
    then have "j < 8" by simp
    then have "(8 * i + j) div 8 = i" "(8 * i + j) mod 8 = j" by simp_all
    with i \<open>j < 8\<close> assms show "bit (le_bytes n (le_word bs :: 'a word) ! i) j \<longleftrightarrow> bit (bs ! i) j"
      by (simp add: le_bytes_def bit_ucast_iff bit_drop_bit_eq bit_le_word)
  qed
qed (simp add: assms)

lemma le_word_zeros [simp]: "le_word (replicate n 0) = 0"
  by (induction n) auto

lemma le_roundtrip [simp]:
  "le_word (le_bytes 2 (w16 :: u16)) = w16"
  "le_word (le_bytes 4 (w32 :: u32)) = w32"
  "le_word (le_bytes 8 (w64 :: u64)) = w64"
  by (simp_all add: le_word_le_bytes)

lemma le_word_single [simp]: "(le_word [b] :: u8) = b"
  by simp

text \<open>
  A list of stores into a buffer, each checked against the allocated size: a C assignment to a
  field past the end of the allocation is a fault.
\<close>

type_synonym store = "nat \<times> u8 list"

definition store_bytes :: "store \<Rightarrow> u8 list \<Rightarrow> u8 list outcome" where
  "store_bytes st d = (if fst st + length (snd st) \<le> length d
     then Inr (put_bytes (fst st) (snd st) d) else Inl Out_of_bounds)"

definition store_all :: "store list \<Rightarrow> u8 list \<Rightarrow> u8 list outcome" where
  "store_all sts d = foldR store_bytes sts d"

definition put_all :: "store list \<Rightarrow> u8 list \<Rightarrow> u8 list" where
  "put_all sts d = fold (\<lambda>st. put_bytes (fst st) (snd st)) sts d"

lemma put_all_simps [simp]:
  "put_all [] d = d"
  "put_all (st # sts) d = put_all sts (put_bytes (fst st) (snd st) d)"
  by (simp_all add: put_all_def)

lemma length_put_all [simp]: "length (put_all sts d) = length d"
  by (induction sts arbitrary: d) auto

lemma store_all_in_bounds:
  "\<forall>st\<in>set sts. fst st + length (snd st) \<le> length d \<Longrightarrow> store_all sts d = Inr (put_all sts d)"
  by (induction sts arbitrary: d) (auto simp: store_all_def store_bytes_def)

lemma store_all_fault:
  "\<exists>st\<in>set sts. length d < fst st + length (snd st) \<Longrightarrow> store_all sts d = Inl Out_of_bounds"
  unfolding store_all_def
proof (induction sts arbitrary: d)
  case (Cons st sts)
  show ?case
  proof (cases "fst st + length (snd st) \<le> length d")
    case True
    with Cons.prems have "\<exists>s\<in>set sts. length (put_bytes (fst st) (snd st) d) < fst s + length (snd s)"
      by auto
    then have "foldR store_bytes sts (put_bytes (fst st) (snd st) d) = Inl Out_of_bounds"
      by (rule Cons.IH)
    with True show ?thesis by (simp add: store_bytes_def [of st])
  qed (simp add: store_bytes_def)
qed simp

lemma put_bytes_append:
  "off + length bs \<le> length xs \<Longrightarrow> put_bytes off bs (xs @ ys) = put_bytes off bs xs @ ys"
  by (rule nth_equalityI) (auto simp: nth_put_bytes nth_append)

text \<open>Stores inside a prefix of a buffer act on that prefix.\<close>

lemma put_all_append:
  "\<forall>st\<in>set sts. fst st + length (snd st) \<le> length xs \<Longrightarrow> put_all sts (xs @ ys) = put_all sts xs @ ys"
  by (induction sts arbitrary: xs) (simp_all add: put_bytes_append)

lemma put_all_concat: "put_all (xs @ ys) d = put_all ys (put_all xs d)"
  by (induction xs arbitrary: d) simp_all

lemma get_put_all_other:
  "\<forall>st\<in>set sts. off + n \<le> fst st \<Longrightarrow> get_bytes off n (put_all sts d) = get_bytes off n d"
  by (induction sts arbitrary: d) simp_all

section \<open>Lists and words\<close>

lemma fold_update_other:
  "i \<notin> set is \<Longrightarrow> fold (\<lambda>j xs. xs[j := f j]) is xs ! i = xs ! i"
  by (induction "is" arbitrary: xs) auto

lemma remove1_filter_distinct:
  "distinct xs \<Longrightarrow> remove1 x xs = filter (\<lambda>y. y \<noteq> x) xs"
  by (simp add: distinct_remove1_removeAll removeAll_filter_not_eq eq_commute)

lemma word_and_absorb_iff:
  fixes a m :: "'a::len word"
  shows "a AND m = m \<longleftrightarrow> (\<forall>n. bit m n \<longrightarrow> bit a n)"
proof
  assume "a AND m = m"
  then show "\<forall>n. bit m n \<longrightarrow> bit a n" by (metis bit_and_iff)
next
  assume "\<forall>n. bit m n \<longrightarrow> bit a n"
  then show "a AND m = m" by (intro bit_word_eqI) (auto simp: bit_and_iff)
qed

lemma and_mask_small:
  fixes w :: "'a::len word"
  shows "unat w < 2 ^ n \<Longrightarrow> w AND mask n = w"
  by (metis take_bit_eq_mask take_bit_nat_eq_self unsigned_take_bit_eq unsigned_word_eqI)

end
