(* ===== verification/Xeth_Uapi.thy ===== *)
theory Xeth_Uapi
  imports Xeth_Prelude
begin

text \<open>
  The side band protocol header \<^verbatim>\<open>dkms/xeth_uapi.h\<close>: its constants and enumerations, the message
  header with its validity tests, and for every message structure the view of a byte buffer as
  that structure (field offsets and \<^verbatim>\<open>sizeof\<close> of the x86-64 ABI).
\<close>

section \<open>VLAN constants\<close>

definition XETH_VLAN_VID_MASK :: u16 where "XETH_VLAN_VID_MASK = 0x0fff"
definition XETH_VLAN_N_VID :: nat where "XETH_VLAN_N_VID = 4096"
definition XETH_VLAN_PRIO_SHIFT :: nat where "XETH_VLAN_PRIO_SHIFT = 13"
definition XETH_VLAN_PRIO_MASK :: u16 where
  "XETH_VLAN_PRIO_MASK = push_bit XETH_VLAN_PRIO_SHIFT (2 ^ 3 - 1)"

definition xeth_vlan_tci_is_exception :: "u16 \<Rightarrow> bool" where
  "xeth_vlan_tci_is_exception tci \<longleftrightarrow> tci AND XETH_VLAN_PRIO_MASK = XETH_VLAN_PRIO_MASK"

section \<open>Enumerations\<close>

definition XETH_MSG_VERSION :: u8 where "XETH_MSG_VERSION = 2"
definition XETH_SIZEOF_JUMBO_FRAME :: nat where "XETH_SIZEOF_JUMBO_FRAME = 9728"
definition XETH_IFNAMSIZ :: nat where "XETH_IFNAMSIZ = 16"
definition XETH_ALEN :: nat where "XETH_ALEN = 6"

datatype xeth_encap = XETH_ENCAP_VLAN | XETH_ENCAP_VPLS

fun xeth_encap_code :: "xeth_encap \<Rightarrow> u32" where
  "xeth_encap_code XETH_ENCAP_VLAN = 0"
| "xeth_encap_code XETH_ENCAP_VPLS = 1"

definition XETH_ENCAP_VLAN_VID_BIT :: nat where "XETH_ENCAP_VLAN_VID_BIT = 12"
definition XETH_ENCAP_VPLS_VID_BIT :: nat where "XETH_ENCAP_VPLS_VID_BIT = 20"
definition XETH_ENCAP_VLAN_VID_MASK :: u32 where
  "XETH_ENCAP_VLAN_VID_MASK = 2 ^ XETH_ENCAP_VLAN_VID_BIT - 1"
definition XETH_ENCAP_VPLS_VID_MASK :: u32 where
  "XETH_ENCAP_VPLS_VID_MASK = 2 ^ XETH_ENCAP_VPLS_VID_BIT - 1"

datatype xeth_dev_kind =
  XETH_DEV_KIND_UNSPEC | XETH_DEV_KIND_PORT | XETH_DEV_KIND_VLAN
| XETH_DEV_KIND_BRIDGE | XETH_DEV_KIND_LAG | XETH_DEV_KIND_LB

fun xeth_dev_kind_code :: "xeth_dev_kind \<Rightarrow> u8" where
  "xeth_dev_kind_code XETH_DEV_KIND_UNSPEC = 0"
| "xeth_dev_kind_code XETH_DEV_KIND_PORT = 1"
| "xeth_dev_kind_code XETH_DEV_KIND_VLAN = 2"
| "xeth_dev_kind_code XETH_DEV_KIND_BRIDGE = 3"
| "xeth_dev_kind_code XETH_DEV_KIND_LAG = 4"
| "xeth_dev_kind_code XETH_DEV_KIND_LB = 5"

datatype xeth_msg_kind =
  XETH_MSG_KIND_BREAK | XETH_MSG_KIND_LINK_STAT | XETH_MSG_KIND_ETHTOOL_STAT
| XETH_MSG_KIND_ETHTOOL_FLAGS | XETH_MSG_KIND_ETHTOOL_SETTINGS
| XETH_MSG_KIND_ETHTOOL_LINK_MODES_SUPPORTED | XETH_MSG_KIND_ETHTOOL_LINK_MODES_ADVERTISING
| XETH_MSG_KIND_ETHTOOL_LINK_MODES_LP_ADVERTISING | XETH_MSG_KIND_DUMP_IFINFO
| XETH_MSG_KIND_CARRIER | XETH_MSG_KIND_SPEED | XETH_MSG_KIND_IFINFO | XETH_MSG_KIND_IFA
| XETH_MSG_KIND_IFA6 | XETH_MSG_KIND_DUMP_FIBINFO | XETH_MSG_KIND_FIBENTRY
| XETH_MSG_KIND_FIB6ENTRY | XETH_MSG_KIND_NEIGH_UPDATE | XETH_MSG_KIND_CHANGE_UPPER_XID
| XETH_MSG_KIND_NETNS_ADD | XETH_MSG_KIND_NETNS_DEL

fun xeth_msg_kind_code :: "xeth_msg_kind \<Rightarrow> u8" where
  "xeth_msg_kind_code XETH_MSG_KIND_BREAK = 0"
| "xeth_msg_kind_code XETH_MSG_KIND_LINK_STAT = 1"
| "xeth_msg_kind_code XETH_MSG_KIND_ETHTOOL_STAT = 2"
| "xeth_msg_kind_code XETH_MSG_KIND_ETHTOOL_FLAGS = 3"
| "xeth_msg_kind_code XETH_MSG_KIND_ETHTOOL_SETTINGS = 4"
| "xeth_msg_kind_code XETH_MSG_KIND_ETHTOOL_LINK_MODES_SUPPORTED = 5"
| "xeth_msg_kind_code XETH_MSG_KIND_ETHTOOL_LINK_MODES_ADVERTISING = 6"
| "xeth_msg_kind_code XETH_MSG_KIND_ETHTOOL_LINK_MODES_LP_ADVERTISING = 7"
| "xeth_msg_kind_code XETH_MSG_KIND_DUMP_IFINFO = 8"
| "xeth_msg_kind_code XETH_MSG_KIND_CARRIER = 9"
| "xeth_msg_kind_code XETH_MSG_KIND_SPEED = 10"
| "xeth_msg_kind_code XETH_MSG_KIND_IFINFO = 11"
| "xeth_msg_kind_code XETH_MSG_KIND_IFA = 12"
| "xeth_msg_kind_code XETH_MSG_KIND_IFA6 = 13"
| "xeth_msg_kind_code XETH_MSG_KIND_DUMP_FIBINFO = 14"
| "xeth_msg_kind_code XETH_MSG_KIND_FIBENTRY = 15"
| "xeth_msg_kind_code XETH_MSG_KIND_FIB6ENTRY = 16"
| "xeth_msg_kind_code XETH_MSG_KIND_NEIGH_UPDATE = 17"
| "xeth_msg_kind_code XETH_MSG_KIND_CHANGE_UPPER_XID = 18"
| "xeth_msg_kind_code XETH_MSG_KIND_NETNS_ADD = 19"
| "xeth_msg_kind_code XETH_MSG_KIND_NETNS_DEL = 20"

datatype xeth_link_stat =
  RX_PACKETS | TX_PACKETS | RX_BYTES | TX_BYTES | RX_ERRORS | TX_ERRORS | RX_DROPPED
| TX_DROPPED | MULTICAST | COLLISIONS | RX_LENGTH_ERRORS | RX_OVER_ERRORS | RX_CRC_ERRORS
| RX_FRAME_ERRORS | RX_FIFO_ERRORS | RX_MISSED_ERRORS | TX_ABORTED_ERRORS | TX_CARRIER_ERRORS
| TX_FIFO_ERRORS | TX_HEARTBEAT_ERRORS | TX_WINDOW_ERRORS | RX_COMPRESSED | TX_COMPRESSED
| RX_NOHANDLER

fun xeth_link_stat_index :: "xeth_link_stat \<Rightarrow> nat" where
  "xeth_link_stat_index RX_PACKETS = 0"
| "xeth_link_stat_index TX_PACKETS = 1"
| "xeth_link_stat_index RX_BYTES = 2"
| "xeth_link_stat_index TX_BYTES = 3"
| "xeth_link_stat_index RX_ERRORS = 4"
| "xeth_link_stat_index TX_ERRORS = 5"
| "xeth_link_stat_index RX_DROPPED = 6"
| "xeth_link_stat_index TX_DROPPED = 7"
| "xeth_link_stat_index MULTICAST = 8"
| "xeth_link_stat_index COLLISIONS = 9"
| "xeth_link_stat_index RX_LENGTH_ERRORS = 10"
| "xeth_link_stat_index RX_OVER_ERRORS = 11"
| "xeth_link_stat_index RX_CRC_ERRORS = 12"
| "xeth_link_stat_index RX_FRAME_ERRORS = 13"
| "xeth_link_stat_index RX_FIFO_ERRORS = 14"
| "xeth_link_stat_index RX_MISSED_ERRORS = 15"
| "xeth_link_stat_index TX_ABORTED_ERRORS = 16"
| "xeth_link_stat_index TX_CARRIER_ERRORS = 17"
| "xeth_link_stat_index TX_FIFO_ERRORS = 18"
| "xeth_link_stat_index TX_HEARTBEAT_ERRORS = 19"
| "xeth_link_stat_index TX_WINDOW_ERRORS = 20"
| "xeth_link_stat_index RX_COMPRESSED = 21"
| "xeth_link_stat_index TX_COMPRESSED = 22"
| "xeth_link_stat_index RX_NOHANDLER = 23"

definition XETH_N_LINK_STAT :: nat where "XETH_N_LINK_STAT = 24"

definition XETH_CARRIER_OFF :: u8 where "XETH_CARRIER_OFF = 0"
definition XETH_CARRIER_ON :: u8 where "XETH_CARRIER_ON = 1"

datatype xeth_msg_ifinfo_reason =
  XETH_IFINFO_REASON_NEW | XETH_IFINFO_REASON_DEL | XETH_IFINFO_REASON_UP
| XETH_IFINFO_REASON_DOWN | XETH_IFINFO_REASON_DUMP | XETH_IFINFO_REASON_REG
| XETH_IFINFO_REASON_UNREG | XETH_IFINFO_REASON_FEATURES

fun xeth_msg_ifinfo_reason_code :: "xeth_msg_ifinfo_reason \<Rightarrow> u8" where
  "xeth_msg_ifinfo_reason_code XETH_IFINFO_REASON_NEW = 0"
| "xeth_msg_ifinfo_reason_code XETH_IFINFO_REASON_DEL = 1"
| "xeth_msg_ifinfo_reason_code XETH_IFINFO_REASON_UP = 2"
| "xeth_msg_ifinfo_reason_code XETH_IFINFO_REASON_DOWN = 3"
| "xeth_msg_ifinfo_reason_code XETH_IFINFO_REASON_DUMP = 4"
| "xeth_msg_ifinfo_reason_code XETH_IFINFO_REASON_REG = 5"
| "xeth_msg_ifinfo_reason_code XETH_IFINFO_REASON_UNREG = 6"
| "xeth_msg_ifinfo_reason_code XETH_IFINFO_REASON_FEATURES = 7"

definition XETH_IFINFO_FEATURE_L2_FWD_OFFLOAD_BIT :: nat where
  "XETH_IFINFO_FEATURE_L2_FWD_OFFLOAD_BIT = 0"

section \<open>Message header\<close>

record xeth_msg_header =
  z64 :: u64
  z32 :: u32
  z16 :: u16
  version :: u8
  kind :: u8

definition sizeof_xeth_msg_header :: nat where "sizeof_xeth_msg_header = 16"

definition xeth_msg_header_at :: "u8 list \<Rightarrow> xeth_msg_header" where
  "xeth_msg_header_at d = \<lparr>z64 = get64 0 d, z32 = get32 8 d, z16 = get16 12 d,
     version = get8 14 d, kind = get8 15 d\<rparr>"

definition xeth_is_msg :: "u8 list \<Rightarrow> bool" where
  "xeth_is_msg d \<longleftrightarrow> (let h = xeth_msg_header_at d in z64 h = 0 \<and> z32 h = 0 \<and> z16 h = 0)"

definition xeth_msg_kind_at :: "u8 list \<Rightarrow> u8" where
  "xeth_msg_kind_at d = kind (xeth_msg_header_at d)"

definition xeth_msg_version_match :: "u8 list \<Rightarrow> bool" where
  "xeth_msg_version_match d \<longleftrightarrow> version (xeth_msg_header_at d) = XETH_MSG_VERSION"

text \<open>The five header stores of \<^verbatim>\<open>xeth_msg_init\<close> (and of its copy \<^verbatim>\<open>xeth_sbtx_msg_set\<close>).\<close>

definition xeth_msg_init :: "xeth_msg_kind \<Rightarrow> store list" where
  "xeth_msg_init k = [(0, le64 0), (8, le32 0), (12, le16 0), (14, [XETH_MSG_VERSION]),
     (15, [xeth_msg_kind_code k])]"

section \<open>Message structures\<close>

record xeth_msg_carrier =
  carrier_xid :: u32
  carrier_flag :: u8

definition xeth_msg_carrier_at :: "u8 list \<Rightarrow> xeth_msg_carrier" where
  "xeth_msg_carrier_at d = \<lparr>carrier_xid = get32 16 d, carrier_flag = get8 20 d\<rparr>"

record xeth_msg_change_upper_xid =
  cu_upper :: u32
  cu_lower :: u32
  cu_linking :: u8

definition sizeof_xeth_msg_change_upper_xid :: nat where "sizeof_xeth_msg_change_upper_xid = 32"

definition xeth_msg_change_upper_xid_at :: "u8 list \<Rightarrow> xeth_msg_change_upper_xid" where
  "xeth_msg_change_upper_xid_at d =
     \<lparr>cu_upper = get32 16 d, cu_lower = get32 20 d, cu_linking = get8 24 d\<rparr>"

record xeth_msg_ethtool_flags =
  etf_xid :: u32
  etf_flags :: u32

definition sizeof_xeth_msg_ethtool_flags :: nat where "sizeof_xeth_msg_ethtool_flags = 24"

definition xeth_msg_ethtool_flags_at :: "u8 list \<Rightarrow> xeth_msg_ethtool_flags" where
  "xeth_msg_ethtool_flags_at d = \<lparr>etf_xid = get32 16 d, etf_flags = get32 20 d\<rparr>"

record xeth_msg_ethtool_settings =
  ets_xid :: u32
  ets_speed :: u32
  ets_duplex :: u8
  ets_port :: u8
  ets_phy_address :: u8
  ets_autoneg :: u8
  ets_mdio_support :: u8
  ets_eth_tp_mdix :: u8
  ets_eth_tp_mdix_ctrl :: u8

definition sizeof_xeth_msg_ethtool_settings :: nat where "sizeof_xeth_msg_ethtool_settings = 32"

definition xeth_msg_ethtool_settings_at :: "u8 list \<Rightarrow> xeth_msg_ethtool_settings" where
  "xeth_msg_ethtool_settings_at d = \<lparr>ets_xid = get32 16 d, ets_speed = get32 20 d,
     ets_duplex = get8 24 d, ets_port = get8 25 d, ets_phy_address = get8 26 d,
     ets_autoneg = get8 27 d, ets_mdio_support = get8 28 d, ets_eth_tp_mdix = get8 29 d,
     ets_eth_tp_mdix_ctrl = get8 30 d\<rparr>"

record xeth_msg_ethtool_link_modes =
  etlm_xid :: u32
  etlm_modes :: u64

definition sizeof_xeth_msg_ethtool_link_modes :: nat where
  "sizeof_xeth_msg_ethtool_link_modes = 32"

definition xeth_msg_ethtool_link_modes_at :: "u8 list \<Rightarrow> xeth_msg_ethtool_link_modes" where
  "xeth_msg_ethtool_link_modes_at d = \<lparr>etlm_xid = get32 16 d, etlm_modes = get64 24 d\<rparr>"

record xeth_next_hop =
  nh_ifindex :: u32
  nh_weight :: u32
  nh_flags :: u32
  nh_gw :: "u8 list"
  nh_scope :: u8

definition sizeof_xeth_next_hop :: nat where "sizeof_xeth_next_hop = 24"

definition xeth_next_hop_at :: "nat \<Rightarrow> u8 list \<Rightarrow> xeth_next_hop" where
  "xeth_next_hop_at off d = \<lparr>nh_ifindex = get32 off d, nh_weight = get32 (off + 4) d,
     nh_flags = get32 (off + 8) d, nh_gw = get_bytes (off + 12) 4 d, nh_scope = get8 (off + 16) d\<rparr>"

record xeth_msg_fibentry =
  fib_net :: u64
  fib_address :: "u8 list"
  fib_mask :: "u8 list"
  fib_event :: u8
  fib_nhs :: u8
  fib_tos :: u8
  fib_type :: u8
  fib_table :: u32

definition sizeof_xeth_msg_fibentry :: nat where "sizeof_xeth_msg_fibentry = 40"

definition xeth_msg_fibentry_at :: "u8 list \<Rightarrow> xeth_msg_fibentry" where
  "xeth_msg_fibentry_at d = \<lparr>fib_net = get64 16 d, fib_address = get_bytes 24 4 d,
     fib_mask = get_bytes 28 4 d, fib_event = get8 32 d, fib_nhs = get8 33 d,
     fib_tos = get8 34 d, fib_type = get8 35 d, fib_table = get32 36 d\<rparr>"

record xeth_next_hop6 =
  nh6_ifindex :: u32
  nh6_weight :: u32
  nh6_flags :: u32
  nh6_gw :: "u8 list"

definition sizeof_xeth_next_hop6 :: nat where "sizeof_xeth_next_hop6 = 32"

definition xeth_next_hop6_at :: "nat \<Rightarrow> u8 list \<Rightarrow> xeth_next_hop6" where
  "xeth_next_hop6_at off d = \<lparr>nh6_ifindex = get32 off d, nh6_weight = get32 (off + 4) d,
     nh6_flags = get32 (off + 8) d, nh6_gw = get_bytes (off + 16) 16 d\<rparr>"

record xeth_msg_fib6entry =
  fib6_net :: u64
  fib6_address :: "u8 list"
  fib6_length :: u8
  fib6_event :: u8
  fib6_nsiblings :: u8
  fib6_type :: u8
  fib6_table :: u32
  fib6_nh :: xeth_next_hop6

definition sizeof_xeth_msg_fib6entry :: nat where "sizeof_xeth_msg_fib6entry = 80"

definition xeth_msg_fib6entry_at :: "u8 list \<Rightarrow> xeth_msg_fib6entry" where
  "xeth_msg_fib6entry_at d = \<lparr>fib6_net = get64 16 d, fib6_address = get_bytes 24 16 d,
     fib6_length = get8 40 d, fib6_event = get8 41 d, fib6_nsiblings = get8 42 d,
     fib6_type = get8 43 d, fib6_table = get32 44 d, fib6_nh = xeth_next_hop6_at 48 d\<rparr>"

record xeth_msg_ifa =
  ifa_xid :: u32
  ifa_event :: u32
  ifa_address :: "u8 list"
  ifa_mask :: "u8 list"

definition sizeof_xeth_msg_ifa :: nat where "sizeof_xeth_msg_ifa = 32"

definition xeth_msg_ifa_at :: "u8 list \<Rightarrow> xeth_msg_ifa" where
  "xeth_msg_ifa_at d = \<lparr>ifa_xid = get32 16 d, ifa_event = get32 20 d,
     ifa_address = get_bytes 24 4 d, ifa_mask = get_bytes 28 4 d\<rparr>"

record xeth_msg_ifa6 =
  ifa6_xid :: u32
  ifa6_event :: u32
  ifa6_address :: "u8 list"
  ifa6_length :: u8

definition sizeof_xeth_msg_ifa6 :: nat where "sizeof_xeth_msg_ifa6 = 48"

definition xeth_msg_ifa6_at :: "u8 list \<Rightarrow> xeth_msg_ifa6" where
  "xeth_msg_ifa6_at d = \<lparr>ifa6_xid = get32 16 d, ifa6_event = get32 20 d,
     ifa6_address = get_bytes 24 16 d, ifa6_length = get8 40 d\<rparr>"

record xeth_msg_ifinfo =
  ifi_xid :: u32
  ifi_kdata :: u32
  ifi_ifname :: "u8 list"
  ifi_net :: u64
  ifi_ifindex :: u32
  ifi_flags :: u32
  ifi_addr :: "u8 list"
  ifi_kind :: u8
  ifi_reason :: u8
  ifi_features :: u64

definition sizeof_xeth_msg_ifinfo :: nat where "sizeof_xeth_msg_ifinfo = 72"

definition xeth_msg_ifinfo_at :: "u8 list \<Rightarrow> xeth_msg_ifinfo" where
  "xeth_msg_ifinfo_at d = \<lparr>ifi_xid = get32 16 d, ifi_kdata = get32 20 d,
     ifi_ifname = get_bytes 24 XETH_IFNAMSIZ d, ifi_net = get64 40 d, ifi_ifindex = get32 48 d,
     ifi_flags = get32 52 d, ifi_addr = get_bytes 56 XETH_ALEN d, ifi_kind = get8 62 d,
     ifi_reason = get8 63 d, ifi_features = get64 64 d\<rparr>"

record xeth_msg_neigh_update =
  nu_net :: u64
  nu_ifindex :: u32
  nu_family :: u8
  nu_len :: u8
  nu_dst :: "u8 list"
  nu_lladdr :: "u8 list"

definition sizeof_xeth_msg_neigh_update :: nat where "sizeof_xeth_msg_neigh_update = 56"

definition xeth_msg_neigh_update_at :: "u8 list \<Rightarrow> xeth_msg_neigh_update" where
  "xeth_msg_neigh_update_at d = \<lparr>nu_net = get64 16 d, nu_ifindex = get32 24 d,
     nu_family = get8 28 d, nu_len = get8 29 d, nu_dst = get_bytes 32 16 d,
     nu_lladdr = get_bytes 48 XETH_ALEN d\<rparr>"

definition sizeof_xeth_msg_netns :: nat where "sizeof_xeth_msg_netns = 24"

text \<open>\<^verbatim>\<open>struct xeth_msg_netns\<close> has one field, the inode number of the namespace.\<close>

definition xeth_msg_netns_net :: "u8 list \<Rightarrow> u64" where
  "xeth_msg_netns_net d = get64 16 d"

record xeth_msg_speed =
  speed_xid :: u32
  speed_mbps :: u32

definition xeth_msg_speed_at :: "u8 list \<Rightarrow> xeth_msg_speed" where
  "xeth_msg_speed_at d = \<lparr>speed_xid = get32 16 d, speed_mbps = get32 20 d\<rparr>"

record xeth_msg_stat =
  stat_xid :: u32
  stat_index :: u32
  stat_count :: u64

definition xeth_msg_stat_at :: "u8 list \<Rightarrow> xeth_msg_stat" where
  "xeth_msg_stat_at d = \<lparr>stat_xid = get32 16 d, stat_index = get32 20 d, stat_count = get64 24 d\<rparr>"

lemmas xeth_sizeofs [xeth_msg_simps] =
  sizeof_xeth_msg_header_def sizeof_xeth_msg_change_upper_xid_def
  sizeof_xeth_msg_ethtool_flags_def sizeof_xeth_msg_ethtool_settings_def
  sizeof_xeth_msg_ethtool_link_modes_def sizeof_xeth_next_hop_def sizeof_xeth_msg_fibentry_def
  sizeof_xeth_next_hop6_def sizeof_xeth_msg_fib6entry_def sizeof_xeth_msg_ifa_def
  sizeof_xeth_msg_ifa6_def sizeof_xeth_msg_ifinfo_def sizeof_xeth_msg_neigh_update_def
  sizeof_xeth_msg_netns_def XETH_IFNAMSIZ_def XETH_ALEN_def

lemmas xeth_views [xeth_msg_simps] =
  xeth_msg_header_at_def xeth_msg_carrier_at_def xeth_msg_change_upper_xid_at_def
  xeth_msg_ethtool_flags_at_def xeth_msg_ethtool_settings_at_def
  xeth_msg_ethtool_link_modes_at_def xeth_next_hop_at_def xeth_msg_fibentry_at_def
  xeth_next_hop6_at_def xeth_msg_fib6entry_at_def xeth_msg_ifa_at_def xeth_msg_ifa6_at_def
  xeth_msg_ifinfo_at_def xeth_msg_neigh_update_at_def xeth_msg_netns_net_def
  xeth_msg_speed_at_def xeth_msg_stat_at_def

section \<open>Facts about the enumerations and the header\<close>

lemma xeth_link_stat_index_less [simp]: "xeth_link_stat_index s < 24"
  by (cases s) auto

lemma xeth_link_stat_index_inj [simp]:
  "xeth_link_stat_index s = xeth_link_stat_index t \<longleftrightarrow> s = t"
  by (cases s; cases t) simp_all

lemma xeth_msg_kind_code_inj: "xeth_msg_kind_code a = xeth_msg_kind_code b \<longleftrightarrow> a = b"
  by (cases a; cases b) simp_all

lemma bit_seven_u16: "bit (7 :: u16) n \<longleftrightarrow> n < 3"
proof -
  have "(7 :: u16) = mask 3" by (simp add: mask_eq_exp_minus_1)
  moreover have "bit (mask 3 :: u16) n \<longleftrightarrow> n < 3" by (subst bit_mask_iff) auto
  ultimately show ?thesis by metis
qed

lemma bit_prio_mask: "bit XETH_VLAN_PRIO_MASK n \<longleftrightarrow> n \<in> {13, 14, 15}"
  by (auto simp: XETH_VLAN_PRIO_MASK_def XETH_VLAN_PRIO_SHIFT_def bit_push_bit_iff
      bit_numeral_rec bit_1_iff numeral_eq_Suc less_Suc_eq bit_Suc)

lemma xeth_vlan_tci_is_exception_iff:
  "xeth_vlan_tci_is_exception tci \<longleftrightarrow> drop_bit 13 tci = 7"
proof -
  have "xeth_vlan_tci_is_exception tci \<longleftrightarrow> bit tci 13 \<and> bit tci 14 \<and> bit tci 15"
    by (auto simp: xeth_vlan_tci_is_exception_def word_and_absorb_iff bit_prio_mask)
  also have "\<dots> \<longleftrightarrow> (\<forall>n. bit (drop_bit 13 tci) n \<longleftrightarrow> n < 3)"
  proof
    assume *: "bit tci 13 \<and> bit tci 14 \<and> bit tci 15"
    show "\<forall>n. bit (drop_bit 13 tci) n \<longleftrightarrow> n < 3"
    proof
      fix n show "bit (drop_bit 13 tci) n \<longleftrightarrow> n < 3"
      proof (cases "n < 3")
        case True
        then have "n = 0 \<or> n = 1 \<or> n = 2" by auto
        with * show ?thesis by (auto simp: bit_drop_bit_eq)
      next
        case False
        then show ?thesis by (auto simp: bit_drop_bit_eq dest: bit_imp_le_length)
      qed
    qed
  next
    assume *: "\<forall>n. bit (drop_bit 13 tci) n \<longleftrightarrow> n < 3"
    show "bit tci 13 \<and> bit tci 14 \<and> bit tci 15"
      using *[rule_format, of 0] *[rule_format, of 1] *[rule_format, of 2]
      by (simp add: bit_drop_bit_eq)
  qed
  also have "\<dots> \<longleftrightarrow> drop_bit 13 tci = 7"
    by (metis bit_seven_u16 bit_word_eqI)
  finally show ?thesis .
qed

lemma xeth_msg_init_header:
  assumes "16 \<le> length d"
  shows "xeth_msg_header_at (put_all (xeth_msg_init k) d) =
    \<lparr>z64 = 0, z32 = 0, z16 = 0, version = XETH_MSG_VERSION, kind = xeth_msg_kind_code k\<rparr>"
  using assms by (simp add: xeth_msg_header_at_def xeth_msg_init_def)

end
