(* ===== verification/Xeth_Counters.thy ===== *)
theory Xeth_Counters
  imports Xeth_Uapi
begin

text \<open>
  The counter arrays and the flag word of \<^verbatim>\<open>dkms/xeth.h\<close>: link statistics, mux counters and mux
  flags. The header generates one group of accessors per enumerator with the macros
  \<^verbatim>\<open>xeth_link_stat_ops\<close>, \<^verbatim>\<open>xeth_mux_counter_ops\<close> and \<^verbatim>\<open>xeth_mux_flag_ops\<close>; here each group is one
  family of functions indexed by the enumerator. An \<^verbatim>\<open>atomic64_t\<close> is a 64-bit word and wraps.
\<close>

section \<open>Link statistics\<close>

type_synonym link_stats = "u64 list"

definition xeth_link_stat_init :: "link_stats \<Rightarrow> link_stats" where
  "xeth_link_stat_init t = fold (\<lambda>s t. t[s := 0]) [0..<XETH_N_LINK_STAT] t"

definition xeth_get_stat :: "xeth_link_stat \<Rightarrow> link_stats \<Rightarrow> u64" where
  "xeth_get_stat s t = t ! xeth_link_stat_index s"

definition xeth_add_stat :: "xeth_link_stat \<Rightarrow> u64 \<Rightarrow> link_stats \<Rightarrow> link_stats" where
  "xeth_add_stat s n t = t[xeth_link_stat_index s := t ! xeth_link_stat_index s + n]"

definition xeth_inc_stat :: "xeth_link_stat \<Rightarrow> link_stats \<Rightarrow> link_stats" where
  "xeth_inc_stat s t = t[xeth_link_stat_index s := t ! xeth_link_stat_index s + 1]"

definition xeth_set_stat :: "xeth_link_stat \<Rightarrow> u64 \<Rightarrow> link_stats \<Rightarrow> link_stats" where
  "xeth_set_stat s n t = t[xeth_link_stat_index s := n]"

record rtnl_link_stats64 =
  rx_packets :: u64
  tx_packets :: u64
  rx_bytes :: u64
  tx_bytes :: u64
  rx_errors :: u64
  tx_errors :: u64
  rx_dropped :: u64
  tx_dropped :: u64
  multicast :: u64
  collisions :: u64
  rx_length_errors :: u64
  rx_over_errors :: u64
  rx_crc_errors :: u64
  rx_frame_errors :: u64
  rx_fifo_errors :: u64
  rx_missed_errors :: u64
  tx_aborted_errors :: u64
  tx_carrier_errors :: u64
  tx_fifo_errors :: u64
  tx_heartbeat_errors :: u64
  tx_window_errors :: u64
  rx_compressed :: u64
  tx_compressed :: u64
  rx_nohandler :: u64

definition xeth_link_stats :: "link_stats \<Rightarrow> rtnl_link_stats64" where
  "xeth_link_stats src = \<lparr>
     rx_packets = xeth_get_stat RX_PACKETS src,
     tx_packets = xeth_get_stat TX_PACKETS src,
     rx_bytes = xeth_get_stat RX_BYTES src,
     tx_bytes = xeth_get_stat TX_BYTES src,
     rx_errors = xeth_get_stat RX_ERRORS src,
     tx_errors = xeth_get_stat TX_ERRORS src,
     rx_dropped = xeth_get_stat RX_DROPPED src,
     tx_dropped = xeth_get_stat TX_DROPPED src,
     multicast = xeth_get_stat MULTICAST src,
     collisions = xeth_get_stat COLLISIONS src,
     rx_length_errors = xeth_get_stat RX_LENGTH_ERRORS src,
     rx_over_errors = xeth_get_stat RX_OVER_ERRORS src,
     rx_crc_errors = xeth_get_stat RX_CRC_ERRORS src,
     rx_frame_errors = xeth_get_stat RX_FRAME_ERRORS src,
     rx_fifo_errors = xeth_get_stat RX_FIFO_ERRORS src,
     rx_missed_errors = xeth_get_stat RX_MISSED_ERRORS src,
     tx_aborted_errors = xeth_get_stat TX_ABORTED_ERRORS src,
     tx_carrier_errors = xeth_get_stat TX_CARRIER_ERRORS src,
     tx_fifo_errors = xeth_get_stat TX_FIFO_ERRORS src,
     tx_heartbeat_errors = xeth_get_stat TX_HEARTBEAT_ERRORS src,
     tx_window_errors = xeth_get_stat TX_WINDOW_ERRORS src,
     rx_compressed = xeth_get_stat RX_COMPRESSED src,
     tx_compressed = xeth_get_stat TX_COMPRESSED src,
     rx_nohandler = xeth_get_stat RX_NOHANDLER src\<rparr>"

section \<open>Mux counters\<close>

datatype xeth_mux_counter =
  ex_frames | ex_bytes | sb_connections | sbex_invalid | sbex_dropped | sbrx_invalid
| sbrx_no_dev | sbrx_no_mem | sbrx_msgs | sbrx_ticks | sbtx_msgs | sbtx_retries | sbtx_no_mem
| sbtx_queued | sbtx_free | sbtx_ticks

fun xeth_mux_counter_index :: "xeth_mux_counter \<Rightarrow> nat" where
  "xeth_mux_counter_index ex_frames = 0"
| "xeth_mux_counter_index ex_bytes = 1"
| "xeth_mux_counter_index sb_connections = 2"
| "xeth_mux_counter_index sbex_invalid = 3"
| "xeth_mux_counter_index sbex_dropped = 4"
| "xeth_mux_counter_index sbrx_invalid = 5"
| "xeth_mux_counter_index sbrx_no_dev = 6"
| "xeth_mux_counter_index sbrx_no_mem = 7"
| "xeth_mux_counter_index sbrx_msgs = 8"
| "xeth_mux_counter_index sbrx_ticks = 9"
| "xeth_mux_counter_index sbtx_msgs = 10"
| "xeth_mux_counter_index sbtx_retries = 11"
| "xeth_mux_counter_index sbtx_no_mem = 12"
| "xeth_mux_counter_index sbtx_queued = 13"
| "xeth_mux_counter_index sbtx_free = 14"
| "xeth_mux_counter_index sbtx_ticks = 15"

definition xeth_mux_n_counters :: nat where "xeth_mux_n_counters = 16"

text \<open>The name table ends with a NULL sentinel; \<open>None\<close> is a NULL entry.\<close>

definition xeth_mux_counter_names :: "string option list" where
  "xeth_mux_counter_names = map Some [''ex_frames'', ''ex_bytes'', ''sb_connections'',
     ''sbex_invalid'', ''sbex_dropped'', ''sbrx_invalid'', ''sbrx_no_dev'', ''sbrx_no_mem'',
     ''sbrx_msgs'', ''sbrx_ticks'', ''sbtx_msgs'', ''sbtx_retries'', ''sbtx_no_mem'',
     ''sbtx_queued'', ''sbtx_free'', ''sbtx_ticks''] @ [None]"

type_synonym counters = "u64 list"

definition xeth_mux_counter_init :: "counters \<Rightarrow> counters" where
  "xeth_mux_counter_init t = fold (\<lambda>c t. t[c := 0]) [0..<xeth_mux_n_counters] t"

definition xeth_mux_get :: "xeth_mux_counter \<Rightarrow> counters \<Rightarrow> u64" where
  "xeth_mux_get c t = t ! xeth_mux_counter_index c"

definition xeth_mux_add :: "xeth_mux_counter \<Rightarrow> u64 \<Rightarrow> counters \<Rightarrow> counters" where
  "xeth_mux_add c n t = t[xeth_mux_counter_index c := t ! xeth_mux_counter_index c + n]"

definition xeth_mux_dec :: "xeth_mux_counter \<Rightarrow> counters \<Rightarrow> counters" where
  "xeth_mux_dec c t = t[xeth_mux_counter_index c := t ! xeth_mux_counter_index c - 1]"

definition xeth_mux_inc :: "xeth_mux_counter \<Rightarrow> counters \<Rightarrow> counters" where
  "xeth_mux_inc c t = t[xeth_mux_counter_index c := t ! xeth_mux_counter_index c + 1]"

definition xeth_mux_set :: "xeth_mux_counter \<Rightarrow> u64 \<Rightarrow> counters \<Rightarrow> counters" where
  "xeth_mux_set c n t = t[xeth_mux_counter_index c := n]"

section \<open>Mux flags\<close>

datatype xeth_mux_flag =
  main_task | sb_listen | sb_connection | sbrx_task | fib_notifier | inetaddr_notifier
| inet6addr_notifier | netdevice_notifier | netevent_notifier

fun xeth_mux_flag_bit :: "xeth_mux_flag \<Rightarrow> nat" where
  "xeth_mux_flag_bit main_task = 0"
| "xeth_mux_flag_bit sb_listen = 1"
| "xeth_mux_flag_bit sb_connection = 2"
| "xeth_mux_flag_bit sbrx_task = 3"
| "xeth_mux_flag_bit fib_notifier = 4"
| "xeth_mux_flag_bit inetaddr_notifier = 5"
| "xeth_mux_flag_bit inet6addr_notifier = 6"
| "xeth_mux_flag_bit netdevice_notifier = 7"
| "xeth_mux_flag_bit netevent_notifier = 8"

definition xeth_mux_n_flags :: nat where "xeth_mux_n_flags = 9"

text \<open>
  The designated initializers of \<^verbatim>\<open>xeth_mux_flag_names\<close> leave out \<^verbatim>\<open>fib_notifier\<close>, so the entry at
  its index stays NULL.
\<close>

definition xeth_mux_flag_names :: "string option list" where
  "xeth_mux_flag_names = [Some ''main_task'', Some ''sb_listen'', Some ''sb_connection'',
     Some ''sbrx_task'', None, Some ''inetaddr_notifier'', Some ''inet6addr_notifier'',
     Some ''netdevice_notifier'', Some ''netevent_notifier'', None]"

definition xeth_mux_has :: "xeth_mux_flag \<Rightarrow> u64 \<Rightarrow> bool" where
  "xeth_mux_has f flags \<longleftrightarrow> bit flags (xeth_mux_flag_bit f)"

definition xeth_mux_clear_flag :: "xeth_mux_flag \<Rightarrow> u64 \<Rightarrow> u64" where
  "xeth_mux_clear_flag f flags = unset_bit (xeth_mux_flag_bit f) flags"

definition xeth_mux_set_flag :: "xeth_mux_flag \<Rightarrow> u64 \<Rightarrow> u64" where
  "xeth_mux_set_flag f flags = set_bit (xeth_mux_flag_bit f) flags"

section \<open>Laws of the accessors\<close>

text \<open>
  A bank of counters: one cell per enumerator, a store touches its own cell only. Link statistics
  and mux counters are two instances of the same contract.
\<close>

locale counter_bank =
  fixes index :: "'c \<Rightarrow> nat" and size :: nat
    and get :: "'c \<Rightarrow> u64 list \<Rightarrow> u64"
    and add :: "'c \<Rightarrow> u64 \<Rightarrow> u64 list \<Rightarrow> u64 list"
    and inc :: "'c \<Rightarrow> u64 list \<Rightarrow> u64 list"
    and init :: "u64 list \<Rightarrow> u64 list"
  assumes index_less: "index c < size"
    and index_inj: "index c = index d \<longleftrightarrow> c = d"
    and get_eq: "get c t = t ! index c"
    and add_eq: "add c n t = t[index c := t ! index c + n]"
    and inc_eq: "inc c t = t[index c := t ! index c + 1]"
    and init_eq: "init t = fold (\<lambda>i t. t[i := 0]) [0..<size] t"
begin

lemma length_add: "length (add c n t) = length t"
  by (simp add: add_eq)

lemma length_inc: "length (inc c t) = length t"
  by (simp add: inc_eq)

lemma get_add: "length t = size \<Longrightarrow> get d (add c n t) = (if d = c then get c t + n else get d t)"
  using index_less[of c] by (auto simp: get_eq add_eq nth_list_update index_inj)

lemma get_inc: "length t = size \<Longrightarrow> get d (inc c t) = (if d = c then get c t + 1 else get d t)"
  using index_less[of c] by (auto simp: get_eq inc_eq nth_list_update index_inj)

lemma fold_zero: "k \<le> length t \<Longrightarrow>
   fold (\<lambda>i t. t[i := 0]) [0..<k] t = replicate k 0 @ drop k t"
proof (induction k)
  case (Suc k)
  then have d: "drop k t = t ! k # drop (Suc k) t" by (simp add: Cons_nth_drop_Suc)
  from Suc have "fold (\<lambda>i t. t[i := 0]) [0..<Suc k] t = (replicate k 0 @ drop k t)[k := 0]" by simp
  also have "\<dots> = replicate (Suc k) 0 @ drop (Suc k) t"
    by (simp add: d list_update_append replicate_append_same flip: append_assoc)
  finally show ?case .
qed simp

lemma init_zeros: "length t = size \<Longrightarrow> init t = replicate size 0"
  by (simp add: init_eq fold_zero)

lemma get_init: "length t = size \<Longrightarrow> get c (init t) = 0"
  using index_less by (simp add: init_zeros get_eq)

end

lemma xeth_mux_counter_index_less [simp]: "xeth_mux_counter_index c < 16"
  by (cases c) auto

lemma xeth_mux_counter_index_inj [simp]:
  "xeth_mux_counter_index c = xeth_mux_counter_index d \<longleftrightarrow> c = d"
  by (cases c; cases d) simp_all

interpretation ls: counter_bank xeth_link_stat_index XETH_N_LINK_STAT xeth_get_stat xeth_add_stat
  xeth_inc_stat xeth_link_stat_init
  by unfold_locales (simp_all add: XETH_N_LINK_STAT_def xeth_get_stat_def xeth_add_stat_def
      xeth_inc_stat_def xeth_link_stat_init_def)

interpretation mc: counter_bank xeth_mux_counter_index xeth_mux_n_counters xeth_mux_get xeth_mux_add
  xeth_mux_inc xeth_mux_counter_init
  by unfold_locales (simp_all add: xeth_mux_n_counters_def xeth_mux_get_def xeth_mux_add_def
      xeth_mux_inc_def xeth_mux_counter_init_def)

lemma xeth_mux_get_dec: "length t = xeth_mux_n_counters \<Longrightarrow>
   xeth_mux_get d (xeth_mux_dec c t) = (if d = c then xeth_mux_get c t - 1 else xeth_mux_get d t)"
  by (auto simp: xeth_mux_get_def xeth_mux_dec_def nth_list_update xeth_mux_n_counters_def)

lemma length_xeth_mux_dec [simp]: "length (xeth_mux_dec c t) = length t"
  by (simp add: xeth_mux_dec_def)

lemmas counter_simps [simp] = ls.length_add ls.length_inc mc.length_add mc.length_inc

lemmas counter_gets =
  ls.get_add ls.get_inc ls.get_init mc.get_add mc.get_inc mc.get_init xeth_mux_get_dec

lemma xeth_mux_flag_bit_inj [simp]: "xeth_mux_flag_bit f = xeth_mux_flag_bit g \<longleftrightarrow> f = g"
  by (cases f; cases g) simp_all

lemma xeth_mux_flag_bit_less [simp]: "xeth_mux_flag_bit f < 64"
  by (cases f) simp_all

lemma xeth_mux_has_set [simp]: "xeth_mux_has g (xeth_mux_set_flag f w) \<longleftrightarrow> g = f \<or> xeth_mux_has g w"
  by (auto simp: xeth_mux_has_def xeth_mux_set_flag_def bit_set_bit_iff)

lemma xeth_mux_has_clear [simp]:
  "xeth_mux_has g (xeth_mux_clear_flag f w) \<longleftrightarrow> g \<noteq> f \<and> xeth_mux_has g w"
  by (auto simp: xeth_mux_has_def xeth_mux_clear_flag_def bit_unset_bit_iff)

lemma xeth_mux_has_zero [simp]: "\<not> xeth_mux_has f 0"
  by (simp add: xeth_mux_has_def)

end
