(* ===== verification/Xeth_State.thy ===== *)
theory Xeth_State
  imports Xeth_Counters
begin

text \<open>
  The state the driver works on. Kernel objects are records in stores indexed by their pointer:
  a \<^verbatim>\<open>struct net_device\<close>, the \<^verbatim>\<open>struct xeth_proxy\<close> at the start of a proxy's private data, the rest
  of a port's private data, and the \<^verbatim>\<open>struct xeth_mux_priv\<close> of a mux. A proxy pointer is
  identified with the pointer of the net device whose private data holds it, as
  \<^verbatim>\<open>netdev_priv\<close> does. Kernel services the code calls (the network core, the allocator, the hash
  function, notifier registration) are parameters, collected in the record \<open>kapi\<close>; the calls with
  an effect outside the driver are logged in \<open>w_trace\<close>, and an answer of the kernel may depend on
  that log, so that nothing is assumed about how the kernel answers over time.
\<close>

section \<open>Constants of the kernel headers\<close>

definition IFF_UP :: u32 where "IFF_UP = 0x1"
definition IFF_MASTER :: u32 where "IFF_MASTER = 0x400"
definition IFF_SLAVE :: u32 where "IFF_SLAVE = 0x800"
definition IFF_TEAM_PORT :: u32 where "IFF_TEAM_PORT = 0x2000"
definition IFF_BROADCAST :: u32 where "IFF_BROADCAST = 0x2"
definition IFF_MULTICAST :: u32 where "IFF_MULTICAST = 0x1000"
definition IFF_DONT_BRIDGE :: u32 where "IFF_DONT_BRIDGE = 0x40"
definition IFF_TX_SKB_SHARING :: u32 where "IFF_TX_SKB_SHARING = 0x800"
definition IFF_LIVE_ADDR_CHANGE :: u32 where "IFF_LIVE_ADDR_CHANGE = 0x8000"
definition IFF_NO_QUEUE :: u32 where "IFF_NO_QUEUE = 0x80000"
definition IFF_PHONY_HEADROOM :: u32 where "IFF_PHONY_HEADROOM = 0x1000000"
definition ETH_MIN_MTU :: u32 where "ETH_MIN_MTU = 68"
definition ETH_MAX_MTU :: u32 where "ETH_MAX_MTU = 65535"
definition ETH_DATA_LEN :: u32 where "ETH_DATA_LEN = 1500"
definition VLAN_N_VID :: nat where "VLAN_N_VID = 4096"
definition IFNAMSIZ :: nat where "IFNAMSIZ = 16"
definition ETH_HLEN :: nat where "ETH_HLEN = 14"
definition VLAN_HLEN :: nat where "VLAN_HLEN = 4"
definition ETH_P_8021Q :: u16 where "ETH_P_8021Q = 0x8100"
definition ETH_P_8021AD :: u16 where "ETH_P_8021AD = 0x88a8"
definition NETDEV_UP :: u32 where "NETDEV_UP = 1"

section \<open>Net devices\<close>

text \<open>The operation tables that the driver compares by address.\<close>

datatype netdev_ops =
  xeth_mux_ndo | xeth_port_ndo | xeth_vlan_ndo | xeth_bridge_ndo | xeth_lag_ndo | xeth_lb_ndo
| other_ndo

datatype rtnl_link_ops =
  xeth_mux_lnko | xeth_port_lnko | xeth_vlan_lnko | xeth_bridge_lnko | xeth_lag_lnko | xeth_lb_lnko
| other_lnko

text \<open>Addresses in network byte order are kept as the bytes that are in memory.\<close>

record in_ifaddr =
  in_ifa_address :: "u8 list"
  in_ifa_mask :: "u8 list"

record inet6_ifaddr =
  in6_ifa_addr :: "u8 list"
  in6_ifa_prefix_len :: u32

record net_device =
  nd_name :: string
  nd_ifindex :: u32
  nd_flags :: u32
  nd_priv_flags :: u32
  nd_features :: u64
  nd_hw_features :: u64
  nd_mtu :: u32
  nd_min_mtu :: u32
  nd_max_mtu :: u32
  nd_dev_addr :: "u8 list"
  nd_carrier :: bool
  nd_netdev_ops :: netdev_ops
  nd_rtnl_link_ops :: rtnl_link_ops
  nd_net :: netp
  nd_master :: "ndp option"
  nd_lowers :: "ndp list"
  nd_rx_handler_data :: "ndp option"
  nd_promiscuity :: int
  nd_registered :: bool
  nd_ifas :: "in_ifaddr list option"
  nd_ifa6s :: "inet6_ifaddr list option"

definition is_xeth_bridge :: "net_device \<Rightarrow> bool" where
  "is_xeth_bridge nd \<longleftrightarrow> nd_rtnl_link_ops nd = xeth_bridge_lnko"
definition is_xeth_lag :: "net_device \<Rightarrow> bool" where
  "is_xeth_lag nd \<longleftrightarrow> nd_rtnl_link_ops nd = xeth_lag_lnko"
definition is_xeth_lb :: "net_device \<Rightarrow> bool" where
  "is_xeth_lb nd \<longleftrightarrow> nd_rtnl_link_ops nd = xeth_lb_lnko"
definition is_xeth_mux :: "net_device \<Rightarrow> bool" where
  "is_xeth_mux nd \<longleftrightarrow> nd_netdev_ops nd = xeth_mux_ndo"
definition is_xeth_port :: "net_device \<Rightarrow> bool" where
  "is_xeth_port nd \<longleftrightarrow> nd_netdev_ops nd = xeth_port_ndo"
definition is_xeth_vlan :: "net_device \<Rightarrow> bool" where
  "is_xeth_vlan nd \<longleftrightarrow> nd_rtnl_link_ops nd = xeth_vlan_lnko"

section \<open>Private data of the devices\<close>

record xeth_proxy =
  px_nd :: ndp
  px_mux :: "ndp option"
  px_link_stats :: link_stats
  px_kind :: xeth_dev_kind
  px_xid :: u32

text \<open>A link mode bitmap is the set of the bit numbers that are set.\<close>

record ethtool_link_ksettings =
  ks_speed :: u32
  ks_duplex :: u8
  ks_port :: u8
  ks_phy_address :: u8
  ks_autoneg :: u8
  ks_mdio_support :: u8
  ks_eth_tp_mdix :: u8
  ks_eth_tp_mdix_ctrl :: u8
  ks_supported :: "nat set"
  ks_advertising :: "nat set"

definition xeth_mux_max_flags :: nat where "xeth_mux_max_flags = 8"
definition xeth_mux_max_stats :: nat where "xeth_mux_max_stats = 512"

record xeth_port_ext =
  ext_qsfp :: "nat option"
  ext_priv_flags :: u32
  ext_stats :: "u64 list"

text \<open>
  The flexible array member \<^verbatim>\<open>ext[]\<close> has one element or none, as allocated: an access to \<^verbatim>\<open>ext[0]\<close>
  when it is \<open>None\<close> is outside of the allocation.
\<close>

record xeth_port_priv =
  pp_port :: int
  pp_subport :: int
  pp_ksettings :: ethtool_link_ksettings
  pp_ext :: "xeth_port_ext option"

record xeth_sbtxb =
  sb_len :: nat
  sb_sz :: nat
  sb_data :: "u8 list"

text \<open>The size of \<^verbatim>\<open>struct xeth_sbtxb\<close> (two pointers and two \<^verbatim>\<open>size_t\<close>) rounded up to 32 bytes.\<close>

definition align_up :: "nat \<Rightarrow> nat \<Rightarrow> nat" where
  "align_up x a = ((x + a - 1) div a) * a"

definition xeth_sbtxb_size :: nat where "xeth_sbtxb_size = align_up 32 32"

definition xeth_sbtxb_zero :: "xeth_sbtxb \<Rightarrow> xeth_sbtxb" where
  "xeth_sbtxb_zero b = b\<lparr>sb_data := replicate (sb_len b) 0 @ drop (sb_len b) (sb_data b)\<rparr>"

text \<open>\<^verbatim>\<open>struct xeth_nb\<close>: whether a notifier block's call is set, and the nets with a fib notifier.\<close>

record xeth_nb =
  nb_fibs :: "netp list"
  nb_inetaddr :: bool
  nb_inet6addr :: bool
  nb_netdevice :: bool
  nb_netevent :: bool

definition xeth_mux_proxy_hash_bkts :: nat where "xeth_mux_proxy_hash_bkts = 16"
definition xeth_mux_link_hash_bkts :: nat where "xeth_mux_link_hash_bkts = 16"
definition xeth_mux_max_links :: nat where "xeth_mux_max_links = 8"
definition xeth_mux_max_qsfp_i2c_addrs :: nat where "xeth_mux_max_qsfp_i2c_addrs = 3"

record xeth_mux_priv =
  mx_nd :: ndp
  mx_nb :: xeth_nb
  mx_link :: "ndp option list"
  mx_hls :: "ndp list list"
  mx_ports :: "ndp list"
  mx_vlans :: "ndp list"
  mx_bridges :: "ndp list"
  mx_lags :: "ndp list"
  mx_lbs :: "ndp list"
  mx_counters :: counters
  mx_link_stats :: link_stats
  mx_flags :: u64
  mx_sb_free :: "xeth_sbtxb list"
  mx_sb_tx :: "xeth_sbtxb list"
  mx_sb_rx :: "u8 list"
  mx_priv_flag_names :: "u8 list list"
  mx_stat_names :: "u8 list list"
  mx_stat_named :: nat
  mx_encap :: xeth_encap
  mx_base_port :: u8
  mx_n_ports :: u16
  mx_absent_gpios :: "nat list option"
  mx_intr_gpios :: "nat list option"
  mx_lpmode_gpios :: "nat list option"
  mx_reset_gpios :: "nat list option"
  mx_stat_name_sysfs :: bool
  mx_qsfp_i2c_addrs :: "u16 list"

section \<open>Socket buffers and the log of kernel calls\<close>

text \<open>
  A linear \<^verbatim>\<open>struct sk_buff\<close>: the buffer from its head, the offsets of the data and of the MAC
  header, and the receive meta data. A \<^verbatim>\<open>__be16\<close> is kept as the number it stands for.
\<close>

record skb =
  skb_buf :: "u8 list"
  skb_data :: nat
  skb_mac :: nat
  skb_vlan_proto :: u16
  skb_vlan_tci :: u16
  skb_protocol :: u16
  skb_priority :: u32
  skb_dev :: ndp

datatype notifier = Nb_inetaddr | Nb_inet6addr | Nb_netdevice | Nb_netevent

datatype kevent =
  Ev_queue_xmit ndp skb
| Ev_forward ndp skb
| Ev_kfree skb
| Ev_fib_register netp
| Ev_fib_unregister netp
| Ev_nb_register notifier
| Ev_nb_unregister notifier
| Ev_dev_open ndp
| Ev_dev_close ndp
| Ev_dev_put ndp
| Ev_dev_hold ndp
| Ev_set_promiscuity ndp int
| Ev_change_mtu ndp u32
| Ev_rx_handler_register ndp ndp
| Ev_rx_handler_unregister ndp
| Ev_upper_link ndp ndp
| Ev_upper_unlink ndp ndp
| Ev_update_features ndp
| Ev_register_netdevice ndp
| Ev_unregister_netdevice ndp
| Ev_unregister_queue ndp
| Ev_kthread_run ndp
| Ev_kthread_stop ndp
| Ev_sendmsg "u8 list"
| Ev_recvmsg
| Ev_accept
| Ev_sock_release
| Ev_sleep nat
| Ev_gpio_set nat nat
| Ev_gpio_put "nat list"
| Ev_remove_file ndp
| Ev_i2c_unregister nat
| Ev_free_netdev ndp
| Ev_platform_unregister int

record world =
  w_nd :: "ndp \<Rightarrow> net_device"
  w_proxy :: "ndp \<Rightarrow> xeth_proxy"
  w_port :: "ndp \<Rightarrow> xeth_port_priv"
  w_vlan_link :: "ndp \<Rightarrow> ndp option"
  w_lb_chan :: "ndp \<Rightarrow> u8"
  w_mux :: "ndp \<Rightarrow> xeth_mux_priv"
  w_nets :: "netp list"
  w_inum :: "netp \<Rightarrow> u64"
  w_trace :: "kevent list"

abbreviation upd_nd :: "ndp \<Rightarrow> (net_device \<Rightarrow> net_device) \<Rightarrow> world \<Rightarrow> world" where
  "upd_nd n f w \<equiv> w\<lparr>w_nd := (w_nd w)(n := f (w_nd w n))\<rparr>"
abbreviation upd_proxy :: "ndp \<Rightarrow> (xeth_proxy \<Rightarrow> xeth_proxy) \<Rightarrow> world \<Rightarrow> world" where
  "upd_proxy n f w \<equiv> w\<lparr>w_proxy := (w_proxy w)(n := f (w_proxy w n))\<rparr>"
abbreviation upd_port :: "ndp \<Rightarrow> (xeth_port_priv \<Rightarrow> xeth_port_priv) \<Rightarrow> world \<Rightarrow> world" where
  "upd_port n f w \<equiv> w\<lparr>w_port := (w_port w)(n := f (w_port w n))\<rparr>"
abbreviation upd_mux :: "ndp \<Rightarrow> (xeth_mux_priv \<Rightarrow> xeth_mux_priv) \<Rightarrow> world \<Rightarrow> world" where
  "upd_mux n f w \<equiv> w\<lparr>w_mux := (w_mux w)(n := f (w_mux w n))\<rparr>"
abbreviation upd_counters :: "(counters \<Rightarrow> counters) \<Rightarrow> xeth_mux_priv \<Rightarrow> xeth_mux_priv" where
  "upd_counters f p \<equiv> p\<lparr>mx_counters := f (mx_counters p)\<rparr>"
abbreviation upd_stats :: "(link_stats \<Rightarrow> link_stats) \<Rightarrow> xeth_mux_priv \<Rightarrow> xeth_mux_priv" where
  "upd_stats f p \<equiv> p\<lparr>mx_link_stats := f (mx_link_stats p)\<rparr>"
abbreviation log_event :: "kevent \<Rightarrow> world \<Rightarrow> world" where
  "log_event e w \<equiv> w\<lparr>w_trace := w_trace w @ [e]\<rparr>"

definition init_net :: netp where "init_net = 0"

text \<open>
  The kernel services as parameters. \<open>k_kzalloc p sz\<close> says whether an allocation of \<open>sz\<close> bytes
  succeeds in mux state \<open>p\<close>; \<open>k_register_netdevice\<close> gives the error and, when it is not zero, whether the
  kernel had initialised the device before it failed, in which case it has called \<^verbatim>\<open>ndo_uninit\<close>; the other answers are functions of the log of calls made so far.

  Of the I2C core: adapters by bus number, whether an adapter can read bytes, the answer to the read of
  byte zero at an address (an error or the byte), the client made for an address (\<open>None\<close> for an error
  pointer), whether the adapter of a client has \<^verbatim>\<open>master_xfer\<close>, the answer to the n-th read of a byte of a
  client at a command, and the result of a combined transfer with the bytes that it left in the buffer.
\<close>

record i2c =
  i2c_get_adapter :: "int \<Rightarrow> nat option"
  i2c_check_functionality :: "nat \<Rightarrow> bool"
  i2c_smbus_xfer :: "nat \<Rightarrow> u16 \<Rightarrow> int \<times> u8"
  i2c_new_client_device :: "nat \<Rightarrow> u16 \<Rightarrow> nat option"
  i2c_master_xfer :: "nat \<Rightarrow> bool"
  i2c_smbus_read_byte_data :: "nat \<Rightarrow> nat \<Rightarrow> u8 \<Rightarrow> int"
  i2c_transfer :: "nat \<Rightarrow> u8 \<Rightarrow> nat \<Rightarrow> int \<times> u8 list"

record kapi =
  k_hash_min :: "u32 \<Rightarrow> nat"
  k_kzalloc :: "xeth_mux_priv \<Rightarrow> nat \<Rightarrow> bool"
  k_vlan_insert_tag_set_proto :: "skb \<Rightarrow> u16 \<Rightarrow> u16 \<Rightarrow> skb option"
  k_vlan_get_tag :: "skb \<Rightarrow> u16 option"
  k_eth_type_trans :: "skb \<Rightarrow> ndp \<Rightarrow> skb"
  k_dev_queue_xmit :: "kevent list \<Rightarrow> ndp \<Rightarrow> skb \<Rightarrow> int"
  k_dev_forward_skb :: "kevent list \<Rightarrow> ndp \<Rightarrow> skb \<Rightarrow> bool"
  k_len_after_forward :: "kevent list \<Rightarrow> ndp \<Rightarrow> skb \<Rightarrow> u64"
  k_register_fib_notifier :: "kevent list \<Rightarrow> netp \<Rightarrow> int"
  k_register_notifier :: "kevent list \<Rightarrow> notifier \<Rightarrow> int"
  k_link_mode_nbits :: nat
  k_dev_set_promiscuity :: "kevent list \<Rightarrow> ndp \<Rightarrow> int"
  k_has_change_mtu :: "ndp \<Rightarrow> bool"
  k_change_mtu :: "kevent list \<Rightarrow> ndp \<Rightarrow> int"
  k_loopback_dev :: "netp \<Rightarrow> ndp"
  k_rx_handler_register :: "kevent list \<Rightarrow> ndp \<Rightarrow> int"
  k_master_upper_dev_link :: "kevent list \<Rightarrow> ndp \<Rightarrow> ndp \<Rightarrow> int"
  k_dev_open :: "kevent list \<Rightarrow> ndp \<Rightarrow> int"
  k_dev_get_by_index :: "netp \<Rightarrow> u32 \<Rightarrow> ndp option"
  k_register_netdevice :: "kevent list \<Rightarrow> ndp \<Rightarrow> int \<times> bool"
  k_kstrtoull :: "string \<Rightarrow> int \<times> u64"
  k_gpio_get :: "kevent list \<Rightarrow> nat \<Rightarrow> bool"
  k_i2c :: "kevent list \<Rightarrow> i2c"
  k_random_addr :: "kevent list \<Rightarrow> u8 list"
  k_kthread_run :: "kevent list \<Rightarrow> int"
  k_sendmsg :: "kevent list \<Rightarrow> u8 list \<Rightarrow> int"
  k_recvmsg :: "kevent list \<Rightarrow> int \<times> u8 list"
  k_accept :: "kevent list \<Rightarrow> int \<times> bool"
  k_should_stop :: "kevent list \<Rightarrow> bool"
  k_sock_create :: "kevent list \<Rightarrow> int"
  k_bind :: "kevent list \<Rightarrow> int"
  k_listen :: "kevent list \<Rightarrow> int"
  k_NETIF_F_HW_L2FW_DOFFLOAD :: u64
  k_NETIF_F_VLAN_CHALLENGED :: u64
  k_NETIF_F_SOFT_FEATURES :: u64
  k_NETIF_F_NETNS_LOCAL :: u64

section \<open>Netlink attributes\<close>

text \<open>
  The attribute tables of a link creation request: \<open>None\<close> for a NULL table, and for each attribute
  whether it is present and its value.
\<close>

record nl_tb =
  IFLA_LINK :: "u32 option"
  IFLA_ADDRESS :: "u8 list option"
  IFLA_IFNAME :: "string option"

record nl_data =
  XETH_MUX_IFLA_ENCAP :: "u8 option"
  XETH_PORT_IFLA_XID :: "u16 option"
  XETH_VLAN_IFLA_VID :: "u16 option"
  XETH_LB_IFLA_CHANNEL :: "u16 option"

end
