(* ===== verification/Xeth_Sample.thy ===== *)
theory Xeth_Sample
  imports Xeth_State
begin

text \<open>
  A concrete kernel and a concrete configuration of the driver, at which the theorems of the
  development are instantiated: a mux (device 1) over two lower links (8 and 9), with two ports
  (2 and 3), a vlan (4) on the first port, a bridge (5) and a lag (6); device 7 is a second vlan on the first port
  that has not been added to the table.
\<close>

definition sample_i2c :: i2c where
  "sample_i2c = \<lparr>
     i2c_get_adapter = (\<lambda>nr. Some (nat nr)), i2c_check_functionality = (\<lambda>a. True),
     i2c_smbus_xfer = (\<lambda>a addr. if addr = 0x51 then (0, 0x11) else (-5, 0)),
     i2c_new_client_device = (\<lambda>a addr. Some (100 + unat addr)), i2c_master_xfer = (\<lambda>c. False),
     i2c_smbus_read_byte_data = (\<lambda>c i cmd. uint cmd),
     i2c_transfer = (\<lambda>c o8 n. (2, replicate n 0))\<rparr>"

definition sample_kapi :: kapi where
  "sample_kapi = \<lparr>
     k_hash_min = (\<lambda>x. unat x mod 16),
     k_kzalloc = (\<lambda>p sz. True),
     k_vlan_insert_tag_set_proto = (\<lambda>s proto tci. Some (s\<lparr>
        skb_buf := take (skb_data s + 12) (skb_buf s) @ rev (le16 proto) @ rev (le16 tci)
                     @ drop (skb_data s + 12) (skb_buf s),
        skb_protocol := proto\<rparr>)),
     k_vlan_get_tag = (\<lambda>s. Some (le_word (rev (get_bytes (skb_data s + 14) 2 (skb_buf s))))),
     k_eth_type_trans = (\<lambda>s d. s\<lparr>skb_dev := d, skb_mac := skb_data s, skb_data := skb_data s + ETH_HLEN\<rparr>),
     k_dev_queue_xmit = (\<lambda>tr d s. 0),
     k_dev_forward_skb = (\<lambda>tr d s. True),
     k_len_after_forward = (\<lambda>tr d s. of_nat (length (skb_buf s) - skb_data s)),
     k_register_fib_notifier = (\<lambda>tr n. 0),
     k_register_notifier = (\<lambda>tr n. 0),
     k_link_mode_nbits = 92,
     k_dev_set_promiscuity = (\<lambda>tr d. 0),
     k_has_change_mtu = (\<lambda>d. True),
     k_change_mtu = (\<lambda>tr d. 0),
     k_loopback_dev = (\<lambda>n. 0),
     k_rx_handler_register = (\<lambda>tr d. 0),
     k_master_upper_dev_link = (\<lambda>tr l u. 0),
     k_dev_open = (\<lambda>tr d. 0),
     k_dev_get_by_index = (\<lambda>n i. Some (unat i)),
     k_register_netdevice = (\<lambda>tr d. (0, True)),
     k_kstrtoull = (\<lambda>s. if s = ''5'' then (0, 5) else (-22, 0)),
     k_gpio_get = (\<lambda>tr g. False),
     k_i2c = (\<lambda>tr. sample_i2c),
     k_random_addr = (\<lambda>tr. [2, 0, 0, 0, 0, 1]),
     k_kthread_run = (\<lambda>tr. 0),
     k_sendmsg = (\<lambda>tr bs. int (length bs)),
     k_recvmsg = (\<lambda>tr. (- EAGAIN, [])),
     k_accept = (\<lambda>tr. (0, True)),
     k_should_stop = (\<lambda>tr. length tr \<ge> 40),
     k_sock_create = (\<lambda>tr. 0), k_bind = (\<lambda>tr. 0), k_listen = (\<lambda>tr. 0),
     k_NETIF_F_HW_L2FW_DOFFLOAD = 2 ^ 44, k_NETIF_F_VLAN_CHALLENGED = 2 ^ 10,
     k_NETIF_F_SOFT_FEATURES = 2 ^ 14 + 2 ^ 15, k_NETIF_F_NETNS_LOCAL = 2 ^ 13\<rparr>"

definition sample_nd :: net_device where
  "sample_nd = \<lparr>nd_name = ''eth'', nd_ifindex = 0, nd_flags = 1, nd_priv_flags = 0,
     nd_features = 0, nd_hw_features = 0, nd_mtu = 1500, nd_min_mtu = 68, nd_max_mtu = 9728,
     nd_dev_addr = [2, 0, 0, 0, 0, 0], nd_carrier = True, nd_netdev_ops = other_ndo,
     nd_rtnl_link_ops = other_lnko, nd_net = 0, nd_master = None, nd_lowers = [],
     nd_rx_handler_data = None, nd_promiscuity = 0, nd_registered = True,
     nd_ifas = None, nd_ifa6s = None\<rparr>"

definition sample_nds :: "ndp \<Rightarrow> net_device" where
  "sample_nds n = sample_nd
     \<lparr>nd_ifindex := of_nat (n + 10),
      nd_netdev_ops := (if n = 1 then xeth_mux_ndo else if n \<in> {2, 3} then xeth_port_ndo
        else if n \<in> {4, 7} then xeth_vlan_ndo else if n = 5 then xeth_bridge_ndo
        else if n = 6 then xeth_lag_ndo else other_ndo),
      nd_rtnl_link_ops := (if n = 1 then xeth_mux_lnko else if n \<in> {2, 3} then xeth_port_lnko
        else if n \<in> {4, 7} then xeth_vlan_lnko else if n = 5 then xeth_bridge_lnko
        else if n = 6 then xeth_lag_lnko else other_lnko),
      nd_lowers := (if n = 1 then [8, 9] else []),
      nd_master := (if n \<in> {8, 9} then Some 1 else None),
      nd_rx_handler_data := (if n \<in> {8, 9} then Some 1 else None),
      nd_ifas := (if n = 2 then Some [\<lparr>in_ifa_address = [10, 0, 0, 1], in_ifa_mask = [255, 255, 255, 0]\<rparr>]
        else None)\<rparr>"

definition sample_proxies :: "ndp \<Rightarrow> xeth_proxy" where
  "sample_proxies n = \<lparr>px_nd = n, px_mux = Some 1, px_link_stats = replicate 24 0,
     px_kind = (if n \<in> {2, 3} then XETH_DEV_KIND_PORT else if n = 4 then XETH_DEV_KIND_VLAN
       else if n = 5 then XETH_DEV_KIND_BRIDGE else if n = 6 then XETH_DEV_KIND_LAG
       else if n = 7 then XETH_DEV_KIND_VLAN else XETH_DEV_KIND_UNSPEC),
     px_xid = (if n = 2 then 3000 else if n = 3 then 3001 else if n = 4 then 23480
       else if n = 5 then 3002 else if n = 6 then 3003 else if n = 7 then 27576 else 0)\<rparr>"

definition sample_ksettings :: ethtool_link_ksettings where
  "sample_ksettings = \<lparr>ks_speed = 100000, ks_duplex = 1, ks_port = 5, ks_phy_address = 0,
     ks_autoneg = 0, ks_mdio_support = 0, ks_eth_tp_mdix = 0, ks_eth_tp_mdix_ctrl = 0,
     ks_supported = {0, 6}, ks_advertising = {6}\<rparr>"

definition sample_port :: xeth_port_priv where
  "sample_port = \<lparr>pp_port = 0, pp_subport = 0, pp_ksettings = sample_ksettings,
     pp_ext = Some \<lparr>ext_qsfp = None, ext_priv_flags = 5, ext_stats = replicate 512 0\<rparr>\<rparr>"

definition sample_mux :: xeth_mux_priv where
  "sample_mux = \<lparr>mx_nd = 1,
     mx_nb = \<lparr>nb_fibs = [], nb_inetaddr = False, nb_inet6addr = False, nb_netdevice = False,
              nb_netevent = False\<rparr>,
     mx_link = map (\<lambda>i. Some (if even i then 8 else 9)) [0..<16],
     mx_hls = [[], [], [], [], [], [], [], [], [4, 2], [3], [5], [6], [], [], [], []],
     mx_ports = [3, 2], mx_vlans = [4], mx_bridges = [5], mx_lags = [6], mx_lbs = [],
     mx_counters = replicate 16 0, mx_link_stats = replicate 24 0,
     mx_flags = xeth_mux_set_flag main_task (xeth_mux_set_flag sb_listen (xeth_mux_set_flag sb_connection 0)), mx_sb_free = [], mx_sb_tx = [], mx_sb_rx = replicate 9728 0,
     mx_priv_flag_names = [], mx_stat_names = [], mx_stat_named = 0,
     mx_encap = XETH_ENCAP_VLAN, mx_base_port = 1, mx_n_ports = 32, mx_absent_gpios = None, mx_intr_gpios = None,
     mx_lpmode_gpios = None, mx_reset_gpios = None, mx_stat_name_sysfs = False,
     mx_qsfp_i2c_addrs = [0x50, 0x51, 0xfffe]\<rparr>"

definition sample_world :: world where
  "sample_world = \<lparr>w_nd = sample_nds, w_proxy = sample_proxies, w_port = (\<lambda>_. sample_port),
     w_vlan_link = (\<lambda>n. if n \<in> {4, 7} then Some 2 else None), w_lb_chan = (\<lambda>_. 0),
     w_mux = (\<lambda>_. sample_mux), w_nets = [0, 1], w_inum = (\<lambda>n. 4026531840 + of_nat n), w_trace = []\<rparr>"

text \<open>A frame from one of the proxies: two addresses, an IPv4 ether type and a payload.\<close>

definition sample_skb :: skb where
  "sample_skb = \<lparr>skb_buf = replicate 8 0 @ [1, 2, 3, 4, 5, 6, 2, 0, 0, 0, 0, 1, 8, 0, 69, 0, 0, 20],
     skb_data = 8, skb_mac = 8, skb_vlan_proto = 0, skb_vlan_tci = 0, skb_protocol = 0x0800,
     skb_priority = 0, skb_dev = 2\<rparr>"

lemmas sample_defs = sample_kapi_def sample_nd_def sample_nds_def sample_proxies_def
  sample_port_def sample_skb_def sample_mux_def sample_world_def

end
