(* ===== verification/Xeth_Sbq.thy ===== *)
theory Xeth_Sbq
  imports Xeth_Sample
begin

text \<open>
  The side band transmit buffers of a mux (\<^verbatim>\<open>dkms/xeth_mux.c\<close>): the free pool, the transmit queue
  and the gauges that count them. A buffer is allocated from the pool when one is large enough,
  filled by \<^verbatim>\<open>xeth_sbtx.c\<close>, appended to the queue while a daemon is connected, popped by the
  service loop, and returned to the pool after transmission; on disconnect the queue is drained
  into the pool. Each critical section under \<^verbatim>\<open>priv->sb.mutex\<close> is one atomic step.
\<close>

section \<open>Operations\<close>

text \<open>The loop over the free list: unlink the first buffer with room for \<open>len\<close> bytes.\<close>

fun first_fit :: "nat \<Rightarrow> xeth_sbtxb list \<Rightarrow> (xeth_sbtxb \<times> xeth_sbtxb list) option" where
  "first_fit len [] = None"
| "first_fit len (b # bs) =
     (if sb_sz b \<ge> len then Some (b, bs)
      else map_option (\<lambda>(c, cs). (c, b # cs)) (first_fit len bs))"

text \<open>
  A failed \<^verbatim>\<open>devm_kzalloc\<close> is not tested before the assignment to \<^verbatim>\<open>sbtxb->len\<close>.
\<close>

definition xeth_mux_alloc_sbtxb ::
    "(xeth_mux_priv \<Rightarrow> nat \<Rightarrow> bool) \<Rightarrow> nat \<Rightarrow> xeth_mux_priv \<Rightarrow>
     (xeth_sbtxb option \<times> xeth_mux_priv) outcome" where
  "xeth_mux_alloc_sbtxb kzalloc len p =
     (case first_fit len (mx_sb_free p) of
        Some (b, rest) \<Rightarrow>
          Inr (Some (xeth_sbtxb_zero (b\<lparr>sb_len := len\<rparr>)),
               upd_counters (xeth_mux_dec sbtx_free) (p\<lparr>mx_sb_free := rest\<rparr>))
      | None \<Rightarrow>
          (let sz = align_up (xeth_sbtxb_size + len) 1024
           in if kzalloc p sz
              then Inr (Some \<lparr>sb_len = len, sb_sz = sz - xeth_sbtxb_size,
                              sb_data = replicate (sz - xeth_sbtxb_size) 0\<rparr>, p)
              else Inl Null_deref))"

definition xeth_mux_append_sbtxb :: "xeth_sbtxb \<Rightarrow> xeth_mux_priv \<Rightarrow> xeth_mux_priv" where
  "xeth_mux_append_sbtxb b p =
     upd_counters (xeth_mux_inc sbtx_queued) (p\<lparr>mx_sb_tx := mx_sb_tx p @ [b]\<rparr>)"

definition xeth_mux_prepend_sbtxb :: "xeth_sbtxb \<Rightarrow> xeth_mux_priv \<Rightarrow> xeth_mux_priv" where
  "xeth_mux_prepend_sbtxb b p =
     upd_counters (xeth_mux_inc sbtx_queued) (p\<lparr>mx_sb_tx := b # mx_sb_tx p\<rparr>)"

definition xeth_mux_pop_sbtxb :: "xeth_mux_priv \<Rightarrow> xeth_sbtxb option \<times> xeth_mux_priv" where
  "xeth_mux_pop_sbtxb p =
     (case mx_sb_tx p of
        [] \<Rightarrow> (None, p)
      | b # bs \<Rightarrow> (Some b, upd_counters (xeth_mux_dec sbtx_queued) (p\<lparr>mx_sb_tx := bs\<rparr>)))"

definition xeth_mux_free_sbtxb :: "xeth_sbtxb \<Rightarrow> xeth_mux_priv \<Rightarrow> xeth_mux_priv" where
  "xeth_mux_free_sbtxb b p =
     upd_counters (xeth_mux_inc sbtx_free) (p\<lparr>mx_sb_free := mx_sb_free p @ [b]\<rparr>)"

definition xeth_mux_queue_sbtx :: "xeth_sbtxb \<Rightarrow> xeth_mux_priv \<Rightarrow> xeth_mux_priv" where
  "xeth_mux_queue_sbtx b p =
     (if xeth_mux_has sb_connection (mx_flags p) then xeth_mux_append_sbtxb b p
      else xeth_mux_free_sbtxb b p)"

text \<open>The loop at the end of \<^verbatim>\<open>xeth_mux_service_sb\<close> that moves the queue into the pool.\<close>

fun drain_loop :: "xeth_sbtxb list \<Rightarrow> xeth_mux_priv \<Rightarrow> xeth_mux_priv" where
  "drain_loop [] p = p"
| "drain_loop (b # bs) p = drain_loop bs
     (upd_counters (xeth_mux_inc sbtx_free)
       ((upd_counters (xeth_mux_dec sbtx_queued) (p\<lparr>mx_sb_tx := remove1 b (mx_sb_tx p)\<rparr>))
          \<lparr>mx_sb_free := mx_sb_free p @ [b]\<rparr>))"

definition xeth_mux_drain_sbtx :: "xeth_mux_priv \<Rightarrow> xeth_mux_priv" where
  "xeth_mux_drain_sbtx p = drain_loop (mx_sb_tx p) p"

lemmas sbq_defs = xeth_mux_append_sbtxb_def xeth_mux_prepend_sbtxb_def xeth_mux_pop_sbtxb_def
  xeth_mux_free_sbtxb_def xeth_mux_queue_sbtx_def

section \<open>Invariant\<close>

definition sbtxb_ok :: "xeth_sbtxb \<Rightarrow> bool" where
  "sbtxb_ok b \<longleftrightarrow> sb_len b \<le> sb_sz b \<and> length (sb_data b) = sb_sz b"

text \<open>
  Every buffer's length fits its room, and the gauges that \<^verbatim>\<open>ethtool -S\<close> shows are the lengths of the
  two lists.
\<close>

definition sb_inv :: "xeth_mux_priv \<Rightarrow> bool" where
  "sb_inv p \<longleftrightarrow> length (mx_counters p) = xeth_mux_n_counters
     \<and> xeth_mux_get sbtx_queued (mx_counters p) = of_nat (length (mx_sb_tx p))
     \<and> xeth_mux_get sbtx_free (mx_counters p) = of_nat (length (mx_sb_free p))
     \<and> list_all sbtxb_ok (mx_sb_tx p) \<and> list_all sbtxb_ok (mx_sb_free p)"

lemma align_up_ge: "0 < a \<Longrightarrow> x \<le> align_up x a"
proof -
  assume "0 < a"
  then have "x + a - 1 < a * ((x + a - 1) div a) + a"
    using mod_less_divisor[of a "x + a - 1"] mult_div_mod_eq[of a "x + a - 1"] by linarith
  then show ?thesis by (simp add: align_up_def algebra_simps)
qed

lemma first_fit_SomeD:
  "first_fit len bs = Some (b, rest) \<Longrightarrow>
     len \<le> sb_sz b \<and> (\<exists>xs ys. bs = xs @ b # ys \<and> rest = xs @ ys \<and> (\<forall>x\<in>set xs. sb_sz x < len))"
proof (induction bs arbitrary: rest)
  case (Cons c cs)
  show ?case
  proof (cases "sb_sz c \<ge> len")
    case True
    with Cons.prems have "b = c" "rest = cs" by auto
    with True show ?thesis by (intro conjI exI[of _ "[]"] exI[of _ cs]) auto
  next
    case False
    with Cons.prems obtain r where r: "first_fit len cs = Some (b, r)" "rest = c # r"
      by auto
    from Cons.IH[OF r(1)] obtain xs ys where
      "len \<le> sb_sz b" "cs = xs @ b # ys" "r = xs @ ys" "\<forall>x\<in>set xs. sb_sz x < len" by auto
    with False r(2) show ?thesis by (intro conjI exI[of _ "c # xs"] exI[of _ ys]) auto
  qed
qed simp

lemma first_fit_None_iff: "first_fit len bs = None \<longleftrightarrow> (\<forall>b\<in>set bs. sb_sz b < len)"
  by (induction bs) (auto simp: not_le)

lemma sbtxb_zero_ok: "sbtxb_ok b \<Longrightarrow> len \<le> sb_sz b \<Longrightarrow> sbtxb_ok (xeth_sbtxb_zero (b\<lparr>sb_len := len\<rparr>))"
  by (simp add: sbtxb_ok_def xeth_sbtxb_zero_def)

text \<open>Where an allocation returns, the buffer is well-formed, has the length asked for and is zeroed.\<close>

lemma alloc_sbtxb_spec:
  assumes "sb_inv p" and "xeth_mux_alloc_sbtxb kzalloc len p = Inr (r, p')"
  shows "\<exists>b. r = Some b \<and> sbtxb_ok b \<and> sb_len b = len \<and> take len (sb_data b) = replicate len 0
    \<and> sb_inv p' \<and> mx_sb_tx p' = mx_sb_tx p \<and> mx_flags p' = mx_flags p"
proof (cases "first_fit len (mx_sb_free p)")
  case None
  let ?sz = "align_up (xeth_sbtxb_size + len) 1024"
  have "xeth_sbtxb_size + len \<le> ?sz" by (rule align_up_ge) simp
  with None assms show ?thesis
    by (auto simp: xeth_mux_alloc_sbtxb_def Let_def sbtxb_ok_def split: if_splits)
next
  case (Some bl)
  obtain b rest where bl: "bl = (b, rest)" by (cases bl)
  from first_fit_SomeD[OF Some[unfolded bl]] obtain xs ys where
    "len \<le> sb_sz b" "mx_sb_free p = xs @ b # ys" "rest = xs @ ys" by blast
  with Some bl assms show ?thesis
    by (auto simp: xeth_mux_alloc_sbtxb_def sb_inv_def xeth_mux_get_dec sbtxb_zero_ok)
      (auto simp: xeth_sbtxb_zero_def)
qed

lemma append_sb_inv: "sb_inv p \<Longrightarrow> sbtxb_ok b \<Longrightarrow> sb_inv (xeth_mux_append_sbtxb b p)"
  by (simp add: sb_inv_def xeth_mux_append_sbtxb_def mc.get_inc)

lemma prepend_sb_inv: "sb_inv p \<Longrightarrow> sbtxb_ok b \<Longrightarrow> sb_inv (xeth_mux_prepend_sbtxb b p)"
  by (simp add: sb_inv_def xeth_mux_prepend_sbtxb_def mc.get_inc)

lemma free_sb_inv: "sb_inv p \<Longrightarrow> sbtxb_ok b \<Longrightarrow> sb_inv (xeth_mux_free_sbtxb b p)"
  by (simp add: sb_inv_def xeth_mux_free_sbtxb_def mc.get_inc)

lemma queue_sb_inv: "sb_inv p \<Longrightarrow> sbtxb_ok b \<Longrightarrow> sb_inv (xeth_mux_queue_sbtx b p)"
  by (simp add: xeth_mux_queue_sbtx_def append_sb_inv free_sb_inv)

lemma pop_sb_inv: "sb_inv p \<Longrightarrow> sb_inv (snd (xeth_mux_pop_sbtxb p))"
  by (auto simp: sb_inv_def xeth_mux_pop_sbtxb_def xeth_mux_get_dec split: list.split)

lemma pop_sbtxb_ok: "sb_inv p \<Longrightarrow> xeth_mux_pop_sbtxb p = (Some b, p') \<Longrightarrow> sbtxb_ok b"
  by (auto simp: sb_inv_def xeth_mux_pop_sbtxb_def split: list.splits)

lemma drain_loop_spec:
  assumes "sb_inv p" and "mx_sb_tx p = bs"
  shows "sb_inv (drain_loop bs p) \<and> mx_sb_tx (drain_loop bs p) = []
    \<and> mx_sb_free (drain_loop bs p) = mx_sb_free p @ bs"
  using assms
proof (induction bs arbitrary: p)
  case (Cons b bs)
  let ?p = "upd_counters (xeth_mux_inc sbtx_free)
    ((upd_counters (xeth_mux_dec sbtx_queued) (p\<lparr>mx_sb_tx := remove1 b (mx_sb_tx p)\<rparr>))
      \<lparr>mx_sb_free := mx_sb_free p @ [b]\<rparr>)"
  have "sb_inv ?p" using Cons.prems by (simp add: sb_inv_def counter_gets)
  moreover have "mx_sb_tx ?p = bs" using Cons.prems by simp
  ultimately show ?case using Cons.IH[of ?p] by simp
qed simp

section \<open>The transmit queue as an interface\<close>

text \<open>
  What the service loop relies on: a first-in first-out queue in which a message that could not
  be sent goes back to the front.
\<close>

locale retry_queue =
  fixes enq :: "'b \<Rightarrow> 's \<Rightarrow> 's" and unget :: "'b \<Rightarrow> 's \<Rightarrow> 's"
    and deq :: "'s \<Rightarrow> 'b option \<times> 's" and items :: "'s \<Rightarrow> 'b list"
  assumes items_enq: "items (enq b s) = items s @ [b]"
    and items_unget: "items (unget b s) = b # items s"
    and deq_result: "fst (deq s) = (case items s of [] \<Rightarrow> None | b # _ \<Rightarrow> Some b)"
    and items_deq: "items (snd (deq s)) = tl (items s)"
begin

lemma items_fold_enq: "items (fold enq bs s) = items s @ bs"
  by (induction bs arbitrary: s) (simp_all add: items_enq)

lemma deq_None_iff: "fst (deq s) = None \<longleftrightarrow> items s = []"
  by (simp add: deq_result split: list.split)

lemma unget_deq: "deq s = (Some b, t) \<Longrightarrow> items (unget b t) = items s"
  using deq_result[of s] items_deq[of s] by (simp add: items_unget split: list.splits)

lemma deq_many: "n \<le> length (items s) \<Longrightarrow>
   map (\<lambda>k. fst (deq (((snd \<circ> deq) ^^ k) s))) [0..<n] = map Some (take n (items s))"
proof -
  have nth_items: "items (((snd \<circ> deq) ^^ k) s) = drop k (items s)" for k
    by (induction k) (simp_all add: items_deq drop_Suc tl_drop)
  assume "n \<le> length (items s)"
  then show ?thesis
    by (intro nth_equalityI) (auto simp: deq_result nth_items Cons_nth_drop_Suc[symmetric])
qed

end

interpretation txq: retry_queue xeth_mux_append_sbtxb xeth_mux_prepend_sbtxb xeth_mux_pop_sbtxb mx_sb_tx
  by unfold_locales (auto simp: sbq_defs split: list.splits)

section \<open>Interleavings of the buffer operations\<close>

text \<open>
  A buffer is in the pool, in the queue, or held by the caller that allocated or popped it. Any
  number of callers interleave; each critical section is one step, and the filling of a held buffer
  is a step too.
\<close>

inductive sb_step :: "(xeth_mux_priv \<Rightarrow> nat \<Rightarrow> bool) \<Rightarrow>
    xeth_sbtxb list \<times> xeth_mux_priv \<Rightarrow> xeth_sbtxb list \<times> xeth_mux_priv \<Rightarrow> bool"
  for kzalloc where
  sb_alloc: "xeth_mux_alloc_sbtxb kzalloc len p = Inr (Some b, p') \<Longrightarrow> sb_step kzalloc (h, p) (b # h, p')"
| sb_fill: "b \<in> set h \<Longrightarrow> length d = sb_sz b \<Longrightarrow>
    sb_step kzalloc (h, p) (b\<lparr>sb_data := d\<rparr> # remove1 b h, p)"
| sb_queue: "b \<in> set h \<Longrightarrow> sb_step kzalloc (h, p) (remove1 b h, xeth_mux_queue_sbtx b p)"
| sb_pop: "xeth_mux_pop_sbtxb p = (Some b, p') \<Longrightarrow> sb_step kzalloc (h, p) (b # h, p')"
| sb_retry: "b \<in> set h \<Longrightarrow> sb_step kzalloc (h, p) (remove1 b h, xeth_mux_prepend_sbtxb b p)"
| sb_sent: "b \<in> set h \<Longrightarrow> sb_step kzalloc (h, p) (remove1 b h, xeth_mux_free_sbtxb b p)"
| sb_drain: "sb_step kzalloc (h, p) (h, xeth_mux_drain_sbtx p)"
| sb_flags: "sb_step kzalloc (h, p) (h, p\<lparr>mx_flags := f\<rparr>)"

definition sb_total :: "xeth_sbtxb list \<times> xeth_mux_priv \<Rightarrow> nat" where
  "sb_total s = length (fst s) + length (mx_sb_tx (snd s)) + length (mx_sb_free (snd s))"

definition sb_good :: "xeth_sbtxb list \<times> xeth_mux_priv \<Rightarrow> bool" where
  "sb_good s \<longleftrightarrow> sb_inv (snd s) \<and> list_all sbtxb_ok (fst s)"

lemma list_all_remove1: "list_all P xs \<Longrightarrow> list_all P (remove1 x xs)"
  by (auto simp: list_all_iff dest: notin_set_remove1)

lemma sb_inv_flags [simp]: "sb_inv (p\<lparr>mx_flags := f\<rparr>) = sb_inv p"
  by (simp add: sb_inv_def)

lemma drain_sb_inv: "sb_inv p \<Longrightarrow> sb_inv (xeth_mux_drain_sbtx p)"
  using drain_loop_spec[of p] by (simp add: xeth_mux_drain_sbtx_def)

lemma sb_step_good: "sb_step kz s t \<Longrightarrow> sb_good s \<Longrightarrow> sb_good t"
proof (induction rule: sb_step.induct)
  case (sb_alloc len p b p' h)
  then show ?case using alloc_sbtxb_spec[of p kz len "Some b" p'] by (simp add: sb_good_def)
next
  case (sb_pop p b p' h)
  then show ?case
    using pop_sb_inv[of p] pop_sbtxb_ok[of p b p'] by (simp add: sb_good_def)
qed (auto simp: sb_good_def list_all_remove1 list_all_iff sbtxb_ok_def drain_sb_inv
    queue_sb_inv prepend_sb_inv free_sb_inv)

text \<open>No step loses a buffer; only a fresh allocation adds one.\<close>

lemma sb_step_total: "sb_step kz s t \<Longrightarrow> sb_good s \<Longrightarrow> sb_total s \<le> sb_total t \<and> sb_total t \<le> Suc (sb_total s)"
proof (induction rule: sb_step.induct)
  case (sb_alloc len p b p' h)
  then show ?case
    by (auto simp: sb_total_def xeth_mux_alloc_sbtxb_def Let_def split: option.splits if_splits
        dest!: first_fit_SomeD)
next
  case (sb_drain h p)
  then show ?case
    using drain_loop_spec[of p] by (simp add: sb_good_def sb_total_def xeth_mux_drain_sbtx_def)
qed (auto simp: sb_total_def sbq_defs length_remove1 Suc_pred length_pos_if_in_set
    split: list.splits)

section \<open>Properties\<close>

text \<open>
  C21: The transmit queue is first in, first out: after any sequence of messages was appended, as many
  pops as there are messages return the older messages and then the appended ones in order, and no
  message is lost or duplicated.
\<close>

theorem sbtx_fifo:
  "map (\<lambda>i. fst (xeth_mux_pop_sbtxb (((snd \<circ> xeth_mux_pop_sbtxb) ^^ i) (fold xeth_mux_append_sbtxb bs p))))
     [0..<length (mx_sb_tx p) + length bs] = map Some (mx_sb_tx p @ bs)"
  using txq.deq_many[of "length (mx_sb_tx p) + length bs" "fold xeth_mux_append_sbtxb bs p"]
  by (simp add: txq.items_fold_enq)


lemma sample_sb_inv: "sb_inv sample_mux"
  by (simp add: sb_inv_def sample_mux_def xeth_mux_get_def xeth_mux_n_counters_def)




end
