(* ===== verification/Xeth_Table.thy ===== *)
theory Xeth_Table
  imports Xeth_Sample
begin

text \<open>
  The proxy table of a mux (\<^verbatim>\<open>dkms/xeth_mux.c\<close>): a hash table from XID to proxy, and one list of kin
  per device kind, with the operations that add, delete and look up proxies and the loops over the
  kin lists that set carrier and statistics. A list of the kernel is a list of proxy pointers in
  traversal order; \<^verbatim>\<open>hlist_add_head_rcu\<close> and \<^verbatim>\<open>list_add_rcu\<close> put the new entry first.
\<close>

section \<open>Operations\<close>

definition xeth_mux_proxy_of_xid :: "kapi \<Rightarrow> ndp \<Rightarrow> world \<Rightarrow> u32 \<Rightarrow> ndp option" where
  "xeth_mux_proxy_of_xid k m w xid =
     find (\<lambda>q. px_xid (w_proxy w q) = xid) (mx_hls (w_mux w m) ! k_hash_min k xid)"

definition xeth_mux_proxy_of_nd :: "ndp \<Rightarrow> world \<Rightarrow> ndp \<Rightarrow> ndp option" where
  "xeth_mux_proxy_of_nd m w nd =
     find (\<lambda>q. px_nd (w_proxy w q) = nd)
       (concat (map (\<lambda>bkt. mx_hls (w_mux w m) ! bkt) [0..<xeth_mux_proxy_hash_bkts]))"

text \<open>The list that a proxy of a kind is linked in; there is none for the unspecified kind.\<close>

fun kin_list :: "xeth_dev_kind \<Rightarrow> xeth_mux_priv \<Rightarrow> ndp list" where
  "kin_list XETH_DEV_KIND_PORT p = mx_ports p"
| "kin_list XETH_DEV_KIND_VLAN p = mx_vlans p"
| "kin_list XETH_DEV_KIND_BRIDGE p = mx_bridges p"
| "kin_list XETH_DEV_KIND_LAG p = mx_lags p"
| "kin_list XETH_DEV_KIND_LB p = mx_lbs p"
| "kin_list XETH_DEV_KIND_UNSPEC p = []"

fun upd_kin :: "xeth_dev_kind \<Rightarrow> (ndp list \<Rightarrow> ndp list) \<Rightarrow> xeth_mux_priv \<Rightarrow> xeth_mux_priv" where
  "upd_kin XETH_DEV_KIND_PORT f p = p\<lparr>mx_ports := f (mx_ports p)\<rparr>"
| "upd_kin XETH_DEV_KIND_VLAN f p = p\<lparr>mx_vlans := f (mx_vlans p)\<rparr>"
| "upd_kin XETH_DEV_KIND_BRIDGE f p = p\<lparr>mx_bridges := f (mx_bridges p)\<rparr>"
| "upd_kin XETH_DEV_KIND_LAG f p = p\<lparr>mx_lags := f (mx_lags p)\<rparr>"
| "upd_kin XETH_DEV_KIND_LB f p = p\<lparr>mx_lbs := f (mx_lbs p)\<rparr>"
| "upd_kin XETH_DEV_KIND_UNSPEC f p = p"

definition xeth_mux_add_proxy :: "kapi \<Rightarrow> ndp \<Rightarrow> world \<Rightarrow> world outcome" where
  "xeth_mux_add_proxy k q w =
     (case px_mux (w_proxy w q) of
        None \<Rightarrow> Inl Null_deref
      | Some m \<Rightarrow>
          (let bkt = k_hash_min k (px_xid (w_proxy w q)); p = w_mux w m;
               p = p\<lparr>mx_hls := (mx_hls p)[bkt := q # mx_hls p ! bkt]\<rparr>
           in Inr (upd_mux m (\<lambda>_. upd_kin (px_kind (w_proxy w q)) (Cons q) p) w)))"

text \<open>
  \<^verbatim>\<open>hlist_del_rcu\<close> and \<^verbatim>\<open>list_del\<close> unlink an entry from the list it is on; on an entry that is on no
  list they go through a null or poisoned pointer.
\<close>

definition xeth_mux_del_proxy :: "ndp \<Rightarrow> world \<Rightarrow> world outcome" where
  "xeth_mux_del_proxy q w =
     (case px_mux (w_proxy w q) of
        None \<Rightarrow> Inl Null_deref
      | Some m \<Rightarrow>
          if q \<notin> set (concat (mx_hls (w_mux w m))) then Inl Null_deref
          else (let p = w_mux w m;
                    p = p\<lparr>mx_hls := map (remove1 q) (mx_hls p)\<rparr>
                in Inr (upd_mux m (\<lambda>_. upd_kin (px_kind (w_proxy w q)) (remove1 q) p) w)))"

definition xeth_proxy_reset_link_stats :: "ndp \<Rightarrow> world \<Rightarrow> world" where
  "xeth_proxy_reset_link_stats q w =
     upd_proxy q (\<lambda>px. px\<lparr>px_link_stats := xeth_link_stat_init (px_link_stats px)\<rparr>) w"

definition xeth_mux_reset_all_link_stats :: "ndp \<Rightarrow> world \<Rightarrow> world" where
  "xeth_mux_reset_all_link_stats m w =
     (let p = w_mux w m; w = upd_mux m (upd_stats xeth_link_stat_init) w;
          w = fold xeth_proxy_reset_link_stats (mx_ports p) w;
          w = fold xeth_proxy_reset_link_stats (mx_vlans p) w;
          w = fold xeth_proxy_reset_link_stats (mx_bridges p) w;
          w = fold xeth_proxy_reset_link_stats (mx_lags p) w
      in fold xeth_proxy_reset_link_stats (mx_lbs p) w)"

definition netif_carrier :: "bool \<Rightarrow> ndp \<Rightarrow> world \<Rightarrow> world" where
  "netif_carrier on n w = upd_nd n (\<lambda>d. d\<lparr>nd_carrier := on\<rparr>) w"

text \<open>
  The link of a vlan device. A loopback device is kept on the vlan list too (its setup gives it
  the vlan kind); there the word that is read as the link holds the channel number and no device
  address, so that the store \<open>w_vlan_link\<close> has no link for it.
\<close>

definition xeth_vlan_has_link :: "world \<Rightarrow> ndp \<Rightarrow> ndp \<Rightarrow> bool" where
  "xeth_vlan_has_link w nd link \<longleftrightarrow> w_vlan_link w nd = Some link"

definition xeth_mux_change_carrier :: "ndp \<Rightarrow> ndp \<Rightarrow> bool \<Rightarrow> world \<Rightarrow> world" where
  "xeth_mux_change_carrier m nd on w =
     fold (\<lambda>q w. if xeth_vlan_has_link w (px_nd (w_proxy w q)) nd
                 then netif_carrier on (px_nd (w_proxy w q)) w else w)
       (mx_vlans (w_mux w m)) (netif_carrier on nd w)"

definition xeth_mux_check_lower_carrier :: "ndp \<Rightarrow> world \<Rightarrow> world" where
  "xeth_mux_check_lower_carrier m w =
     (let carrier = fold (\<lambda>l c. if \<not> nd_carrier (w_nd w l) then False else c)
                      (nd_lowers (w_nd w m)) True
      in if carrier then (if \<not> nd_carrier (w_nd w m) then netif_carrier True m w else w)
         else if nd_carrier (w_nd w m) then netif_carrier False m w else w)"

definition xeth_mux_del_vlans :: "ndp \<Rightarrow> ndp \<Rightarrow> world \<Rightarrow> world" where
  "xeth_mux_del_vlans m nd w =
     fold (\<lambda>q w. if xeth_vlan_has_link w (px_nd (w_proxy w q)) nd
                 then log_event (Ev_unregister_queue (px_nd (w_proxy w q))) w else w)
       (mx_vlans (w_mux w m)) w"

definition xeth_mux_drop_all_port_carrier :: "ndp \<Rightarrow> world \<Rightarrow> world" where
  "xeth_mux_drop_all_port_carrier m w =
     fold (\<lambda>q w. netif_carrier False (px_nd (w_proxy w q)) w) (mx_ports (w_mux w m)) w"

section \<open>Invariant of the table\<close>

definition proxies :: "ndp \<Rightarrow> world \<Rightarrow> ndp list" where
  "proxies m w = concat (mx_hls (w_mux w m))"

text \<open>
  \<^verbatim>\<open>hash_min(val, bits)\<close> is documented to return a value below \<^verbatim>\<open>1 << bits\<close>.
\<close>

definition hash_ok :: "kapi \<Rightarrow> bool" where
  "hash_ok k \<longleftrightarrow> (\<forall>x. k_hash_min k x < xeth_mux_proxy_hash_bkts)"

definition kin_ok :: "ndp \<Rightarrow> world \<Rightarrow> xeth_dev_kind \<Rightarrow> bool" where
  "kin_ok m w kd \<longleftrightarrow> distinct (kin_list kd (w_mux w m)) \<and>
     set (kin_list kd (w_mux w m)) = {q \<in> set (proxies m w). px_kind (w_proxy w q) = kd}"

text \<open>
  Every proxy hangs in the bucket of its XID, belongs to this mux, occurs once in the hash table
  and once in the list of its kind, and the kin lists hold nothing else.
\<close>

definition table_inv :: "kapi \<Rightarrow> ndp \<Rightarrow> world \<Rightarrow> bool" where
  "table_inv k m w \<longleftrightarrow> hash_ok k \<and> length (mx_hls (w_mux w m)) = xeth_mux_proxy_hash_bkts
     \<and> (\<forall>b < xeth_mux_proxy_hash_bkts. \<forall>q \<in> set (mx_hls (w_mux w m) ! b).
           k_hash_min k (px_xid (w_proxy w q)) = b \<and> px_mux (w_proxy w q) = Some m
           \<and> px_kind (w_proxy w q) \<noteq> XETH_DEV_KIND_UNSPEC)
     \<and> distinct (proxies m w) \<and> (\<forall>kd. kd \<noteq> XETH_DEV_KIND_UNSPEC \<longrightarrow> kin_ok m w kd)"

lemma kin_list_upd_kin [simp]: "kin_list kd (upd_kin kd' f p) =
   (if kd = kd' \<and> kd \<noteq> XETH_DEV_KIND_UNSPEC then f (kin_list kd p) else kin_list kd p)"
  by (cases kd; cases kd') simp_all

lemma mx_hls_upd_kin [simp]: "mx_hls (upd_kin kd f p) = mx_hls p"
  by (cases kd) simp_all

lemma kin_list_hls [simp]: "kin_list kd (p\<lparr>mx_hls := h\<rparr>) = kin_list kd p"
  by (cases kd) simp_all

text \<open>A bucket list with the entry at \<open>b\<close> replaced, seen as one list.\<close>

lemma concat_split: "b < length xss \<Longrightarrow> concat xss = concat (take b xss) @ xss ! b @ concat (drop (Suc b) xss)"
  by (metis concat.simps(2) concat_append id_take_nth_drop)

lemma concat_update: "b < length xss \<Longrightarrow>
   concat (xss[b := ys]) = concat (take b xss) @ ys @ concat (drop (Suc b) xss)"
  by (simp add: upd_conv_take_nth_drop)

lemma concat_map_remove1:
  "distinct (concat xss) \<Longrightarrow> concat (map (remove1 q) xss) = remove1 q (concat xss)"
proof (induction xss)
  case (Cons xs xss)
  then have "q \<in> set xs \<Longrightarrow> q \<notin> set (concat xss)" by auto
  with Cons show ?case by (cases "q \<in> set xs") (simp_all add: remove1_append remove1_idem)
qed simp

lemma set_concat_nth: "q \<in> set (concat xss) \<longleftrightarrow> (\<exists>b < length xss. q \<in> set (xss ! b))"
  by (auto simp: set_conv_nth[of xss])

lemma find_SomeD: "find P xs = Some x \<Longrightarrow> P x \<and> x \<in> set xs"
  by (auto simp: find_Some_iff)

lemma table_bucket:
  assumes "table_inv k m w" and "q \<in> set (proxies m w)"
  shows "q \<in> set (mx_hls (w_mux w m) ! k_hash_min k (px_xid (w_proxy w q)))"
  using assms unfolding table_inv_def proxies_def set_concat_nth by metis

lemma lookup_sound:
  assumes "table_inv k m w" and "xeth_mux_proxy_of_xid k m w x = Some q"
  shows "q \<in> set (proxies m w) \<and> px_xid (w_proxy w q) = x"
  using assms by (auto simp: xeth_mux_proxy_of_xid_def table_inv_def hash_ok_def proxies_def
      set_concat_nth dest!: find_SomeD)

lemma lookup_complete:
  assumes "table_inv k m w" and "q \<in> set (proxies m w)" and "px_xid (w_proxy w q) = x"
  shows "\<exists>q'. xeth_mux_proxy_of_xid k m w x = Some q'"
proof -
  from table_bucket[OF assms(1,2)] assms(3) have "q \<in> set (mx_hls (w_mux w m) ! k_hash_min k x)"
    by simp
  with assms(3) show ?thesis by (force simp: xeth_mux_proxy_of_xid_def find_None_iff not_None_eq[symmetric])
qed

lemma add_proxy_spec:
  assumes inv: "table_inv k m w" and mux: "px_mux (w_proxy w q) = Some m"
    and new: "q \<notin> set (proxies m w)" and kd: "px_kind (w_proxy w q) \<noteq> XETH_DEV_KIND_UNSPEC"
  shows "\<exists>w'. xeth_mux_add_proxy k q w = Inr w' \<and> table_inv k m w'
    \<and> set (proxies m w') = insert q (set (proxies m w)) \<and> w_proxy w' = w_proxy w
    \<and> xeth_mux_proxy_of_xid k m w' (px_xid (w_proxy w q)) = Some q
    \<and> (\<forall>y. y \<noteq> px_xid (w_proxy w q) \<longrightarrow>
           xeth_mux_proxy_of_xid k m w' y = xeth_mux_proxy_of_xid k m w y)"
proof -
  let ?x = "px_xid (w_proxy w q)" and ?b = "k_hash_min k (px_xid (w_proxy w q))"
  let ?hls = "mx_hls (w_mux w m)"
  let ?p = "(w_mux w m)\<lparr>mx_hls := ?hls[?b := q # ?hls ! ?b]\<rparr>"
  let ?w = "upd_mux m (\<lambda>_. upd_kin (px_kind (w_proxy w q)) (Cons q) ?p) w"
  from inv have len: "length ?hls = 16" and b: "?b < 16" and dis: "distinct (concat ?hls)"
    by (auto simp: table_inv_def hash_ok_def xeth_mux_proxy_hash_bkts_def proxies_def)
  have pr: "set (proxies m ?w) = insert q (set (proxies m w))"
    "distinct (proxies m ?w)"
    using len b dis new concat_split[of ?b ?hls]
    by (auto simp: proxies_def concat_update)
  have "table_inv k m ?w"
    using inv mux kd pr new len b
    by (auto simp: table_inv_def kin_ok_def nth_list_update xeth_mux_proxy_hash_bkts_def)
  moreover have "xeth_mux_proxy_of_xid k m ?w y =
      (if y = ?x then Some q else xeth_mux_proxy_of_xid k m w y)" for y
    using len b by (auto simp: xeth_mux_proxy_of_xid_def nth_list_update)
  moreover have "xeth_mux_add_proxy k q w = Inr ?w"
    by (simp add: xeth_mux_add_proxy_def mux Let_def)
  ultimately show ?thesis using pr by simp
qed

lemma del_proxy_spec:
  assumes inv: "table_inv k m w" and mem: "q \<in> set (proxies m w)"
  shows "\<exists>w'. xeth_mux_del_proxy q w = Inr w' \<and> table_inv k m w'
    \<and> set (proxies m w') = set (proxies m w) - {q} \<and> w_proxy w' = w_proxy w"
proof -
  let ?hls = "mx_hls (w_mux w m)"
  let ?w = "upd_mux m (\<lambda>_. upd_kin (px_kind (w_proxy w q)) (remove1 q)
      ((w_mux w m)\<lparr>mx_hls := map (remove1 q) ?hls\<rparr>)) w"
  from inv have len: "length ?hls = 16" and dis: "distinct (concat ?hls)"
    by (auto simp: table_inv_def xeth_mux_proxy_hash_bkts_def proxies_def)
  from mem len obtain b where "b < 16" "q \<in> set (?hls ! b)"
    unfolding proxies_def set_concat_nth by auto
  with inv have mux: "px_mux (w_proxy w q) = Some m"
    by (auto simp: table_inv_def xeth_mux_proxy_hash_bkts_def)
  have pr: "proxies m ?w = remove1 q (proxies m w)"
    using dis by (simp add: proxies_def concat_map_remove1)
  have "table_inv k m ?w"
    using inv len dis pr
    by (auto simp: table_inv_def kin_ok_def xeth_mux_proxy_hash_bkts_def proxies_def
        dest: notin_set_remove1)
  moreover have "xeth_mux_del_proxy q w = Inr ?w"
    using mem by (simp add: xeth_mux_del_proxy_def mux Let_def proxies_def)
  moreover have "distinct (proxies m w)" using dis by (simp add: proxies_def)
  ultimately show ?thesis using pr by (intro exI[of _ ?w]) simp
qed

section \<open>The table as an interface\<close>

text \<open>
  What the other components rely on: a registry in which a lookup finds a member with the XID asked
  for, an added member shadows older ones with its XID, and a deleted member is gone.
\<close>

locale xid_registry =
  fixes inv :: "'s \<Rightarrow> bool" and members :: "'s \<Rightarrow> 'q set" and xid_of :: "'s \<Rightarrow> 'q \<Rightarrow> u32"
    and lookup :: "'s \<Rightarrow> u32 \<Rightarrow> 'q option" and can_add :: "'s \<Rightarrow> 'q \<Rightarrow> bool"
    and add :: "'q \<Rightarrow> 's \<Rightarrow> 's outcome" and del :: "'q \<Rightarrow> 's \<Rightarrow> 's outcome"
  assumes sound: "inv s \<Longrightarrow> lookup s x = Some q \<Longrightarrow> q \<in> members s \<and> xid_of s q = x"
    and complete: "inv s \<Longrightarrow> q \<in> members s \<Longrightarrow> xid_of s q = x \<Longrightarrow> \<exists>q'. lookup s x = Some q'"
    and add: "inv s \<Longrightarrow> can_add s q \<Longrightarrow> q \<notin> members s \<Longrightarrow> \<exists>t. add q s = Inr t \<and> inv t
      \<and> members t = insert q (members s) \<and> xid_of t = xid_of s
      \<and> lookup t (xid_of s q) = Some q
      \<and> (\<forall>y. y \<noteq> xid_of s q \<longrightarrow> lookup t y = lookup s y)"
    and del: "inv s \<Longrightarrow> q \<in> members s \<Longrightarrow> \<exists>t. del q s = Inr t \<and> inv t
      \<and> members t = members s - {q} \<and> xid_of t = xid_of s"
begin

lemma lookup_None_iff: "inv s \<Longrightarrow> lookup s x = None \<longleftrightarrow> (\<forall>q \<in> members s. xid_of s q \<noteq> x)"
  by (metis complete not_None_eq sound)

lemma lookup_unique:
  "inv s \<Longrightarrow> inj_on (xid_of s) (members s) \<Longrightarrow> q \<in> members s \<Longrightarrow> lookup s (xid_of s q) = Some q"
  by (metis complete inj_onD sound)

lemma add_unique:
  assumes "inv s" "can_add s q" "q \<notin> members s" "inj_on (xid_of s) (members s)"
    and "lookup s (xid_of s q) = None" and "add q s = Inr t"
  shows "inj_on (xid_of t) (members t)"
proof -
  from add[OF assms(1-3)] assms(6) have t: "members t = insert q (members s)" "xid_of t = xid_of s"
    by auto
  from assms(1,5) have "\<forall>r \<in> members s. xid_of s r \<noteq> xid_of s q" by (simp add: lookup_None_iff)
  with t assms(4) show ?thesis by (auto simp: inj_on_def)
qed

lemma del_unique:
  assumes "inv s" "inj_on (xid_of s) (members s)" "q \<in> members s" "del q s = Inr t"
  shows "lookup t (xid_of s q) = None"
    and "y \<noteq> xid_of s q \<Longrightarrow> lookup t y = lookup s y"
    and "inj_on (xid_of t) (members t)"
proof -
  from del[OF assms(1,3)] assms(4) have t: "inv t" "members t = members s - {q}" "xid_of t = xid_of s"
    by auto
  show "lookup t (xid_of s q) = None"
    using t assms(2,3) by (auto simp: lookup_None_iff dest: inj_onD)
  show inj: "inj_on (xid_of t) (members t)"
    using t assms(2) by (auto intro: inj_on_subset)
  assume y: "y \<noteq> xid_of s q"
  show "lookup t y = lookup s y"
  proof (cases "lookup s y")
    case None
    with assms(1) have "\<forall>r \<in> members s. xid_of s r \<noteq> y" by (simp add: lookup_None_iff)
    with t have "lookup t y = None" by (auto simp: lookup_None_iff)
    with None show ?thesis by simp
  next
    case (Some r)
    with sound[OF assms(1) Some] y t have "r \<in> members t" "xid_of t r = y" by auto
    with lookup_unique[OF t(1) inj] Some show ?thesis by metis
  qed
qed

lemma add_del:
  assumes "inv s" "can_add s q" "q \<notin> members s" "inj_on (xid_of s) (members s)"
    and "lookup s (xid_of s q) = None" and "add q s = Inr t" and "del q t = Inr u"
  shows "inv u \<and> members u = members s \<and> lookup u = lookup s"
proof -
  from add[OF assms(1-3)] assms(6) have t: "inv t" "members t = insert q (members s)"
    "xid_of t = xid_of s" "\<forall>y. y \<noteq> xid_of s q \<longrightarrow> lookup t y = lookup s y" by auto
  have inj: "inj_on (xid_of t) (members t)" using assms by (intro add_unique[of s q t])
  from del[OF t(1), of q] t assms(7) have u: "inv u" "members u = members t - {q}" by auto
  have "lookup u y = lookup s y" for y
    using del_unique(1,2)[OF t(1) inj, of q u] t assms(5,7) by (cases "y = xid_of s q") auto
  with u t assms(3) show ?thesis by auto
qed

end

interpretation reg: xid_registry "table_inv k m" "\<lambda>w. set (proxies m w)"
  "\<lambda>w q. px_xid (w_proxy w q)" "xeth_mux_proxy_of_xid k m"
  "\<lambda>w q. px_mux (w_proxy w q) = Some m \<and> px_kind (w_proxy w q) \<noteq> XETH_DEV_KIND_UNSPEC"
  "xeth_mux_add_proxy k" "xeth_mux_del_proxy" for k m
proof unfold_locales
  fix s q
  assume "table_inv k m s" "px_mux (w_proxy s q) = Some m \<and> px_kind (w_proxy s q) \<noteq> XETH_DEV_KIND_UNSPEC"
    "q \<notin> set (proxies m s)"
  then show "\<exists>t. xeth_mux_add_proxy k q s = Inr t \<and> table_inv k m t
      \<and> set (proxies m t) = insert q (set (proxies m s))
      \<and> (\<lambda>q. px_xid (w_proxy t q)) = (\<lambda>q. px_xid (w_proxy s q))
      \<and> xeth_mux_proxy_of_xid k m t (px_xid (w_proxy s q)) = Some q
      \<and> (\<forall>y. y \<noteq> px_xid (w_proxy s q) \<longrightarrow>
            xeth_mux_proxy_of_xid k m t y = xeth_mux_proxy_of_xid k m s y)"
    using add_proxy_spec[of k m s q] by auto
next
  fix s q
  assume "table_inv k m s" "q \<in> set (proxies m s)"
  then show "\<exists>t. xeth_mux_del_proxy q s = Inr t \<and> table_inv k m t
      \<and> set (proxies m t) = set (proxies m s) - {q}
      \<and> (\<lambda>q. px_xid (w_proxy t q)) = (\<lambda>q. px_xid (w_proxy s q))"
    using del_proxy_spec[of k m s q] by auto
qed (auto dest: lookup_sound intro: lookup_complete)

section \<open>Loops over the kin lists\<close>

lemma netif_carrier_frame [simp]:
  "w_proxy (netif_carrier on n w) = w_proxy w" "w_mux (netif_carrier on n w) = w_mux w"
  "w_vlan_link (netif_carrier on n w) = w_vlan_link w" "w_trace (netif_carrier on n w) = w_trace w"
  "nd_carrier (w_nd (netif_carrier on n w) i) = (if i = n then on else nd_carrier (w_nd w i))"
  by (simp_all add: netif_carrier_def)

lemma change_carrier_loop:
  "nd_carrier (w_nd (fold (\<lambda>q w. if xeth_vlan_has_link w (px_nd (w_proxy w q)) nd
        then netif_carrier on (px_nd (w_proxy w q)) w else w) qs w) i) =
   (if \<exists>q \<in> set qs. px_nd (w_proxy w q) = i \<and> w_vlan_link w i = Some nd then on
    else nd_carrier (w_nd w i))"
  by (induction qs arbitrary: w) (auto simp: xeth_vlan_has_link_def)

lemma check_lower_loop:
  "fold (\<lambda>l c. if \<not> P l then False else c) ls c \<longleftrightarrow> c \<and> (\<forall>l \<in> set ls. P l)"
  by (induction ls arbitrary: c) auto

lemma drop_carrier_loop:
  "nd_carrier (w_nd (fold (\<lambda>q w. netif_carrier False (px_nd (w_proxy w q)) w) qs w) i) \<longleftrightarrow>
   nd_carrier (w_nd w i) \<and> (\<forall>q \<in> set qs. px_nd (w_proxy w q) \<noteq> i)"
  by (induction qs arbitrary: w) auto

lemma carrier_loop_frame:
  "w_trace (fold (\<lambda>q w. if P w q then netif_carrier on (f w q) w else w) qs w) = w_trace w"
  by (induction qs arbitrary: w) auto

section \<open>Refinement of a finite map\<close>

text \<open>The abstract table: the map from XID to proxy.\<close>

definition xid_map :: "ndp \<Rightarrow> world \<Rightarrow> u32 \<rightharpoonup> ndp" where
  "xid_map m w = map_of (map (\<lambda>q. (px_xid (w_proxy w q), q)) (proxies m w))"

definition xids_unique :: "ndp \<Rightarrow> world \<Rightarrow> bool" where
  "xids_unique m w \<longleftrightarrow> inj_on (\<lambda>q. px_xid (w_proxy w q)) (set (proxies m w))"

lemma xid_map_Some_iff:
  assumes "table_inv k m w" and "xids_unique m w"
  shows "xid_map m w x = Some q \<longleftrightarrow> q \<in> set (proxies m w) \<and> px_xid (w_proxy w q) = x"
proof -
  have "distinct (map fst (map (\<lambda>q. (px_xid (w_proxy w q), q)) (proxies m w)))"
    using assms by (simp add: comp_def distinct_map xids_unique_def table_inv_def)
  then show ?thesis by (auto simp: xid_map_def)
qed

lemma lookup_is_xid_map:
  assumes "table_inv k m w" and "xids_unique m w"
  shows "xeth_mux_proxy_of_xid k m w = xid_map m w"
proof
  fix x
  show "xeth_mux_proxy_of_xid k m w x = xid_map m w x"
  proof (cases "xid_map m w x")
    case None
    then have "\<forall>q \<in> set (proxies m w). px_xid (w_proxy w q) \<noteq> x"
      by (force simp: xid_map_def map_of_eq_None_iff)
    with None show ?thesis using reg.lookup_None_iff[OF assms(1)] by metis
  next
    case (Some q)
    then have "q \<in> set (proxies m w)" "px_xid (w_proxy w q) = x"
      by (simp_all add: xid_map_Some_iff[OF assms])
    with Some show ?thesis
      using reg.lookup_unique[OF assms(1), of q] assms(2) by (simp add: xids_unique_def)
  qed
qed

section \<open>Properties\<close>

lemma sample_table_inv: "table_inv sample_kapi 1 sample_world"
proof -
  have "list_all (\<lambda>b. list_all (\<lambda>q. k_hash_min sample_kapi (px_xid (sample_proxies q)) = b
      \<and> px_mux (sample_proxies q) = Some 1 \<and> px_kind (sample_proxies q) \<noteq> XETH_DEV_KIND_UNSPEC)
      (mx_hls sample_mux ! b)) [0..<16]"
    by (simp add: upt_rec sample_kapi_def sample_proxies_def sample_mux_def)
  then have "\<forall>b<16. \<forall>q \<in> set (mx_hls sample_mux ! b). k_hash_min sample_kapi (px_xid (sample_proxies q)) = b
      \<and> px_mux (sample_proxies q) = Some 1 \<and> px_kind (sample_proxies q) \<noteq> XETH_DEV_KIND_UNSPEC"
    by (simp only: list_all_iff set_upt atLeast0LessThan Ball_def lessThan_iff)
  moreover have "kin_ok 1 sample_world kd" if "kd \<noteq> XETH_DEV_KIND_UNSPEC" for kd
    using that by (cases kd) (auto simp: kin_ok_def proxies_def sample_defs split: if_splits)
  moreover have "distinct (proxies 1 sample_world)" by (simp add: proxies_def sample_defs)
  moreover have "hash_ok sample_kapi" by (simp add: hash_ok_def sample_kapi_def xeth_mux_proxy_hash_bkts_def)
  ultimately show ?thesis
    by (simp add: table_inv_def xeth_mux_proxy_hash_bkts_def) (simp add: sample_world_def sample_mux_def)
qed

lemma sample_xids_unique: "xids_unique 1 sample_world"
  by (simp add: xids_unique_def proxies_def sample_defs)

text \<open>
  C2: The hash table with its bucket chains implements a finite map from XID to proxy: a lookup is the
  map's lookup, and adding a proxy with an unused XID extends the map at that XID and keeps the table
  invariant, the uniqueness of XIDs and the list of every kind.
\<close>

theorem add_proxy_refines_map_update:
  assumes "table_inv k m w" and "xids_unique m w"
    and "px_mux (w_proxy w q) = Some m" and "px_kind (w_proxy w q) \<noteq> XETH_DEV_KIND_UNSPEC"
    and "q \<notin> set (proxies m w)" and "xid_map m w (px_xid (w_proxy w q)) = None"
  shows "\<exists>w'. xeth_mux_add_proxy k q w = Inr w' \<and> table_inv k m w' \<and> xids_unique m w'
    \<and> xeth_mux_proxy_of_xid k m w = xid_map m w
    \<and> xeth_mux_proxy_of_xid k m w' = xid_map m w'
    \<and> xid_map m w' = (xid_map m w)(px_xid (w_proxy w q) \<mapsto> q)"
proof -
  note look = lookup_is_xid_map[OF assms(1,2)]
  from add_proxy_spec[OF assms(1,3,5,4)] obtain w' where w': "xeth_mux_add_proxy k q w = Inr w'"
    "table_inv k m w'" "xeth_mux_proxy_of_xid k m w' (px_xid (w_proxy w q)) = Some q"
    "\<forall>y. y \<noteq> px_xid (w_proxy w q) \<longrightarrow> xeth_mux_proxy_of_xid k m w' y = xeth_mux_proxy_of_xid k m w y"
    by blast
  have "xids_unique m w'"
    using reg.add_unique[OF assms(1) _ assms(5) _ _ w'(1)] assms(2,3,4,6) look
    by (simp add: xids_unique_def)
  with w' look lookup_is_xid_map[of k m w'] show ?thesis by (intro exI[of _ w']) auto
qed

theorem add_proxy_refines_map_update_witness:
  "\<exists>w'. xeth_mux_add_proxy sample_kapi 7 sample_world = Inr w' \<and> table_inv sample_kapi 1 w'
     \<and> xid_map 1 w' = (xid_map 1 sample_world)(27576 \<mapsto> 7)"
  using add_proxy_refines_map_update[OF sample_table_inv sample_xids_unique, of 7]
  by (auto simp: proxies_def xid_map_def sample_defs)

text \<open>
  C4: Deleting a registered proxy succeeds, removes exactly its XID from the map and keeps the table
  invariant; deleting it a second time goes through a poisoned list pointer.
\<close>

theorem del_proxy_refines_map_delete:
  assumes "table_inv k m w" and "xids_unique m w" and "q \<in> set (proxies m w)"
  shows "\<exists>w'. xeth_mux_del_proxy q w = Inr w' \<and> table_inv k m w' \<and> xids_unique m w'
    \<and> xeth_mux_proxy_of_xid k m w' = (xid_map m w)(px_xid (w_proxy w q) := None)
    \<and> xeth_mux_del_proxy q w' = Inl Null_deref"
proof -
  from del_proxy_spec[OF assms(1,3)] obtain w' where w': "xeth_mux_del_proxy q w = Inr w'"
    "table_inv k m w'" "set (proxies m w') = set (proxies m w) - {q}" "w_proxy w' = w_proxy w"
    by blast
  note d = reg.del_unique[OF assms(1) assms(2)[unfolded xids_unique_def] assms(3) w'(1)]
  have "xeth_mux_proxy_of_xid k m w' y = ((xid_map m w)(px_xid (w_proxy w q) := None)) y" for y
    using d(1) d(2)[of y] lookup_is_xid_map[OF assms(1,2)] by auto
  moreover from table_bucket[OF assms(1,3)] assms(1) have "px_mux (w_proxy w q) = Some m"
    by (auto simp: table_inv_def hash_ok_def)
  with w'(3,4) have "xeth_mux_del_proxy q w' = Inl Null_deref"
    by (auto simp: xeth_mux_del_proxy_def proxies_def)
  ultimately show ?thesis using w'(1,2) d(3) by (auto simp: xids_unique_def)
qed

theorem del_proxy_refines_map_delete_witness:
  "\<exists>w'. xeth_mux_del_proxy 4 sample_world = Inr w'
     \<and> xeth_mux_proxy_of_xid sample_kapi 1 w' = (xid_map 1 sample_world)(23480 := None)
     \<and> xeth_mux_del_proxy 4 w' = Inl Null_deref"
  using del_proxy_refines_map_delete[OF sample_table_inv sample_xids_unique, of 4]
  by (auto simp: proxies_def sample_defs)

text \<open>
  A carrier change on a port sets the carrier of that port and of every vlan device stacked on it,
  and of no other device.
\<close>

theorem change_carrier_correct:
  "nd_carrier (w_nd (xeth_mux_change_carrier m nd on w) i) =
     (if i = nd \<or> (\<exists>q \<in> set (mx_vlans (w_mux w m)). px_nd (w_proxy w q) = i \<and> w_vlan_link w i = Some nd)
      then on else nd_carrier (w_nd w i))"
  by (auto simp: xeth_mux_change_carrier_def change_carrier_loop)

text \<open>
  After a check of the lower carriers the mux has carrier exactly when every lower link has, and no
  other device is touched.
\<close>

theorem check_lower_carrier_correct:
  "nd_carrier (w_nd (xeth_mux_check_lower_carrier m w) i) =
     (if i = m then \<forall>l \<in> set (nd_lowers (w_nd w m)). nd_carrier (w_nd w l) else nd_carrier (w_nd w i))"
  by (auto simp: xeth_mux_check_lower_carrier_def check_lower_loop)

theorem check_lower_carrier_correct_witness:
  "nd_carrier (w_nd (xeth_mux_check_lower_carrier 1 (netif_carrier False 9 sample_world)) 1) =
     (\<forall>l \<in> set (nd_lowers (w_nd (netif_carrier False 9 sample_world) 1)).
        nd_carrier (w_nd (netif_carrier False 9 sample_world) l))"
  using check_lower_carrier_correct [of 1 "netif_carrier False 9 sample_world" 1] by simp

text \<open>
  When the daemon goes away every port loses its carrier, but no other device does: a vlan stacked
  on a port keeps the carrier that an earlier carrier message gave it.
\<close>

theorem drop_all_port_carrier_correct:
  "nd_carrier (w_nd (xeth_mux_drop_all_port_carrier m w) i) \<longleftrightarrow>
     nd_carrier (w_nd w i) \<and> i \<notin> (\<lambda>q. px_nd (w_proxy w q)) ` set (mx_ports (w_mux w m))"
  by (auto simp: xeth_mux_drop_all_port_carrier_def drop_carrier_loop)

end
