(* ===== verification/Xeth_Link.thy ===== *)
theory Xeth_Link
  imports Xeth_Table
begin

text \<open>
  The lower links of a mux (\<^verbatim>\<open>dkms/xeth_mux.c\<close>): binding and releasing a lower device, the table that
  spreads frames over the links, and opening and stopping the mux.
\<close>

section \<open>The link hash table\<close>

text \<open>The inner loop \<^verbatim>\<open>for (i = n - 1; i < xeth_mux_link_hash_bkts; i += n) priv->link[i] = lower\<close>.\<close>

function fill_link :: "nat \<Rightarrow> nat \<Rightarrow> ndp \<Rightarrow> ndp option list \<Rightarrow> ndp option list" where
  "fill_link i n lower ht =
     (if i < xeth_mux_link_hash_bkts \<and> 0 < n then fill_link (i + n) n lower (ht[i := Some lower]) else ht)"
  by pat_completeness auto
termination
  by (relation "measure (\<lambda>(i, n, lower, ht). xeth_mux_link_hash_bkts - i)") auto

declare fill_link.simps [simp del]

fun rehash_loop :: "nat \<Rightarrow> ndp list \<Rightarrow> ndp option list \<Rightarrow> ndp option list" where
  "rehash_loop n [] ht = ht"
| "rehash_loop n (lower # lowers) ht = rehash_loop (n + 1) lowers (fill_link (n - 1) n lower ht)"

definition xeth_mux_rehash_link_ht :: "ndp \<Rightarrow> world \<Rightarrow> world" where
  "xeth_mux_rehash_link_ht m w =
     upd_mux m (\<lambda>p. p\<lparr>mx_link := rehash_loop 1 (nd_lowers (w_nd w m)) (mx_link p)\<rparr>) w"

definition xeth_mux_link_hash_vlan :: "kapi \<Rightarrow> skb \<Rightarrow> nat" where
  "xeth_mux_link_hash_vlan k skb =
     (case k_vlan_get_tag k skb of None \<Rightarrow> 0 | Some tci \<Rightarrow> unat (tci AND 1))"

section \<open>Binding and releasing a lower device\<close>

definition xeth_mux_set_lower_promiscuity :: "kapi \<Rightarrow> ndp \<Rightarrow> world \<Rightarrow> int \<times> world" where
  "xeth_mux_set_lower_promiscuity k lower w =
     (let err = k_dev_set_promiscuity k (w_trace w) lower;
          w = log_event (Ev_set_promiscuity lower 1) w
      in (err, if err = 0 then upd_nd lower (\<lambda>d. d\<lparr>nd_promiscuity := nd_promiscuity d + 1\<rparr>) w else w))"

definition xeth_mux_set_lower_mtu :: "kapi \<Rightarrow> ndp \<Rightarrow> world \<Rightarrow> int \<times> world" where
  "xeth_mux_set_lower_mtu k lower w =
     (if \<not> k_has_change_mtu k lower \<or> nd_mtu (w_nd w lower) = of_nat XETH_SIZEOF_JUMBO_FRAME then (0, w)
      else let err = k_change_mtu k (w_trace w) lower;
               w = log_event (Ev_change_mtu lower (of_nat XETH_SIZEOF_JUMBO_FRAME)) w
           in (err, if err = 0 then upd_nd lower (\<lambda>d. d\<lparr>nd_mtu := of_nat XETH_SIZEOF_JUMBO_FRAME\<rparr>) w
                    else w))"

definition xeth_mux_lower_is_loopback :: "kapi \<Rightarrow> ndp \<Rightarrow> ndp \<Rightarrow> world \<Rightarrow> int" where
  "xeth_mux_lower_is_loopback k m lower w =
     (if lower = k_loopback_dev k (nd_net (w_nd w m)) then - EOPNOTSUPP else 0)"

definition xeth_mux_lower_is_busy :: "ndp \<Rightarrow> world \<Rightarrow> int" where
  "xeth_mux_lower_is_busy lower w =
     (if nd_rx_handler_data (w_nd w lower) \<noteq> None then - EBUSY else 0)"

definition xeth_mux_handle_lower :: "kapi \<Rightarrow> ndp \<Rightarrow> ndp \<Rightarrow> world \<Rightarrow> int \<times> world" where
  "xeth_mux_handle_lower k m lower w =
     (let err = k_rx_handler_register k (w_trace w) lower;
          w = log_event (Ev_rx_handler_register lower m) w
      in (err, if err = 0 then upd_nd lower (\<lambda>d. d\<lparr>nd_rx_handler_data := Some m\<rparr>) w else w))"

definition netdev_rx_handler_unregister :: "ndp \<Rightarrow> world \<Rightarrow> world" where
  "netdev_rx_handler_unregister lower w =
     upd_nd lower (\<lambda>d. d\<lparr>nd_rx_handler_data := None\<rparr>) (log_event (Ev_rx_handler_unregister lower) w)"

text \<open>
  \<^verbatim>\<open>netdev_master_upper_dev_link\<close> and \<^verbatim>\<open>netdev_upper_dev_unlink\<close>: on success the upper becomes the
  master of the lower, and the lower joins the end of the upper's list of lowers.
\<close>

definition netdev_master_upper_dev_link :: "kapi \<Rightarrow> ndp \<Rightarrow> ndp \<Rightarrow> world \<Rightarrow> int \<times> world" where
  "netdev_master_upper_dev_link k lower upper w =
     (let err = k_master_upper_dev_link k (w_trace w) lower upper;
          w = log_event (Ev_upper_link lower upper) w
      in (err, if err = 0
               then upd_nd upper (\<lambda>d. d\<lparr>nd_lowers := nd_lowers d @ [lower]\<rparr>)
                      (upd_nd lower (\<lambda>d. d\<lparr>nd_master := Some upper\<rparr>) w)
               else w))"

definition netdev_upper_dev_unlink :: "ndp \<Rightarrow> ndp \<Rightarrow> world \<Rightarrow> world" where
  "netdev_upper_dev_unlink lower upper w =
     upd_nd upper (\<lambda>d. d\<lparr>nd_lowers := removeAll lower (nd_lowers d)\<rparr>)
       (upd_nd lower (\<lambda>d. d\<lparr>nd_master := None\<rparr>) (log_event (Ev_upper_unlink lower upper) w))"

definition xeth_mux_bind_lower :: "kapi \<Rightarrow> ndp \<Rightarrow> ndp \<Rightarrow> world \<Rightarrow> int \<times> world" where
  "xeth_mux_bind_lower k m lower w =
     (let w = upd_nd lower (\<lambda>d. d\<lparr>nd_flags := nd_flags d OR IFF_SLAVE\<rparr>) w;
          (err, w) = netdev_master_upper_dev_link k lower m w
      in (err, if err \<noteq> 0 then upd_nd lower (\<lambda>d. d\<lparr>nd_flags := nd_flags d AND NOT IFF_SLAVE\<rparr>) w
               else xeth_mux_rehash_link_ht m w))"

text \<open>The cascade \<^verbatim>\<open>if (!err) err = step\<close>.\<close>

definition if_ok :: "int \<times> world \<Rightarrow> (world \<Rightarrow> int \<times> world) \<Rightarrow> int \<times> world" where
  "if_ok r f = (case r of (err, w) \<Rightarrow> if err = 0 then f w else (err, w))"

definition xeth_mux_add_lower :: "kapi \<Rightarrow> ndp \<Rightarrow> ndp \<Rightarrow> world \<Rightarrow> int \<times> world" where
  "xeth_mux_add_lower k m lower w =
     (let r = xeth_mux_set_lower_promiscuity k lower w;
          r = if_ok r (xeth_mux_set_lower_mtu k lower);
          r = if_ok r (\<lambda>w. (xeth_mux_lower_is_loopback k m lower w, w));
          r = if_ok r (\<lambda>w. (xeth_mux_lower_is_busy lower w, w));
          r = if_ok r (xeth_mux_handle_lower k m lower);
          (err, w) = if_ok r (xeth_mux_bind_lower k m lower)
      in (err, if err \<noteq> 0 then netdev_rx_handler_unregister lower w else w))"

definition xeth_mux_del_lower :: "ndp \<Rightarrow> ndp \<Rightarrow> world \<Rightarrow> world" where
  "xeth_mux_del_lower m lower w =
     (let w = upd_nd lower (\<lambda>d. d\<lparr>nd_flags := nd_flags d AND NOT IFF_SLAVE\<rparr>) w;
          w = netdev_upper_dev_unlink lower m w;
          w = netdev_rx_handler_unregister lower w;
          w = upd_nd lower (\<lambda>d. d\<lparr>nd_promiscuity := nd_promiscuity d - 1\<rparr>)
                (log_event (Ev_set_promiscuity lower (-1)) w)
      in log_event (Ev_dev_put lower) w)"

definition xeth_mux_validate :: "nl_tb option \<Rightarrow> nl_data option \<Rightarrow> int" where
  "xeth_mux_validate tb data =
     (if (case tb of None \<Rightarrow> False | Some t \<Rightarrow> IFLA_ADDRESS t \<noteq> None) then - EOPNOTSUPP
      else case data of
             None \<Rightarrow> 0
           | Some d \<Rightarrow> (case XETH_MUX_IFLA_ENCAP d of
                          None \<Rightarrow> 0
                        | Some val \<Rightarrow> if unat val > unat (xeth_encap_code XETH_ENCAP_VPLS) then - ERANGE else 0))"

section \<open>Opening, stopping and releasing the mux\<close>

definition dev_open :: "kapi \<Rightarrow> ndp \<Rightarrow> world \<Rightarrow> world" where
  "dev_open k n w =
     (let err = k_dev_open k (w_trace w) n; w = log_event (Ev_dev_open n) w
      in if err = 0 then upd_nd n (\<lambda>d. d\<lparr>nd_flags := nd_flags d OR IFF_UP\<rparr>) w else w)"

definition dev_close :: "ndp \<Rightarrow> world \<Rightarrow> world" where
  "dev_close n w = upd_nd n (\<lambda>d. d\<lparr>nd_flags := nd_flags d AND NOT IFF_UP\<rparr>) (log_event (Ev_dev_close n) w)"

definition xeth_mux_open :: "kapi \<Rightarrow> ndp \<Rightarrow> world \<Rightarrow> int \<times> world" where
  "xeth_mux_open k m w =
     (let w = fold (\<lambda>lower w. if nd_flags (w_nd w lower) AND IFF_UP = 0 then dev_open k lower w else w)
                (nd_lowers (w_nd w m)) w
      in (0, xeth_mux_check_lower_carrier m w))"

definition xeth_mux_stop :: "ndp \<Rightarrow> world \<Rightarrow> int \<times> world" where
  "xeth_mux_stop m w =
     (let w = (if nd_carrier (w_nd w m) then netif_carrier False m w else w)
      in (0, fold dev_close (nd_lowers (w_nd w m)) w))"

text \<open>
  \<^verbatim>\<open>kthread_stop\<close> returns after the main task has left \<^verbatim>\<open>xeth_mux_main\<close>, whose last action clears the
  flag that the busy loop of \<^verbatim>\<open>xeth_mux_uninit\<close> waits for.
\<close>

definition xeth_mux_uninit :: "ndp \<Rightarrow> world \<Rightarrow> world" where
  "xeth_mux_uninit m w =
     (let w = (if xeth_mux_has main_task (mx_flags (w_mux w m))
               then upd_mux m (\<lambda>p. p\<lparr>mx_flags := xeth_mux_clear_flag main_task (mx_flags p)\<rparr>)
                      (log_event (Ev_kthread_stop m) w)
               else w);
          w = fold (xeth_mux_del_lower m) (nd_lowers (w_nd w m)) w
      in upd_mux m (\<lambda>p. p\<lparr>mx_link := fold (\<lambda>i ht. ht[i := None]) [0..<xeth_mux_link_hash_bkts] (mx_link p)\<rparr>) w)"

section \<open>What the link hash table holds\<close>

lemma nth_fill_link:
  assumes "0 < n" and "length ht = 16" and "j < 16"
  shows "fill_link i n lower ht ! j = (if i \<le> j \<and> n dvd j - i then Some lower else ht ! j)"
  using assms
proof (induction i n lower ht rule: fill_link.induct)
  case (1 i n lower ht)
  show ?case
  proof (cases "i < 16")
    case True
    with 1 have IH: "fill_link (i + n) n lower (ht[i := Some lower]) ! j =
        (if i + n \<le> j \<and> n dvd j - (i + n) then Some lower else ht[i := Some lower] ! j)"
      by (simp add: xeth_mux_link_hash_bkts_def)
    have "i + n \<le> j \<and> n dvd j - (i + n) \<longleftrightarrow> i < j \<and> n dvd j - i"
    proof
      assume *: "i < j \<and> n dvd j - i"
      then have "n \<le> j - i" by (auto intro: dvd_imp_le)
      with * \<open>0 < n\<close> show "i + n \<le> j \<and> n dvd j - (i + n)" by (simp flip: diff_diff_left)
    next
      assume *: "i + n \<le> j \<and> n dvd j - (i + n)"
      then have "j - i = (j - (i + n)) + n" by simp
      with * \<open>0 < n\<close> show "i < j \<and> n dvd j - i" by (metis add_gr_0 dvd_add_left_iff dvd_refl zero_less_diff)
    qed
    with IH True 1(2-) show ?thesis
      by (subst fill_link.simps) (auto simp: xeth_mux_link_hash_bkts_def)
  next
    case False
    with 1 show ?thesis by (subst fill_link.simps) (auto simp: xeth_mux_link_hash_bkts_def)
  qed
qed

lemma length_fill_link [simp]: "length (fill_link i n lower ht) = length ht"
  by (induction i n lower ht rule: fill_link.induct) (subst fill_link.simps, simp)

lemma rehash_loop_append:
  "rehash_loop n (xs @ [x]) ht = fill_link (n + length xs - 1) (n + length xs) x (rehash_loop n xs ht)"
  by (induction xs arbitrary: n ht) simp_all

lemma length_rehash_loop [simp]: "length (rehash_loop n ls ht) = length ht"
  by (induction ls arbitrary: n ht) simp_all

text \<open>The number of the link that bucket \<open>j\<close> uses when there are \<open>k\<close> links.\<close>

definition bucket_link :: "nat \<Rightarrow> nat \<Rightarrow> nat" where
  "bucket_link k j = Max {d. d dvd Suc j \<and> d \<le> k} - 1"

lemma bucket_link_Suc: "0 < k \<Longrightarrow>
  bucket_link (Suc k) j = (if Suc k dvd Suc j then k else bucket_link k j)"
proof -
  assume k: "0 < k"
  show ?thesis
  proof (cases "Suc k dvd Suc j")
    case True
    then have "Max {d. d dvd Suc j \<and> d \<le> Suc k} = Suc k"
      by (intro Max_eqI) (auto intro: finite_subset[of _ "{..Suc k}"])
    with True show ?thesis by (simp add: bucket_link_def)
  next
    case False
    then have "{d. d dvd Suc j \<and> d \<le> Suc k} = {d. d dvd Suc j \<and> d \<le> k}"
      by (auto simp: le_Suc_eq)
    with False show ?thesis by (simp add: bucket_link_def)
  qed
qed

lemma bucket_link_less: "0 < k \<Longrightarrow> bucket_link k j < k"
proof (induction k rule: nat_induct_non_zero)
  case 1
  have "{d. d dvd Suc j \<and> d \<le> 1} = {1}" by (auto simp: le_Suc_eq)
  then show ?case by (simp add: bucket_link_def)
next
  case (Suc k)
  then show ?case by (auto simp: bucket_link_Suc intro: less_SucI)
qed

lemma rehash_nth:
  assumes "length ht = 16" and "j < 16" and "ls \<noteq> []"
  shows "rehash_loop 1 ls ht ! j = Some (ls ! bucket_link (length ls) j)"
  using assms(3)
proof (induction ls rule: rev_nonempty_induct)
  case (single x)
  have "{d. d dvd Suc j \<and> d \<le> 1} = {1}" by (auto simp: le_Suc_eq)
  then have "bucket_link 1 j = 0" by (simp add: bucket_link_def)
  with assms(1,2) show ?case by (simp add: nth_fill_link)
next
  case (snoc x xs)
  let ?k = "length xs"
  have "?k \<le> j \<and> Suc ?k dvd j - ?k \<longleftrightarrow> Suc ?k dvd Suc j"
  proof
    assume *: "?k \<le> j \<and> Suc ?k dvd j - ?k"
    then have "Suc j = (j - ?k) + Suc ?k" by simp
    with * show "Suc ?k dvd Suc j" by (metis dvd_add_left_iff dvd_refl)
  next
    assume *: "Suc ?k dvd Suc j"
    then have "Suc ?k \<le> Suc j" by (rule dvd_imp_le) simp
    moreover have "Suc ?k dvd Suc j - Suc ?k" using * by (intro dvd_diff_nat) simp_all
    ultimately show "?k \<le> j \<and> Suc ?k dvd j - ?k" by simp
  qed
  with snoc assms(1,2) bucket_link_less[of ?k j] show ?case
    by (auto simp: rehash_loop_append nth_fill_link bucket_link_Suc nth_append)
qed

lemma link_hash_le_1: "xeth_mux_link_hash_vlan k skb \<le> 1"
proof -
  have "unat (x AND 1) \<le> 1" for x :: u16
    using word_and_le1[of x 1] by (simp add: word_le_nat_alt)
  then show ?thesis by (simp add: xeth_mux_link_hash_vlan_def split: option.split)
qed

lemma nth_rehash_link_ht:
  assumes "length (mx_link (w_mux w m)) = 16" and "nd_lowers (w_nd w m) \<noteq> []" and "j < 16"
  shows "mx_link (w_mux (xeth_mux_rehash_link_ht m w) m) ! j =
    Some (nd_lowers (w_nd w m) ! bucket_link (length (nd_lowers (w_nd w m))) j)"
  using rehash_nth[OF assms(1,3,2)] by (simp add: xeth_mux_rehash_link_ht_def)

lemma bucket_link_0: "0 < k \<Longrightarrow> bucket_link k 0 = 0"
proof -
  assume "0 < k"
  then have "{d. d dvd Suc 0 \<and> d \<le> k} = {1}" by auto
  then show ?thesis by (simp add: bucket_link_def)
qed

lemma bucket_link_1: "2 \<le> k \<Longrightarrow> bucket_link k 1 = 1"
proof -
  assume "2 \<le> k"
  then have "{d. d dvd Suc 1 \<and> d \<le> k} = {1, 2}"
    using dvd_imp_le[of _ 2] by (force simp: numeral_2_eq_2 le_Suc_eq)
  then show ?thesis by (simp add: bucket_link_def)
qed

section \<open>Properties\<close>

text \<open>
  C36: After a rehash of a mux with lower links, no bucket of the link table is empty, and bucket \<open>j\<close> holds
  the link with the greatest number (counted from one) that divides \<open>j + 1\<close>.
\<close>

theorem rehash_link_ht_correct:
  assumes "length (mx_link (w_mux w m)) = xeth_mux_link_hash_bkts" and "nd_lowers (w_nd w m) \<noteq> []"
    and "j < xeth_mux_link_hash_bkts"
  shows "mx_link (w_mux (xeth_mux_rehash_link_ht m w) m) ! j =
      Some (nd_lowers (w_nd w m) ! (Max {d. d dvd Suc j \<and> d \<le> length (nd_lowers (w_nd w m))} - 1))"
  using nth_rehash_link_ht[of w m j] assms by (simp add: xeth_mux_link_hash_bkts_def bucket_link_def)

theorem rehash_link_ht_correct_witness:
  "mx_link (w_mux (xeth_mux_rehash_link_ht 1 sample_world) 1) ! 5 =
     Some (nd_lowers (w_nd sample_world 1) ! (Max {d. d dvd Suc 5 \<and> d \<le> length (nd_lowers (w_nd sample_world 1))} - 1))"
  by (rule rehash_link_ht_correct) (simp_all add: sample_defs xeth_mux_link_hash_bkts_def)

text \<open>
  The link of a frame is the first lower link or, where there are two or more and the tag is odd,
  the second: a third and further links carry no traffic, although the table spreads over them.
\<close>

theorem only_first_two_links_used:
  assumes "length (mx_link (w_mux w m)) = xeth_mux_link_hash_bkts" and "nd_lowers (w_nd w m) \<noteq> []"
  shows "mx_link (w_mux (xeth_mux_rehash_link_ht m w) m) ! xeth_mux_link_hash_vlan k s =
    Some (nd_lowers (w_nd w m) !
      (if 2 \<le> length (nd_lowers (w_nd w m)) then xeth_mux_link_hash_vlan k s else 0))"
proof -
  let ?ls = "nd_lowers (w_nd w m)" and ?h = "xeth_mux_link_hash_vlan k s"
  have h: "?h = 0 \<or> ?h = 1" using link_hash_le_1[of k s] by linarith
  have "bucket_link (length ?ls) ?h = (if 2 \<le> length ?ls then ?h else 0)"
    using h assms(2) bucket_link_0[of "length ?ls"] bucket_link_1[of "length ?ls"]
      bucket_link_less[of "length ?ls" 1] by auto
  with h nth_rehash_link_ht[of w m ?h] assms show ?thesis
    by (auto simp: xeth_mux_link_hash_bkts_def)
qed

theorem only_first_two_links_used_witness:
  "mx_link (w_mux (xeth_mux_rehash_link_ht 1 sample_world) 1) !
      xeth_mux_link_hash_vlan (sample_kapi\<lparr>k_vlan_get_tag := (\<lambda>_. Some 7)\<rparr>) sample_skb =
    Some (nd_lowers (w_nd sample_world 1) ! (if 2 \<le> length (nd_lowers (w_nd sample_world 1))
      then xeth_mux_link_hash_vlan (sample_kapi\<lparr>k_vlan_get_tag := (\<lambda>_. Some 7)\<rparr>) sample_skb else 0))"
  by (rule only_first_two_links_used) (simp_all add: sample_defs xeth_mux_link_hash_bkts_def)

lemma add_lower_ok_inv:
  assumes "xeth_mux_add_lower k m lower w = (0, w')" and "lower \<noteq> m"
  shows "nd_rx_handler_data (w_nd w lower) = None \<and> nd_rx_handler_data (w_nd w' lower) = Some m
    \<and> nd_master (w_nd w' lower) = Some m \<and> nd_flags (w_nd w' lower) = nd_flags (w_nd w lower) OR IFF_SLAVE
    \<and> nd_promiscuity (w_nd w' lower) = nd_promiscuity (w_nd w lower) + 1
    \<and> nd_lowers (w_nd w' m) = nd_lowers (w_nd w m) @ [lower]
    \<and> mx_link (w_mux w' m) = rehash_loop 1 (nd_lowers (w_nd w' m)) (mx_link (w_mux w m))"
  using assms
  by (auto simp: xeth_mux_add_lower_def if_ok_def xeth_mux_set_lower_promiscuity_def Let_def
      xeth_mux_set_lower_mtu_def xeth_mux_lower_is_loopback_def xeth_mux_lower_is_busy_def
      xeth_mux_handle_lower_def xeth_mux_bind_lower_def netdev_master_upper_dev_link_def
      xeth_mux_rehash_link_ht_def split: prod.splits if_splits)



text \<open>
  Adding a device that already has a receive handler of another owner fails with \<^verbatim>\<open>-EBUSY\<close>, but the
  error path then unregisters that foreign handler and leaves the device promiscuous.
\<close>

theorem add_busy_lower_drops_foreign_handler:
  assumes "nd_rx_handler_data (w_nd w lower) = Some owner"
    and "k_dev_set_promiscuity k (w_trace w) lower = 0" and "\<not> k_has_change_mtu k lower"
    and "lower \<noteq> k_loopback_dev k (nd_net (w_nd w m))"
  shows "\<exists>w'. xeth_mux_add_lower k m lower w = (- EBUSY, w')
    \<and> nd_rx_handler_data (w_nd w' lower) = None
    \<and> nd_promiscuity (w_nd w' lower) = nd_promiscuity (w_nd w lower) + 1"
  using assms
  by (auto simp: xeth_mux_add_lower_def if_ok_def xeth_mux_set_lower_promiscuity_def
      xeth_mux_set_lower_mtu_def xeth_mux_lower_is_loopback_def xeth_mux_lower_is_busy_def
      netdev_rx_handler_unregister_def Let_def)

theorem add_busy_lower_drops_foreign_handler_witness:
  "\<exists>w'. xeth_mux_add_lower (sample_kapi\<lparr>k_has_change_mtu := \<lambda>_. False\<rparr>) 2 8 sample_world = (- EBUSY, w')
    \<and> nd_rx_handler_data (w_nd w' 8) = None
    \<and> nd_promiscuity (w_nd w' 8) = nd_promiscuity (w_nd sample_world 8) + 1"
  by (rule add_busy_lower_drops_foreign_handler [where owner = 1]) (simp_all add: sample_defs)

end
