(* ===== verification/Xeth_Frame.thy ===== *)
theory Xeth_Frame
  imports Xeth_Link
begin

text \<open>
  The data path of \<^verbatim>\<open>dkms/xeth_mux.c\<close>: a proxy tags its frames with its XID and hands them to the mux,
  the mux spreads tagged frames over its lower links, frames that come back are demultiplexed to
  the proxy of their tags, and frames with the exception priority that are transmitted on the mux
  itself are looped back to a proxy. Socket buffers are linear; a read past the frame is a fault.
\<close>

section \<open>Socket buffer primitives\<close>

definition skb_len :: "skb \<Rightarrow> nat" where
  "skb_len s = length (skb_buf s) - skb_data s"

definition frame_of :: "skb \<Rightarrow> u8 list" where
  "frame_of s = drop (skb_data s) (skb_buf s)"

definition be16 :: "u16 \<Rightarrow> u8 list" where
  "be16 x = rev (le16 x)"

text \<open>\<^verbatim>\<open>be16_to_cpu\<close> of the two bytes at an offset from \<^verbatim>\<open>skb->data\<close>.\<close>

definition load_be16 :: "nat \<Rightarrow> skb \<Rightarrow> u16 outcome" where
  "load_be16 off s =
     (if skb_data s + off + 2 \<le> length (skb_buf s)
      then Inr (le_word (rev (get_bytes (skb_data s + off) 2 (skb_buf s))))
      else Inl Out_of_bounds)"

text \<open>\<^verbatim>\<open>skb_pull_inline\<close> leaves a buffer that is too short alone; \<^verbatim>\<open>skb_push\<close> panics below the head.\<close>

definition skb_pull_inline :: "nat \<Rightarrow> skb \<Rightarrow> skb" where
  "skb_pull_inline n s = (if n > skb_len s then s else s\<lparr>skb_data := skb_data s + n\<rparr>)"

definition skb_push :: "nat \<Rightarrow> skb \<Rightarrow> skb outcome" where
  "skb_push n s = (if n > skb_data s then Inl Out_of_bounds else Inr (s\<lparr>skb_data := skb_data s - n\<rparr>))"

definition eth_type_vlan :: "u16 \<Rightarrow> bool" where
  "eth_type_vlan proto \<longleftrightarrow> proto = ETH_P_8021Q \<or> proto = ETH_P_8021AD"

definition NETDEV_TX_OK :: int where "NETDEV_TX_OK = 0"

text \<open>\<^verbatim>\<open>kfree_skb\<close>, \<^verbatim>\<open>dev_queue_xmit\<close> and \<^verbatim>\<open>dev_forward_skb\<close> each take over the buffer.\<close>

definition dev_queue_xmit :: "kapi \<Rightarrow> skb \<Rightarrow> world \<Rightarrow> int \<times> world" where
  "dev_queue_xmit k s w =
     (k_dev_queue_xmit k (w_trace w) (skb_dev s) s, log_event (Ev_queue_xmit (skb_dev s) s) w)"

definition dev_forward_skb :: "kapi \<Rightarrow> ndp \<Rightarrow> skb \<Rightarrow> world \<Rightarrow> bool \<times> world" where
  "dev_forward_skb k nd s w =
     (k_dev_forward_skb k (w_trace w) nd s, log_event (Ev_forward nd s) w)"

definition kfree_skb :: "skb \<Rightarrow> world \<Rightarrow> world" where
  "kfree_skb s w = log_event (Ev_kfree s) w"

definition count_stat :: "ndp \<Rightarrow> xeth_link_stat \<Rightarrow> world \<Rightarrow> world" where
  "count_stat m st w = upd_mux m (upd_stats (xeth_inc_stat st)) w"

definition add_stat :: "ndp \<Rightarrow> xeth_link_stat \<Rightarrow> u64 \<Rightarrow> world \<Rightarrow> world" where
  "add_stat m st n w = upd_mux m (upd_stats (xeth_add_stat st n)) w"

section \<open>Demultiplexing\<close>

text \<open>
  The part of \<^verbatim>\<open>xeth_mux_demux_vlan\<close> for a proxy that is up: the Ethernet header is rebuilt in front of
  the payload and the frame is forwarded. \<^verbatim>\<open>skb->len\<close> is read after the buffer was handed over.
\<close>

definition demux_rebuild :: "skb \<Rightarrow> skb outcome" where
  "demux_rebuild s =
     bindR (skb_push ETH_HLEN s) (\<lambda>s.
       if skb_mac s + 12 > length (skb_buf s) \<or> skb_data s + 14 > length (skb_buf s)
       then Inl Out_of_bounds
       else let buf = put_bytes (skb_data s) (get_bytes (skb_mac s) 12 (skb_buf s)) (skb_buf s);
                buf = put_bytes (skb_data s + 12) (be16 (skb_protocol s)) buf
            in Inr (s\<lparr>skb_buf := buf, skb_vlan_proto := 0, skb_vlan_tci := 0\<rparr>))"

definition demux_forward :: "kapi \<Rightarrow> ndp \<Rightarrow> ndp \<Rightarrow> skb \<Rightarrow> world \<Rightarrow> world" where
  "demux_forward k m nd s w =
     (let len = k_len_after_forward k (w_trace w) nd s; (ok, w) = dev_forward_skb k nd s w
      in if ok then add_stat m RX_BYTES len (count_stat m RX_PACKETS w)
         else count_stat m RX_DROPPED w)"

text \<open>The XID of a frame's tags and the frame behind the inner tag.\<close>

definition demux_xid :: "skb \<Rightarrow> (u32 \<times> skb) outcome" where
  "demux_xid s =
     (let s = s\<lparr>skb_priority := ucast (drop_bit XETH_VLAN_PRIO_SHIFT (skb_vlan_tci s))\<rparr>;
          xid = ucast (skb_vlan_tci s AND XETH_VLAN_VID_MASK) :: u32
      in if eth_type_vlan (skb_protocol s)
         then bindR (load_be16 0 s) (\<lambda>tci. bindR (load_be16 2 s) (\<lambda>proto.
                Inr (xid OR push_bit XETH_ENCAP_VLAN_VID_BIT (ucast (tci AND XETH_VLAN_VID_MASK)),
                     skb_pull_inline VLAN_HLEN (s\<lparr>skb_protocol := proto\<rparr>))))
         else Inr (xid, s))"

definition xeth_mux_demux_vlan :: "kapi \<Rightarrow> ndp \<Rightarrow> skb \<Rightarrow> world \<Rightarrow> world outcome" where
  "xeth_mux_demux_vlan k m s w =
     bindR (demux_xid s) (\<lambda>(xid, s).
       case xeth_mux_proxy_of_xid k m w xid of
         None \<Rightarrow> Inr (kfree_skb s (count_stat m RX_NOHANDLER (count_stat m RX_ERRORS w)))
       | Some q \<Rightarrow>
           if nd_flags (w_nd w (px_nd (w_proxy w q))) AND IFF_UP \<noteq> 0
           then bindR (demux_rebuild s) (\<lambda>s. Inr (demux_forward k m (px_nd (w_proxy w q)) s w))
           else Inr (kfree_skb s (count_stat m RX_DROPPED w)))"

text \<open>The receive handler of a lower; its result is always \<^verbatim>\<open>RX_HANDLER_CONSUMED\<close>.\<close>

definition xeth_mux_demux :: "kapi \<Rightarrow> skb \<Rightarrow> world \<Rightarrow> world outcome" where
  "xeth_mux_demux k s w =
     (case nd_rx_handler_data (w_nd w (skb_dev s)) of
        None \<Rightarrow> Inl Null_deref
      | Some m \<Rightarrow>
          if eth_type_vlan (skb_vlan_proto s) then xeth_mux_demux_vlan k m s w
          else Inr (kfree_skb s (count_stat m RX_FRAME_ERRORS (count_stat m RX_ERRORS w))))"

section \<open>Transmission\<close>

definition xeth_mux_was_vlan_exception :: "kapi \<Rightarrow> ndp \<Rightarrow> skb \<Rightarrow> world \<Rightarrow> (bool \<times> world) outcome" where
  "xeth_mux_was_vlan_exception k m s w =
     bindR (load_be16 12 s) (\<lambda>h_vlan_proto.
       if \<not> eth_type_vlan h_vlan_proto then Inr (False, w)
       else bindR (load_be16 16 s) (\<lambda>h_vlan_encapsulated_proto.
            bindR (load_be16 14 s) (\<lambda>tci.
              if \<not> xeth_vlan_tci_is_exception tci then Inr (False, w)
              else let w = upd_mux m (upd_counters (xeth_mux_inc ex_frames)) w;
                       w = upd_mux m (upd_counters (xeth_mux_add ex_bytes (of_nat (skb_len s)))) w;
                       s = k_eth_type_trans k s m;
                       s = s\<lparr>skb_vlan_proto := h_vlan_proto,
                             skb_vlan_tci := tci AND NOT XETH_VLAN_PRIO_MASK,
                             skb_protocol := h_vlan_encapsulated_proto\<rparr>;
                       s = skb_pull_inline VLAN_HLEN s
                   in bindR (xeth_mux_demux_vlan k m s w) (\<lambda>w. Inr (True, w)))))"

definition vlan_xmit_link :: "kapi \<Rightarrow> ndp \<Rightarrow> skb \<Rightarrow> world \<Rightarrow> world" where
  "vlan_xmit_link k m s w =
     (let len = of_nat (skb_len s) in
      case mx_link (w_mux w m) ! xeth_mux_link_hash_vlan k s of
        Some link \<Rightarrow>
          if nd_flags (w_nd w link) AND IFF_UP \<noteq> 0
          then let (err, w) = dev_queue_xmit k (s\<lparr>skb_dev := link\<rparr>) w
               in if err \<noteq> 0 then count_stat m TX_DROPPED w
                  else add_stat m TX_BYTES len (count_stat m TX_PACKETS w)
          else kfree_skb s (count_stat m TX_HEARTBEAT_ERRORS (count_stat m TX_ERRORS w))
      | None \<Rightarrow>
          let s = s\<lparr>skb_dev := m\<rparr>; (ok, w) = dev_forward_skb k m s w
          in if ok then add_stat m RX_BYTES len (count_stat m RX_PACKETS w)
             else kfree_skb s (count_stat m TX_ABORTED_ERRORS (count_stat m TX_ERRORS w)))"

definition xeth_mux_vlan_xmit :: "kapi \<Rightarrow> skb \<Rightarrow> ndp \<Rightarrow> world \<Rightarrow> (int \<times> world) outcome" where
  "xeth_mux_vlan_xmit k s m w =
     bindR (xeth_mux_was_vlan_exception k m s w) (\<lambda>(was, w).
       Inr (NETDEV_TX_OK, if was then w else vlan_xmit_link k m s w))"

definition xeth_mux_xmit :: "kapi \<Rightarrow> skb \<Rightarrow> ndp \<Rightarrow> world \<Rightarrow> (int \<times> world) outcome" where
  "xeth_mux_xmit k s m w =
     (case mx_encap (w_mux w m) of
        XETH_ENCAP_VLAN \<Rightarrow> xeth_mux_vlan_xmit k s m w
      | XETH_ENCAP_VPLS \<Rightarrow> Inr (NETDEV_TX_OK, kfree_skb s (count_stat m TX_DROPPED w)))"

text \<open>The tagging part of \<^verbatim>\<open>xeth_mux_vlan_encap_xmit\<close>: two tags for a vlan proxy, one for the others.\<close>

definition encap_tags :: "kapi \<Rightarrow> xeth_proxy \<Rightarrow> skb \<Rightarrow> skb option" where
  "encap_tags k px s =
     (if px_kind px = XETH_DEV_KIND_VLAN
      then case k_vlan_insert_tag_set_proto k s ETH_P_8021Q
                  (ucast (drop_bit XETH_ENCAP_VLAN_VID_BIT (px_xid px))) of
             None \<Rightarrow> None
           | Some s \<Rightarrow> k_vlan_insert_tag_set_proto k s ETH_P_8021AD
                  (ucast (px_xid px AND XETH_ENCAP_VLAN_VID_MASK))
      else k_vlan_insert_tag_set_proto k s ETH_P_8021Q (ucast (px_xid px AND XETH_ENCAP_VLAN_VID_MASK)))"

definition xeth_mux_vlan_encap_xmit :: "kapi \<Rightarrow> skb \<Rightarrow> ndp \<Rightarrow> world \<Rightarrow> (int \<times> world) outcome" where
  "xeth_mux_vlan_encap_xmit k s nd w =
     (case px_mux (w_proxy w nd) of
        None \<Rightarrow> Inl Null_deref
      | Some m \<Rightarrow> Inr (NETDEV_TX_OK,
          case encap_tags k (w_proxy w nd) s of
            None \<Rightarrow> w
          | Some s \<Rightarrow>
              let s = s\<lparr>skb_dev := m\<rparr> in
              if nd_flags (w_nd w m) AND IFF_UP \<noteq> 0 then snd (dev_queue_xmit k s w)
              else kfree_skb s (count_stat m TX_CARRIER_ERRORS (count_stat m TX_ERRORS w))))"

definition xeth_mux_encap :: "ndp option \<Rightarrow> world \<Rightarrow> xeth_encap outcome" where
  "xeth_mux_encap m w = (case m of None \<Rightarrow> Inl Null_deref | Some m \<Rightarrow> Inr (mx_encap (w_mux w m)))"

definition xeth_mux_encap_xmit :: "kapi \<Rightarrow> skb \<Rightarrow> ndp \<Rightarrow> world \<Rightarrow> (int \<times> world) outcome" where
  "xeth_mux_encap_xmit k s nd w =
     bindR (xeth_mux_encap (px_mux (w_proxy w nd)) w) (\<lambda>encap.
       case encap of
         XETH_ENCAP_VLAN \<Rightarrow> xeth_mux_vlan_encap_xmit k s nd w
       | XETH_ENCAP_VPLS \<Rightarrow> Inr (NETDEV_TX_OK, kfree_skb s
           (upd_proxy nd (\<lambda>px. px\<lparr>px_link_stats := xeth_inc_stat TX_DROPPED (px_link_stats px)\<rparr>) w)))"

definition xeth_mux_get_stats64 :: "ndp \<Rightarrow> world \<Rightarrow> rtnl_link_stats64" where
  "xeth_mux_get_stats64 m w = xeth_link_stats (mx_link_stats (w_mux w m))"

definition xeth_proxy_start_xmit :: "kapi \<Rightarrow> skb \<Rightarrow> ndp \<Rightarrow> world \<Rightarrow> (int \<times> world) outcome" where
  "xeth_proxy_start_xmit k s nd w =
     (if nd_carrier (w_nd w nd) then xeth_mux_encap_xmit k s nd w
      else Inr (NETDEV_TX_OK, kfree_skb s w))"

section \<open>What the kernel helpers promise\<close>

text \<open>
  \<^verbatim>\<open>vlan_insert_tag_set_proto\<close> inserts a tag after the two addresses and sets the protocol;
  \<^verbatim>\<open>eth_type_trans\<close> marks the MAC header, pulls it and sets the device.
\<close>

definition vlan_insert_ok :: "kapi \<Rightarrow> bool" where
  "vlan_insert_ok k \<longleftrightarrow> (\<forall>s proto tci s'. ETH_HLEN \<le> skb_len s \<longrightarrow>
     k_vlan_insert_tag_set_proto k s proto tci = Some s' \<longrightarrow>
     frame_of s' = take 12 (frame_of s) @ be16 proto @ be16 tci @ drop 12 (frame_of s)
     \<and> skb_protocol s' = proto)"

definition eth_type_trans_ok :: "kapi \<Rightarrow> bool" where
  "eth_type_trans_ok k \<longleftrightarrow> (\<forall>s d. ETH_HLEN \<le> skb_len s \<longrightarrow>
     k_eth_type_trans k s d = s\<lparr>skb_dev := d, skb_mac := skb_data s, skb_data := skb_data s + ETH_HLEN\<rparr>)"

section \<open>Bytes of a frame\<close>

lemma length_frame_of [simp]: "length (frame_of s) = skb_len s"
  by (simp add: frame_of_def skb_len_def)

lemma length_be16 [simp]: "length (be16 x) = 2"
  by (simp add: be16_def)

lemma be16_roundtrip [simp]: "le_word (rev (be16 x)) = x"
  by (simp add: be16_def)

lemma be16_inj [simp]: "be16 x = be16 y \<longleftrightarrow> x = y"
  by (metis be16_roundtrip)

lemma load_be16_frame:
  "load_be16 off s = (if off + 2 \<le> skb_len s then Inr (le_word (rev (take 2 (drop off (frame_of s)))))
     else Inl Out_of_bounds)"
  by (auto simp: load_be16_def skb_len_def frame_of_def get_bytes_def add.commute)

lemma drop_put_bytes:
  "off + length bs \<le> length d \<Longrightarrow> drop off (put_bytes off bs d) = bs @ drop (off + length bs) d"
  by (rule nth_equalityI) (auto simp: nth_put_bytes nth_append)

lemma drop_put_bytes_later:
  "i \<le> off \<Longrightarrow> drop i (put_bytes off bs d) = put_bytes (off - i) bs (drop i d)"
  by (rule nth_equalityI) (auto simp: nth_put_bytes add.commute)

lemma put_bytes_append_later:
  "length xs \<le> off \<Longrightarrow> put_bytes off bs (xs @ d) = xs @ put_bytes (off - length xs) bs d"
  by (rule nth_equalityI) (auto simp: nth_put_bytes nth_append)

lemma put_bytes_0: "length bs \<le> length d \<Longrightarrow> put_bytes 0 bs d = bs @ drop (length bs) d"
  using drop_put_bytes[of 0 bs d] by simp

text \<open>The rebuilt frame: the addresses of the MAC header, the protocol, and the payload.\<close>

lemma demux_rebuild_frame:
  assumes "skb_data s = skb_mac s + n + 14" and "skb_data s \<le> length (skb_buf s)"
  shows "\<exists>t. demux_rebuild s = Inr t \<and> skb_vlan_tci t = 0 \<and> skb_vlan_proto t = 0
    \<and> frame_of t = take 12 (drop (skb_mac s) (skb_buf s)) @ be16 (skb_protocol s) @ frame_of s"
proof -
  let ?d = "skb_mac s + n" and ?b = "skb_buf s"
  let ?a = "get_bytes (skb_mac s) 12 ?b"
  have "drop ?d (put_bytes (?d + 12) (be16 (skb_protocol s)) (put_bytes ?d ?a ?b))
      = put_bytes 12 (be16 (skb_protocol s)) (?a @ drop (?d + 12) ?b)"
    using assms by (simp add: drop_put_bytes_later put_bytes_0 add.commute)
  also have "\<dots> = ?a @ be16 (skb_protocol s) @ drop (?d + 14) ?b"
    using assms by (simp add: put_bytes_append_later put_bytes_0 add.commute)
  finally show ?thesis
    using assms by (simp add: demux_rebuild_def skb_push_def ETH_HLEN_def frame_of_def get_bytes_def)
qed

lemma demux_xid_one_tag:
  "\<not> eth_type_vlan (skb_protocol s) \<Longrightarrow> demux_xid s =
     Inr (ucast (skb_vlan_tci s AND XETH_VLAN_VID_MASK),
          s\<lparr>skb_priority := ucast (drop_bit XETH_VLAN_PRIO_SHIFT (skb_vlan_tci s))\<rparr>)"
  by (simp add: demux_xid_def)

lemma demux_xid_two_tags:
  assumes "eth_type_vlan (skb_protocol s)" and "frame_of s = be16 tci @ be16 proto @ rest"
  shows "demux_xid s =
     Inr (ucast (skb_vlan_tci s AND XETH_VLAN_VID_MASK) OR
            push_bit XETH_ENCAP_VLAN_VID_BIT (ucast (tci AND XETH_VLAN_VID_MASK)),
          s\<lparr>skb_priority := ucast (drop_bit XETH_VLAN_PRIO_SHIFT (skb_vlan_tci s)),
            skb_protocol := proto, skb_data := skb_data s + VLAN_HLEN\<rparr>)"
proof -
  have len: "skb_len s = 4 + length rest"
    using arg_cong[OF assms(2), of length] by simp
  then have "load_be16 0 (s\<lparr>skb_priority := p\<rparr>) = Inr tci" "load_be16 2 (s\<lparr>skb_priority := p\<rparr>) = Inr proto"
    for p using assms(2) by (simp_all add: load_be16_frame skb_len_def frame_of_def)
  with len show ?thesis
    using assms(1) by (simp add: demux_xid_def skb_pull_inline_def skb_len_def VLAN_HLEN_def)
qed

section \<open>XIDs in tags\<close>

lemma encap_vid_mask: "XETH_ENCAP_VLAN_VID_MASK = mask 12"
  by (simp add: XETH_ENCAP_VLAN_VID_MASK_def XETH_ENCAP_VLAN_VID_BIT_def mask_eq_exp_minus_1)

lemma vlan_vid_mask: "XETH_VLAN_VID_MASK = mask 12"
  by (simp add: XETH_VLAN_VID_MASK_def mask_eq_exp_minus_1)

lemma bit_small: "unat (x :: 'a::len word) < 2 ^ n \<Longrightarrow> bit x i \<Longrightarrow> i < n"
  by (metis and_mask_small bit_and_iff bit_mask_iff)

text \<open>The XID read from the tags that carry it, with the exception priority in the outer tag.\<close>

lemma xid_of_one_tag:
  fixes x :: u32
  assumes "unat x < 2 ^ 12"
  shows "ucast ((((ucast (x AND XETH_ENCAP_VLAN_VID_MASK) :: u16) OR XETH_VLAN_PRIO_MASK)
      AND NOT XETH_VLAN_PRIO_MASK) AND XETH_VLAN_VID_MASK) = x"
  by (rule bit_word_eqI)
    (auto simp: bit_simps encap_vid_mask vlan_vid_mask bit_prio_mask bit_small[OF assms]
      dest: bit_small[OF assms])

lemma xid_of_two_tags:
  fixes x :: u32
  assumes "unat x < 2 ^ 24"
  shows "ucast ((((ucast (x AND XETH_ENCAP_VLAN_VID_MASK) :: u16) OR XETH_VLAN_PRIO_MASK)
        AND NOT XETH_VLAN_PRIO_MASK) AND XETH_VLAN_VID_MASK) OR
      push_bit XETH_ENCAP_VLAN_VID_BIT
        (ucast ((ucast (drop_bit XETH_ENCAP_VLAN_VID_BIT x) :: u16) AND XETH_VLAN_VID_MASK)) = x"
proof (rule bit_word_eqI)
  fix i assume "i < LENGTH(32)"
  then show "bit (ucast ((((ucast (x AND XETH_ENCAP_VLAN_VID_MASK) :: u16) OR XETH_VLAN_PRIO_MASK)
        AND NOT XETH_VLAN_PRIO_MASK) AND XETH_VLAN_VID_MASK) OR
      push_bit XETH_ENCAP_VLAN_VID_BIT
        (ucast ((ucast (drop_bit XETH_ENCAP_VLAN_VID_BIT x) :: u16) AND XETH_VLAN_VID_MASK)) :: u32) i
      \<longleftrightarrow> bit x i"
    by (cases "i < 12") (auto simp: bit_simps encap_vid_mask vlan_vid_mask bit_prio_mask
      XETH_ENCAP_VLAN_VID_BIT_def dest: bit_small[OF assms])
qed

lemma exception_or_prio [simp]: "xeth_vlan_tci_is_exception (v OR XETH_VLAN_PRIO_MASK)"
  by (auto simp: xeth_vlan_tci_is_exception_def word_and_absorb_iff bit_simps)

lemma vid_not_exception [simp]:
  "\<not> xeth_vlan_tci_is_exception (ucast (x AND XETH_ENCAP_VLAN_VID_MASK :: u32))"
  by (auto simp: xeth_vlan_tci_is_exception_def word_and_absorb_iff bit_simps bit_prio_mask
      encap_vid_mask)

lemma eth_type_vlan_tpids [simp]: "eth_type_vlan ETH_P_8021Q" "eth_type_vlan ETH_P_8021AD"
  by (simp_all add: eth_type_vlan_def)

section \<open>Tagged frames\<close>

text \<open>The frame that a proxy's encapsulation puts on the mux, and its exception form.\<close>

definition tag_frame :: "xeth_proxy \<Rightarrow> u8 list \<Rightarrow> u8 list" where
  "tag_frame px f =
     (let vid = be16 (ucast (px_xid px AND XETH_ENCAP_VLAN_VID_MASK)) in
      if px_kind px = XETH_DEV_KIND_VLAN
      then take 12 f @ be16 ETH_P_8021AD @ vid @ be16 ETH_P_8021Q
             @ be16 (ucast (drop_bit XETH_ENCAP_VLAN_VID_BIT (px_xid px))) @ drop 12 f
      else take 12 f @ be16 ETH_P_8021Q @ vid @ drop 12 f)"

definition set_exception :: "u8 list \<Rightarrow> u8 list" where
  "set_exception f = take 14 f @ be16 (le_word (rev (take 2 (drop 14 f))) OR XETH_VLAN_PRIO_MASK) @ drop 16 f"

definition ethertype :: "u8 list \<Rightarrow> u16" where
  "ethertype f = le_word (rev (take 2 (drop 12 f)))"

text \<open>
  The XIDs that the tags can carry: 24 bits for a vlan proxy, 12 bits for the others, whose frames
  must not themselves start with a VLAN tag (the driver marks its devices VLAN challenged).
\<close>

definition xid_fits :: "xeth_proxy \<Rightarrow> u8 list \<Rightarrow> bool" where
  "xid_fits px f \<longleftrightarrow>
     (if px_kind px = XETH_DEV_KIND_VLAN then unat (px_xid px) < 2 ^ 24
      else unat (px_xid px) < 2 ^ 12 \<and> \<not> eth_type_vlan (ethertype f))"

lemma encap_tags_frame:
  assumes "vlan_insert_ok k" and "ETH_HLEN \<le> skb_len s" and "encap_tags k px s = Some s'"
  shows "frame_of s' = tag_frame px (frame_of s)"
proof (cases "px_kind px = XETH_DEV_KIND_VLAN")
  case True
  with assms(3) obtain s1 where s1: "k_vlan_insert_tag_set_proto k s ETH_P_8021Q
      (ucast (drop_bit XETH_ENCAP_VLAN_VID_BIT (px_xid px))) = Some s1"
    "k_vlan_insert_tag_set_proto k s1 ETH_P_8021AD (ucast (px_xid px AND XETH_ENCAP_VLAN_VID_MASK)) = Some s'"
    by (auto simp: encap_tags_def split: option.splits)
  have f1: "frame_of s1 = take 12 (frame_of s) @ be16 ETH_P_8021Q
      @ be16 (ucast (drop_bit XETH_ENCAP_VLAN_VID_BIT (px_xid px))) @ drop 12 (frame_of s)"
    using assms(1,2) s1(1) unfolding vlan_insert_ok_def by blast
  then have "length (frame_of s1) \<ge> ETH_HLEN" using assms(2) by (simp add: ETH_HLEN_def)
  then have "frame_of s' = take 12 (frame_of s1) @ be16 ETH_P_8021AD
      @ be16 (ucast (px_xid px AND XETH_ENCAP_VLAN_VID_MASK)) @ drop 12 (frame_of s1)"
    using assms(1) s1(2) unfolding vlan_insert_ok_def length_frame_of by blast
  with f1 True assms(2) show ?thesis by (simp add: tag_frame_def ETH_HLEN_def Let_def)
next
  case False
  with assms have "frame_of s' = take 12 (frame_of s) @ be16 ETH_P_8021Q
      @ be16 (ucast (px_xid px AND XETH_ENCAP_VLAN_VID_MASK)) @ drop 12 (frame_of s)"
    unfolding vlan_insert_ok_def encap_tags_def by (simp split: if_splits)
  with False show ?thesis by (simp add: tag_frame_def Let_def)
qed

text \<open>Transmitting a frame with the exception priority on the mux demultiplexes it.\<close>

definition looped_skb :: "ndp \<Rightarrow> skb \<Rightarrow> u16 \<Rightarrow> u16 \<Rightarrow> u16 \<Rightarrow> skb" where
  "looped_skb m t tpid tci proto = t\<lparr>skb_dev := m, skb_mac := skb_data t, skb_data := skb_data t + 18,
     skb_vlan_proto := tpid, skb_vlan_tci := tci AND NOT XETH_VLAN_PRIO_MASK, skb_protocol := proto\<rparr>"

lemma loads_of_tagged:
  assumes "frame_of t = a @ be16 tpid @ be16 tci @ be16 proto @ rest" and "length a = 12"
  shows "load_be16 12 t = Inr tpid" "load_be16 14 t = Inr tci" "load_be16 16 t = Inr proto"
    "skb_len t = 18 + length rest"
proof -
  show "skb_len t = 18 + length rest"
    using arg_cong[OF assms(1), of length] assms(2) by simp
  then show "load_be16 12 t = Inr tpid" "load_be16 14 t = Inr tci" "load_be16 16 t = Inr proto"
    using assms by (simp_all add: load_be16_frame)
qed

lemma exception_is_demuxed:
  assumes "eth_type_trans_ok k" and "frame_of t = a @ be16 tpid @ be16 tci @ be16 proto @ rest"
    and "length a = 12" and "eth_type_vlan tpid" and "xeth_vlan_tci_is_exception tci"
  shows "xeth_mux_was_vlan_exception k m t w =
    bindR (xeth_mux_demux_vlan k m (looped_skb m t tpid tci proto)
      (upd_mux m (upd_counters (xeth_mux_add ex_bytes (of_nat (skb_len t))))
        (upd_mux m (upd_counters (xeth_mux_inc ex_frames)) w))) (\<lambda>w. Inr (True, w))"
proof -
  note l = loads_of_tagged[OF assms(2,3)]
  have "k_eth_type_trans k t m = t\<lparr>skb_dev := m, skb_mac := skb_data t, skb_data := skb_data t + 14\<rparr>"
    using assms(1) l(4) by (simp add: eth_type_trans_ok_def ETH_HLEN_def)
  moreover have "skb_pull_inline VLAN_HLEN (t\<lparr>skb_dev := m, skb_mac := skb_data t,
      skb_data := skb_data t + 14, skb_vlan_proto := tpid,
      skb_vlan_tci := tci AND NOT XETH_VLAN_PRIO_MASK, skb_protocol := proto\<rparr>) =
      looped_skb m t tpid tci proto"
    using l(4) by (simp add: skb_pull_inline_def skb_len_def VLAN_HLEN_def looped_skb_def)
  ultimately show ?thesis
    using l(1-3) assms(4,5) by (simp add: xeth_mux_was_vlan_exception_def Let_def)
qed

lemma demux_vlan_delivers:
  assumes "demux_xid s = Inr (xid, s')" and "xeth_mux_proxy_of_xid k m w xid = Some q"
    and "nd_flags (w_nd w (px_nd (w_proxy w q))) AND IFF_UP \<noteq> 0"
    and "skb_data s' = skb_mac s' + n + 14" and "skb_data s' \<le> length (skb_buf s')"
  shows "\<exists>u. xeth_mux_demux_vlan k m s w = Inr (demux_forward k m (px_nd (w_proxy w q)) u w)
    \<and> frame_of u = take 12 (drop (skb_mac s') (skb_buf s')) @ be16 (skb_protocol s') @ frame_of s'"
  using demux_rebuild_frame[OF assms(4,5)] assms(1-3) by (auto simp: xeth_mux_demux_vlan_def)

lemma demux_forward_trace [simp]:
  "w_trace (demux_forward k m nd s w) = w_trace w @ [Ev_forward nd s]"
  by (simp add: demux_forward_def dev_forward_skb_def count_stat_def add_stat_def Let_def)

lemma lookup_counters [simp]:
  "xeth_mux_proxy_of_xid k m (upd_mux m (upd_counters f) w) = xeth_mux_proxy_of_xid k m w"
  by (simp add: xeth_mux_proxy_of_xid_def fun_eq_iff)

lemma split_frame:
  assumes "14 \<le> length f"
  shows "f = take 12 f @ be16 (ethertype f) @ drop 14 f"
proof -
  have "be16 (ethertype f) = take 2 (drop 12 f)"
    using assms by (simp add: ethertype_def be16_def le_bytes_le_word)
  moreover have "drop 12 f = take 2 (drop 12 f) @ drop 14 f"
    using append_take_drop_id[of 2 "drop 12 f"] by simp
  ultimately show ?thesis by (metis append_take_drop_id)
qed

lemma encap_xmit_trace:
  assumes "xeth_mux_encap_xmit k s q w = Inr (r, w1)" and "px_mux (w_proxy w q) = Some m"
    and "w_trace w1 = w_trace w @ [Ev_queue_xmit m s']"
  shows "\<exists>s1. encap_tags k (w_proxy w q) s = Some s1 \<and> frame_of s' = frame_of s1"
  using assms
  by (auto simp: xeth_mux_encap_xmit_def xeth_mux_encap_def xeth_mux_vlan_encap_xmit_def Let_def
      dev_queue_xmit_def kfree_skb_def count_stat_def frame_of_def bindR_eq_Inr
      split: option.splits xeth_encap.splits if_splits)

lemma loop_delivers:
  assumes "eth_type_trans_ok k" and "frame_of t = a @ be16 tpid @ be16 tci @ be16 proto @ rest"
    and "length a = 12" and "eth_type_vlan tpid" and "xeth_vlan_tci_is_exception tci"
    and xid: "demux_xid (looped_skb m t tpid tci proto) = Inr (x, s')"
    and s': "skb_mac s' = skb_data t" "skb_buf s' = skb_buf t" "skb_data s' = skb_data t + n + 14"
    and n: "n + 14 \<le> skb_len t" and q: "xeth_mux_proxy_of_xid k m w x = Some q"
    and up: "nd_flags (w_nd w (px_nd (w_proxy w q))) AND IFF_UP \<noteq> 0"
  shows "\<exists>u w'. xeth_mux_was_vlan_exception k m t w = Inr (True, w')
     \<and> frame_of u = a @ be16 (skb_protocol s') @ drop (n + 14) (frame_of t)
     \<and> w_trace w' = w_trace w @ [Ev_forward (px_nd (w_proxy w q)) u]"
proof -
  let ?w = "upd_mux m (upd_counters (xeth_mux_add ex_bytes (of_nat (skb_len t))))
        (upd_mux m (upd_counters (xeth_mux_inc ex_frames)) w)"
  have "skb_data s' \<le> length (skb_buf s')" using s' n by (simp add: skb_len_def)
  moreover have "xeth_mux_proxy_of_xid k m ?w x = Some q" unfolding lookup_counters by (rule q)
  ultimately obtain u where u: "xeth_mux_demux_vlan k m (looped_skb m t tpid tci proto) ?w
      = Inr (demux_forward k m (px_nd (w_proxy w q)) u ?w)"
    "frame_of u = take 12 (drop (skb_mac s') (skb_buf s')) @ be16 (skb_protocol s') @ frame_of s'"
    using demux_vlan_delivers[OF xid, of k m ?w q n] up s' by auto
  moreover have "take 12 (drop (skb_mac s') (skb_buf s')) = a"
    using assms(2,3) s' by (simp add: frame_of_def)
  moreover have "frame_of s' = drop (n + 14) (frame_of t)"
    using s' by (simp add: frame_of_def ac_simps)
  ultimately show ?thesis
    unfolding exception_is_demuxed[OF assms(1-5)] by (intro exI[of _ u]) simp
qed

lemma set_exception_at:
  "length a = 12 \<Longrightarrow> set_exception (a @ be16 tpid @ be16 v @ rest) =
     a @ be16 tpid @ be16 (v OR XETH_VLAN_PRIO_MASK) @ rest"
  by (simp add: set_exception_def)

lemma exception_frame_demuxed:
  assumes "eth_type_trans_ok k" and "14 \<le> length f" and fits: "xid_fits (w_proxy w q) f"
    and ft: "frame_of t = set_exception (tag_frame (w_proxy w q) f)"
    and q: "xeth_mux_proxy_of_xid k m w (px_xid (w_proxy w q)) = Some q"
    and up: "nd_flags (w_nd w (px_nd (w_proxy w q))) AND IFF_UP \<noteq> 0"
  shows "\<exists>u w'. xeth_mux_was_vlan_exception k m t w = Inr (True, w') \<and> frame_of u = f
     \<and> w_trace w' = w_trace w @ [Ev_forward (px_nd (w_proxy w q)) u]"
proof -
  let ?x = "px_xid (w_proxy w q)"
  let ?tci = "ucast (?x AND XETH_ENCAP_VLAN_VID_MASK) OR XETH_VLAN_PRIO_MASK :: u16"
    and ?inner = "ucast (drop_bit XETH_ENCAP_VLAN_VID_BIT ?x) :: u16"
  have a: "length (take 12 f) = 12" using assms(2) by simp
  have f: "drop 12 f = be16 (ethertype f) @ drop 14 f"
    using split_frame[OF assms(2)] a by (metis append_eq_conv_conj)
  note tx = loop_delivers[OF assms(1) _ a _ exception_or_prio _ _ _ _ _ _ up]
  show ?thesis
  proof (cases "px_kind (w_proxy w q) = XETH_DEV_KIND_VLAN")
    case True
    have ft': "frame_of t = take 12 f @ be16 ETH_P_8021AD @ be16 ?tci @ be16 ETH_P_8021Q
        @ be16 ?inner @ be16 (ethertype f) @ drop 14 f"
      using True a by (simp add: ft tag_frame_def Let_def set_exception_at f)
    let ?s = "looped_skb m t ETH_P_8021AD ?tci ETH_P_8021Q"
    have "frame_of ?s = drop 18 (frame_of t)" by (simp add: looped_skb_def frame_of_def ac_simps)
    then have fs: "frame_of ?s = be16 ?inner @ be16 (ethertype f) @ drop 14 f"
      unfolding ft' using a by simp
    have "eth_type_vlan (skb_protocol ?s)" by (simp add: looped_skb_def)
    from demux_xid_two_tags[OF this fs] have "demux_xid ?s = Inr (?x, ?s
        \<lparr>skb_priority := ucast (drop_bit XETH_VLAN_PRIO_SHIFT (skb_vlan_tci ?s)),
         skb_protocol := ethertype f, skb_data := skb_data ?s + VLAN_HLEN\<rparr>)"
      using fits True by (simp add: looped_skb_def xid_of_two_tags xid_fits_def)
    from tx[OF ft' _ this _ _ _ _ q, of 8] show ?thesis
      using a f loads_of_tagged(4)[OF ft' a] unfolding ft'
      by (simp add: looped_skb_def VLAN_HLEN_def) (metis append_take_drop_id)
  next
    case False
    have ft': "frame_of t = take 12 f @ be16 ETH_P_8021Q @ be16 ?tci @ be16 (ethertype f) @ drop 14 f"
      using False a by (simp add: ft tag_frame_def Let_def set_exception_at f)
    let ?s = "looped_skb m t ETH_P_8021Q ?tci (ethertype f)"
    have "\<not> eth_type_vlan (skb_protocol ?s)" using fits False by (simp add: looped_skb_def xid_fits_def)
    from demux_xid_one_tag[OF this] have "demux_xid ?s = Inr (?x, ?s
        \<lparr>skb_priority := ucast (drop_bit XETH_VLAN_PRIO_SHIFT (skb_vlan_tci ?s))\<rparr>)"
      using fits False by (simp add: looped_skb_def xid_of_one_tag xid_fits_def)
    from tx[OF ft' _ this _ _ _ _ q, of 4] show ?thesis
      using a f loads_of_tagged(4)[OF ft' a] unfolding ft'
      by (simp add: looped_skb_def) (metis append_take_drop_id)
  qed
qed

section \<open>Ownership and accounting\<close>

text \<open>The calls that take over a socket buffer.\<close>

fun skb_taken :: "kevent \<Rightarrow> bool" where
  "skb_taken (Ev_queue_xmit _ _) = True"
| "skb_taken (Ev_forward _ _) = True"
| "skb_taken (Ev_kfree _) = True"
| "skb_taken _ = False"

definition rx_seen :: "ndp \<Rightarrow> world \<Rightarrow> u64" where
  "rx_seen m w = (let ls = mx_link_stats (w_mux w m) in
     xeth_get_stat RX_PACKETS ls + xeth_get_stat RX_ERRORS ls + xeth_get_stat RX_DROPPED ls)"

lemmas frame_effects = kfree_skb_def count_stat_def add_stat_def dev_forward_skb_def dev_queue_xmit_def

abbreviation stats_ok :: "ndp \<Rightarrow> world \<Rightarrow> bool" where
  "stats_ok m w \<equiv> length (mx_link_stats (w_mux w m)) = XETH_N_LINK_STAT"

lemma stat_effects [simp]:
  "w_trace (count_stat m st w) = w_trace w" "w_trace (add_stat m st n w) = w_trace w"
  "length (mx_link_stats (w_mux (count_stat m st w) m)) = length (mx_link_stats (w_mux w m))"
  "w_trace (kfree_skb s w) = w_trace w @ [Ev_kfree s]" "w_mux (kfree_skb s w) = w_mux w"
  by (simp_all add: frame_effects)

lemma rx_seen_effects:
  "stats_ok m w \<Longrightarrow> rx_seen m (count_stat m st w) =
     rx_seen m w + (if st \<in> {RX_PACKETS, RX_ERRORS, RX_DROPPED} then 1 else 0)"
  "stats_ok m w \<Longrightarrow> rx_seen m (add_stat m RX_BYTES n w) = rx_seen m w"
  "rx_seen m (kfree_skb s w) = rx_seen m w"
  by (auto simp: rx_seen_def frame_effects counter_gets Let_def)

lemma demux_forward_once: "stats_ok m w \<Longrightarrow> rx_seen m (demux_forward k m nd s w) = rx_seen m w + 1"
  by (simp add: demux_forward_def Let_def dev_forward_skb_def rx_seen_effects) (simp add: rx_seen_def)

lemma demux_vlan_once:
  assumes "xeth_mux_demux_vlan k m s w = Inr w'" and "stats_ok m w"
  shows "(\<exists>e. skb_taken e \<and> w_trace w' = w_trace w @ [e]) \<and> rx_seen m w' = rx_seen m w + 1"
  using assms
  by (auto simp: xeth_mux_demux_vlan_def bindR_eq_Inr demux_forward_once rx_seen_effects
      split: option.splits if_splits)

lemma was_exception_once:
  assumes "xeth_mux_was_vlan_exception k m s w = Inr (b, w')"
    and "stats_ok m w"
  shows "if b then \<exists>e. skb_taken e \<and> w_trace w' = w_trace w @ [e] else w' = w"
proof (cases b)
  case True
  with assms(1) obtain t w1 where "xeth_mux_demux_vlan k m t w1 = Inr w'"
    "w_trace w1 = w_trace w" "mx_link_stats (w_mux w1 m) = mx_link_stats (w_mux w m)"
    by (auto simp: xeth_mux_was_vlan_exception_def bindR_eq_Inr Let_def split: if_splits)
  with demux_vlan_once[of k m t w1 w'] assms(2) True show ?thesis by simp
next
  case False
  with assms(1) show ?thesis
    by (auto simp: xeth_mux_was_vlan_exception_def bindR_eq_Inr Let_def split: if_splits)
qed

lemma encap_not_exception:
  assumes "14 \<le> length f" and "frame_of t = tag_frame px f"
  shows "xeth_mux_was_vlan_exception k m t w = Inr (False, w)"
proof -
  let ?v = "ucast (px_xid px AND XETH_ENCAP_VLAN_VID_MASK) :: u16"
  have a: "length (take 12 f) = 12" using assms(1) by simp
  have f: "drop 12 f = be16 (ethertype f) @ drop 14 f"
    using split_frame[OF assms(1)] a by (metis append_eq_conv_conj)
  obtain tpid proto rest where tp: "eth_type_vlan tpid"
    "frame_of t = take 12 f @ be16 tpid @ be16 ?v @ be16 proto @ rest"
    using assms(2) f by (cases "px_kind px = XETH_DEV_KIND_VLAN") (auto simp: tag_frame_def Let_def)
  from loads_of_tagged[OF tp(2) a] tp(1) show ?thesis
    by (simp add: xeth_mux_was_vlan_exception_def)
qed

section \<open>Properties\<close>

lemma sample_insert_ok: "vlan_insert_ok sample_kapi"
  by (auto simp: vlan_insert_ok_def sample_kapi_def frame_of_def skb_len_def ETH_HLEN_def be16_def
      drop_take add.commute)

lemma sample_trans_ok: "eth_type_trans_ok sample_kapi"
  by (simp add: eth_type_trans_ok_def sample_kapi_def)

text \<open>
  C1: What a proxy encapsulates comes back unchanged: take the frame that a proxy's transmit queues on
  the mux, set the exception priority in its outer tag (as the user space daemon does), and transmit it
  on the mux; the mux then delivers to exactly that proxy a frame equal, byte for byte, to the one
  that the proxy sent.
\<close>

theorem encap_exception_roundtrip:
  assumes "vlan_insert_ok k" and "eth_type_trans_ok k" and "mx_encap (w_mux w m) = XETH_ENCAP_VLAN"
    and "px_mux (w_proxy w q) = Some m" and "ETH_HLEN \<le> skb_len s" and "xid_fits (w_proxy w q) (frame_of s)"
    and "xeth_mux_encap_xmit k s q w = Inr (r, w1)" and "w_trace w1 = w_trace w @ [Ev_queue_xmit m s']"
    and "frame_of t = set_exception (frame_of s')"
    and "xeth_mux_proxy_of_xid k m w (px_xid (w_proxy w q)) = Some q"
    and "nd_flags (w_nd w (px_nd (w_proxy w q))) AND IFF_UP \<noteq> 0"
  shows "\<exists>u w'. xeth_mux_xmit k t m w = Inr (NETDEV_TX_OK, w') \<and> frame_of u = frame_of s
     \<and> w_trace w' = w_trace w @ [Ev_forward (px_nd (w_proxy w q)) u]"
proof -
  from encap_xmit_trace[OF assms(7,4,8)] encap_tags_frame[OF assms(1,5)]
  have "frame_of s' = tag_frame (w_proxy w q) (frame_of s)" by metis
  with exception_frame_demuxed[OF assms(2) _ assms(6) _ assms(10,11)] assms(5,9)
  obtain u w' where "xeth_mux_was_vlan_exception k m t w = Inr (True, w')" "frame_of u = frame_of s"
    "w_trace w' = w_trace w @ [Ev_forward (px_nd (w_proxy w q)) u]"
    by (fastforce simp: ETH_HLEN_def)
  with assms(3) show ?thesis by (auto simp: xeth_mux_xmit_def xeth_mux_vlan_xmit_def)
qed

definition sample_tagged :: skb where
  "sample_tagged = (the (encap_tags sample_kapi (sample_proxies 4) sample_skb))\<lparr>skb_dev := 1\<rparr>"

lemma sample_tagged_buf: "skb_data sample_tagged = 8" "skb_buf sample_tagged = replicate 8 0 @
    tag_frame (sample_proxies 4) (frame_of sample_skb)"
  by (simp_all add: sample_tagged_def encap_tags_def sample_kapi_def sample_skb_def sample_proxies_def
      tag_frame_def frame_of_def be16_def)

theorem encap_exception_roundtrip_witness:
  "\<exists>u w'. xeth_mux_xmit sample_kapi
       (sample_tagged\<lparr>skb_buf := replicate 8 0 @ set_exception (frame_of sample_tagged)\<rparr>) 1 sample_world
     = Inr (NETDEV_TX_OK, w') \<and> frame_of u = frame_of sample_skb \<and> w_trace w' = [Ev_forward 4 u]"
proof -
  have "xeth_mux_encap_xmit sample_kapi sample_skb 4 sample_world =
      Inr (NETDEV_TX_OK, log_event (Ev_queue_xmit 1 sample_tagged) sample_world)"
    by (simp add: xeth_mux_encap_xmit_def xeth_mux_encap_def xeth_mux_vlan_encap_xmit_def
        sample_tagged_def encap_tags_def sample_defs dev_queue_xmit_def IFF_UP_def)
  from encap_exception_roundtrip[OF sample_insert_ok sample_trans_ok _ _ _ _ this, of 1 sample_tagged
      "sample_tagged\<lparr>skb_buf := replicate 8 0 @ set_exception (frame_of sample_tagged)\<rparr>"]
  show ?thesis
    by (simp add: sample_tagged_buf xid_fits_def ETH_HLEN_def skb_len_def xeth_mux_proxy_of_xid_def)
       (simp add: sample_tagged_buf frame_of_def sample_defs IFF_UP_def)
qed

text \<open>
  C20: A frame that a proxy encapsulated is never mistaken for an exception: for every XID and frame it
  leaves the mux unmodified on the link of its hash when that link is up, whatever the proxies are.
\<close>

theorem encapsulated_frame_leaves_on_link:
  assumes "vlan_insert_ok k" and "mx_encap (w_mux w m) = XETH_ENCAP_VLAN" and "ETH_HLEN \<le> skb_len s"
    and "encap_tags k px s = Some t"
    and "mx_link (w_mux w m) ! xeth_mux_link_hash_vlan k t = Some link"
    and "nd_flags (w_nd w link) AND IFF_UP \<noteq> 0"
  shows "\<exists>w'. xeth_mux_xmit k t m w = Inr (NETDEV_TX_OK, w')
    \<and> w_trace w' = w_trace w @ [Ev_queue_xmit link (t\<lparr>skb_dev := link\<rparr>)]"
  using encap_not_exception[OF _ encap_tags_frame[OF assms(1,3,4)], of k m w] assms(2,3,5,6)
  by (simp add: xeth_mux_xmit_def xeth_mux_vlan_xmit_def vlan_xmit_link_def Let_def dev_queue_xmit_def
      ETH_HLEN_def)

theorem encapsulated_frame_leaves_on_link_witness:
  "\<exists>w'. xeth_mux_xmit (sample_kapi\<lparr>k_vlan_get_tag := (\<lambda>s. Some 3000)\<rparr>)
      (the (encap_tags sample_kapi (sample_proxies 4) sample_skb)) 1 sample_world = Inr (NETDEV_TX_OK, w')
    \<and> w_trace w' = [Ev_queue_xmit 8 ((the (encap_tags sample_kapi (sample_proxies 4) sample_skb))\<lparr>skb_dev := 8\<rparr>)]"
proof -
  let ?k = "sample_kapi\<lparr>k_vlan_get_tag := (\<lambda>s. Some 3000)\<rparr>"
  let ?t = "the (encap_tags sample_kapi (sample_proxies 4) sample_skb)"
  have "vlan_insert_ok ?k" using sample_insert_ok by (simp add: vlan_insert_ok_def)
  from encapsulated_frame_leaves_on_link[OF this, of sample_world 1 sample_skb "sample_proxies 4" ?t 8]
  show ?thesis
    by (simp add: encap_tags_def sample_defs skb_len_def ETH_HLEN_def xeth_mux_link_hash_vlan_def IFF_UP_def)
qed

text \<open>
  C19: The mux transmit always answers \<^verbatim>\<open>NETDEV_TX_OK\<close> and disposes of the socket buffer exactly once, with
  one exception: with no lower link and a failing loop back, the buffer that \<^verbatim>\<open>dev_forward_skb\<close> has
  already freed is freed a second time.
\<close>

theorem mux_xmit_disposes_once:
  assumes "xeth_mux_xmit k s m w = Inr (r, w')" and "length (mx_link_stats (w_mux w m)) = XETH_N_LINK_STAT"
  shows "r = NETDEV_TX_OK \<and>
    ((\<exists>e. skb_taken e \<and> w_trace w' = w_trace w @ [e]) \<or>
     (mx_link (w_mux w m) ! xeth_mux_link_hash_vlan k s = None
      \<and> \<not> k_dev_forward_skb k (w_trace w) m (s\<lparr>skb_dev := m\<rparr>)
      \<and> w_trace w' = w_trace w @ [Ev_forward m (s\<lparr>skb_dev := m\<rparr>), Ev_kfree (s\<lparr>skb_dev := m\<rparr>)]))"
proof (cases "mx_encap (w_mux w m)")
  case XETH_ENCAP_VLAN
  with assms(1) obtain b w1 where b: "xeth_mux_was_vlan_exception k m s w = Inr (b, w1)"
    "r = NETDEV_TX_OK" "w' = (if b then w1 else vlan_xmit_link k m s w1)"
    by (auto simp: xeth_mux_xmit_def xeth_mux_vlan_xmit_def bindR_eq_Inr)
  from was_exception_once[OF b(1) assms(2)] b(2,3) show ?thesis
    by (cases b) (auto simp: vlan_xmit_link_def Let_def dev_queue_xmit_def dev_forward_skb_def
        split: option.splits)
next
  case XETH_ENCAP_VPLS
  with assms(1) show ?thesis by (auto simp: xeth_mux_xmit_def)
qed

theorem mux_xmit_disposes_once_witness:
  "let k = sample_kapi\<lparr>k_dev_forward_skb := \<lambda>tr d s. False\<rparr>;
       w = upd_mux 1 (\<lambda>p. p\<lparr>mx_link := replicate 16 None\<rparr>) sample_world
   in \<exists>w'. xeth_mux_xmit k sample_skb 1 w = Inr (NETDEV_TX_OK, w') \<and>
    ((\<exists>e. skb_taken e \<and> w_trace w' = w_trace w @ [e]) \<or>
     (mx_link (w_mux w 1) ! xeth_mux_link_hash_vlan k sample_skb = None
      \<and> \<not> k_dev_forward_skb k (w_trace w) 1 (sample_skb\<lparr>skb_dev := 1\<rparr>)
      \<and> w_trace w' = w_trace w @ [Ev_forward 1 (sample_skb\<lparr>skb_dev := 1\<rparr>), Ev_kfree (sample_skb\<lparr>skb_dev := 1\<rparr>)]))"
proof -
  let ?k = "sample_kapi\<lparr>k_dev_forward_skb := \<lambda>tr d s. False\<rparr>"
  let ?w = "upd_mux 1 (\<lambda>p. p\<lparr>mx_link := replicate 16 None\<rparr>) sample_world"
  have "xeth_mux_was_vlan_exception ?k 1 sample_skb ?w = Inr (False, ?w)"
    by (simp add: xeth_mux_was_vlan_exception_def load_be16_def sample_skb_def get_bytes_def
        eth_type_vlan_def ETH_P_8021Q_def ETH_P_8021AD_def)
  then obtain w' where "xeth_mux_xmit ?k sample_skb 1 ?w = Inr (NETDEV_TX_OK, w')"
    by (simp add: xeth_mux_xmit_def xeth_mux_vlan_xmit_def sample_world_def sample_mux_def)
  with mux_xmit_disposes_once[OF this] show ?thesis
    by (simp add: Let_def sample_world_def sample_mux_def XETH_N_LINK_STAT_def)
qed

text \<open>
  C18: Every frame that a lower link hands to the mux is disposed of exactly once and accounted exactly
  once, as received, as an error or as dropped.
\<close>

theorem demux_disposes_and_counts_once:
  assumes "xeth_mux_demux k s w = Inr w'" and "nd_rx_handler_data (w_nd w (skb_dev s)) = Some m"
    and "length (mx_link_stats (w_mux w m)) = XETH_N_LINK_STAT"
  shows "(\<exists>e. skb_taken e \<and> w_trace w' = w_trace w @ [e]) \<and> rx_seen m w' = rx_seen m w + 1"
  using demux_vlan_once[of k m s w w'] assms
  by (auto simp: xeth_mux_demux_def rx_seen_effects split: if_splits)

theorem demux_disposes_and_counts_once_witness:
  "\<exists>w' e. xeth_mux_demux sample_kapi (sample_skb\<lparr>skb_dev := 8\<rparr>) sample_world = Inr w'
     \<and> skb_taken e \<and> w_trace w' = w_trace sample_world @ [e] \<and> rx_seen 1 w' = rx_seen 1 sample_world + 1"
proof -
  obtain w' where "xeth_mux_demux sample_kapi (sample_skb\<lparr>skb_dev := 8\<rparr>) sample_world = Inr w'"
    by (simp add: xeth_mux_demux_def sample_defs eth_type_vlan_def ETH_P_8021Q_def ETH_P_8021AD_def)
  with demux_disposes_and_counts_once[OF this, of 1] show ?thesis
    by (auto simp: sample_defs XETH_N_LINK_STAT_def)
qed

end
