(* ===== verification/Xeth_Sbtx.thy ===== *)
theory Xeth_Sbtx
  imports Xeth_Sbq Xeth_Frame
begin

text \<open>
  The builders of the side band messages to the daemon (\<^verbatim>\<open>dkms/xeth_sbtx.c\<close>). Each allocates a zeroed
  buffer of the size of its message, stores the header and the fields at their offsets, and queues the
  buffer. A store that is not inside the room of the buffer is a fault.
\<close>

section \<open>Allocating, filling and queueing\<close>

text \<open>
  The frame of every builder: allocate, return \<^verbatim>\<open>-ENOMEM\<close> for NULL, store the header and the fields,
  queue, return 0.
\<close>

definition xeth_sbtx_msg_set :: "xeth_msg_kind \<Rightarrow> store list" where
  "xeth_sbtx_msg_set kd = [(0, le64 0), (8, le32 0), (12, le16 0), (14, [XETH_MSG_VERSION]),
     (15, [xeth_msg_kind_code kd])]"

definition sbtx_send :: "kapi \<Rightarrow> ndp \<Rightarrow> nat \<Rightarrow> xeth_msg_kind \<Rightarrow> store list \<Rightarrow> world \<Rightarrow> (int \<times> world) outcome" where
  "sbtx_send k m n kd flds w =
     bindR (xeth_mux_alloc_sbtxb (k_kzalloc k) n (w_mux w m)) (\<lambda>(r, p).
       case r of
         None \<Rightarrow> Inr (- ENOMEM, upd_mux m (\<lambda>_. p) w)
       | Some b \<Rightarrow>
           bindR (store_all (xeth_sbtx_msg_set kd @ flds) (sb_data b)) (\<lambda>d.
             Inr (0, upd_mux m (\<lambda>_. xeth_mux_queue_sbtx (b\<lparr>sb_data := d\<rparr>) p) w)))"

definition xeth_sbtx_ns_inum :: "world \<Rightarrow> netp \<Rightarrow> u64" where
  "xeth_sbtx_ns_inum w net = (if net = init_net then 1 else w_inum w net)"

section \<open>Simple messages\<close>

definition xeth_sbtx_break :: "kapi \<Rightarrow> ndp \<Rightarrow> world \<Rightarrow> (int \<times> world) outcome" where
  "xeth_sbtx_break k m w = sbtx_send k m sizeof_xeth_msg_header XETH_MSG_KIND_BREAK [] w"

definition change_upper_fields :: "u32 \<Rightarrow> u32 \<Rightarrow> bool \<Rightarrow> store list" where
  "change_upper_fields upper_xid lower_xid linking =
     [(16, le32 upper_xid), (20, le32 lower_xid), (24, [if linking then 1 else 0])]"

definition xeth_sbtx_change_upper ::
    "kapi \<Rightarrow> ndp \<Rightarrow> u32 \<Rightarrow> u32 \<Rightarrow> bool \<Rightarrow> world \<Rightarrow> (int \<times> world) outcome" where
  "xeth_sbtx_change_upper k m upper_xid lower_xid linking w =
     sbtx_send k m sizeof_xeth_msg_change_upper_xid XETH_MSG_KIND_CHANGE_UPPER_XID
       (change_upper_fields upper_xid lower_xid linking) w"

definition et_flags_fields :: "u32 \<Rightarrow> u32 \<Rightarrow> store list" where
  "et_flags_fields xid flags = [(16, le32 xid), (20, le32 flags)]"

definition xeth_sbtx_et_flags :: "kapi \<Rightarrow> ndp \<Rightarrow> u32 \<Rightarrow> u32 \<Rightarrow> world \<Rightarrow> (int \<times> world) outcome" where
  "xeth_sbtx_et_flags k m xid flags w =
     sbtx_send k m sizeof_xeth_msg_ethtool_flags XETH_MSG_KIND_ETHTOOL_FLAGS (et_flags_fields xid flags) w"

text \<open>The loop that sets a bit of \<^verbatim>\<open>msg->modes\<close> (zero at first) for every bit of the bitmap below \<^verbatim>\<open>bits\<close>.\<close>

definition link_modes_word :: "nat \<Rightarrow> nat set \<Rightarrow> u64" where
  "link_modes_word nbits addr =
     fold (\<lambda>b modes. if b \<in> addr then modes OR push_bit b 1 else modes) [0..<min nbits 64] 0"

definition et_link_modes_fields :: "u32 \<Rightarrow> u64 \<Rightarrow> store list" where
  "et_link_modes_fields xid modes = [(16, le32 xid), (24, le64 modes)]"

definition xeth_sbtx_et_link_modes ::
    "kapi \<Rightarrow> ndp \<Rightarrow> xeth_msg_kind \<Rightarrow> u32 \<Rightarrow> nat set \<Rightarrow> world \<Rightarrow> (int \<times> world) outcome" where
  "xeth_sbtx_et_link_modes k m kd xid addr w =
     sbtx_send k m sizeof_xeth_msg_ethtool_link_modes kd
       (et_link_modes_fields xid (link_modes_word (k_link_mode_nbits k) addr)) w"

definition et_settings_fields :: "u32 \<Rightarrow> ethtool_link_ksettings \<Rightarrow> store list" where
  "et_settings_fields xid ks =
     [(16, le32 xid), (20, le32 (if ks_autoneg ks \<noteq> 0 then 0 else ks_speed ks)),
      (24, [ks_duplex ks]), (25, [ks_port ks]), (26, [ks_phy_address ks]), (27, [ks_autoneg ks]),
      (28, [ks_mdio_support ks]), (29, [ks_eth_tp_mdix ks]), (30, [ks_eth_tp_mdix_ctrl ks])]"

definition xeth_sbtx_et_settings ::
    "kapi \<Rightarrow> ndp \<Rightarrow> u32 \<Rightarrow> ethtool_link_ksettings \<Rightarrow> world \<Rightarrow> (int \<times> world) outcome" where
  "xeth_sbtx_et_settings k m xid ks w =
     bindR (sbtx_send k m sizeof_xeth_msg_ethtool_settings XETH_MSG_KIND_ETHTOOL_SETTINGS
              (et_settings_fields xid ks) w) (\<lambda>(r, w).
       if r \<noteq> 0 then Inr (r, w)
       else xeth_sbtx_et_link_modes k m XETH_MSG_KIND_ETHTOOL_LINK_MODES_ADVERTISING xid
              (ks_advertising ks) w)"

section \<open>Routes\<close>

record fib_nh_common =
  nhc_dev :: "ndp option"
  nhc_weight :: u32
  nhc_flags :: u32
  nhc_gw :: "u8 list"
  nhc_scope :: u8

record fib_entry_notifier_info =
  fe_dst :: u32
  fe_dst_len :: nat
  fe_tos :: u8
  fe_type :: u8
  fe_tb_id :: u32
  fe_fi :: "fib_nh_common list"

definition be32 :: "u32 \<Rightarrow> u8 list" where "be32 x = rev (le32 x)"

definition inet_make_mask :: "nat \<Rightarrow> u32" where
  "inet_make_mask logmask = (if logmask = 0 then 0 else NOT (push_bit (32 - logmask) 1 - 1))"

definition nhc_ifindex :: "world \<Rightarrow> fib_nh_common \<Rightarrow> u32" where
  "nhc_ifindex w c = (case nhc_dev c of None \<Rightarrow> 0 | Some d \<Rightarrow> nd_ifindex (w_nd w d))"

definition next_hop_fields :: "world \<Rightarrow> nat \<Rightarrow> fib_nh_common \<Rightarrow> store list" where
  "next_hop_fields w off c =
     [(off, le32 (nhc_ifindex w c)), (off + 4, le32 (nhc_weight c)), (off + 8, le32 (nhc_flags c)),
      (off + 12, take 4 (nhc_gw c)), (off + 16, [nhc_scope c])]"

text \<open>
  The number of next hops is stored in eight bits, and the loop runs to the stored number; the
  buffer is sized for all of them.
\<close>

definition fib_entry_head :: "world \<Rightarrow> netp \<Rightarrow> fib_entry_notifier_info \<Rightarrow> nat \<Rightarrow> store list" where
  "fib_entry_head w net fe event =
     [(16, le64 (xeth_sbtx_ns_inum w net)), (24, be32 (fe_dst fe)),
      (28, be32 (inet_make_mask (fe_dst_len fe))), (32, [of_nat event]),
      (33, [of_nat (length (fe_fi fe))]), (34, [fe_tos fe]), (35, [fe_type fe]),
      (36, le32 (fe_tb_id fe))]"

definition fib_entry_fields :: "world \<Rightarrow> netp \<Rightarrow> fib_entry_notifier_info \<Rightarrow> nat \<Rightarrow> store list" where
  "fib_entry_fields w net fe event = fib_entry_head w net fe event
     @ concat (map (\<lambda>i. next_hop_fields w (sizeof_xeth_msg_fibentry + i * sizeof_xeth_next_hop) (fe_fi fe ! i))
                 [0..<unat (of_nat (length (fe_fi fe)) :: u8)])"

definition xeth_sbtx_fib_entry ::
    "kapi \<Rightarrow> ndp \<Rightarrow> netp \<Rightarrow> fib_entry_notifier_info \<Rightarrow> nat \<Rightarrow> world \<Rightarrow> (int \<times> world) outcome" where
  "xeth_sbtx_fib_entry k m net fe event w =
     sbtx_send k m (sizeof_xeth_msg_fibentry + length (fe_fi fe) * sizeof_xeth_next_hop)
       XETH_MSG_KIND_FIBENTRY (fib_entry_fields w net fe event) w"

text \<open>A \<^verbatim>\<open>struct nexthop\<close>: a group with its multipath flag and entries, or a single next hop.\<close>

datatype nexthop = Nh_group bool "fib_nh_common list" | Nh_single fib_nh_common

record fib6_info =
  f6_addr :: "u8 list"
  f6_plen :: u8
  f6_type :: u8
  f6_tb_id :: u32
  f6_nexthop :: "nexthop option"
  f6_nh :: fib_nh_common
  f6_nsiblings :: nat
  f6_siblings :: "fib_nh_common list"

definition next_hop6_fields :: "world \<Rightarrow> nat \<Rightarrow> fib_nh_common \<Rightarrow> store list" where
  "next_hop6_fields w off c =
     [(off, le32 (nhc_ifindex w c)), (off + 4, le32 (nhc_weight c)), (off + 8, le32 (nhc_flags c)),
      (off + 16, take 16 (nhc_gw c))]"

definition fib6_fields :: "world \<Rightarrow> netp \<Rightarrow> fib6_info \<Rightarrow> nat \<Rightarrow> nat \<Rightarrow> store list" where
  "fib6_fields w net f event nsiblings =
     [(16, le64 (xeth_sbtx_ns_inum w net)), (24, take 16 (f6_addr f)), (40, [f6_plen f]),
      (41, [of_nat event]), (42, [of_nat nsiblings]), (43, [f6_type f]), (44, le32 (f6_tb_id f))]"

text \<open>The stores to consecutive elements of \<^verbatim>\<open>msg->siblings[]\<close>.\<close>

definition sibling_fields :: "world \<Rightarrow> fib_nh_common list \<Rightarrow> store list" where
  "sibling_fields w cs =
     concat (map (\<lambda>i. next_hop6_fields w (sizeof_xeth_msg_fib6entry + i * sizeof_xeth_next_hop6) (cs ! i))
              [0..<length cs])"

definition xeth_sbtx_fib6_nh_entry ::
    "kapi \<Rightarrow> ndp \<Rightarrow> netp \<Rightarrow> fib6_info \<Rightarrow> nexthop \<Rightarrow> nat \<Rightarrow> world \<Rightarrow> (int \<times> world) outcome" where
  "xeth_sbtx_fib6_nh_entry k m net f nh event w =
     (let nsiblings = (case nh of
            Nh_group mpath cs \<Rightarrow> if mpath \<and> length cs > 0 then length cs - 1 else 0
          | Nh_single c \<Rightarrow> 0)
      in sbtx_send k m (sizeof_xeth_msg_fib6entry + nsiblings * sizeof_xeth_next_hop6)
           XETH_MSG_KIND_FIB6ENTRY
           (fib6_fields w net f event nsiblings
            @ (case nh of
                 Nh_group mpath [] \<Rightarrow> []
               | Nh_group mpath (c # cs) \<Rightarrow> next_hop6_fields w 48 c @ sibling_fields w cs
               | Nh_single c \<Rightarrow> next_hop6_fields w 48 c)) w)"

text \<open>
  \<^verbatim>\<open>feni->rt\<close>: \<open>None\<close> for NULL, \<open>Inl\<close> for an error pointer. The siblings are sized with the size of a
  pointer, eight bytes each, and stored with their full size.
\<close>

definition xeth_sbtx_fib6_entry ::
    "kapi \<Rightarrow> ndp \<Rightarrow> netp \<Rightarrow> (int + fib6_info) option \<Rightarrow> nat \<Rightarrow> world \<Rightarrow> (int \<times> world) outcome" where
  "xeth_sbtx_fib6_entry k m net rt event w =
     (case rt of
        None \<Rightarrow> Inr (- ENOMEM, w)
      | Some (Inl err) \<Rightarrow> Inr (err, w)
      | Some (Inr f) \<Rightarrow>
          (case f6_nexthop f of
             Some nh \<Rightarrow> xeth_sbtx_fib6_nh_entry k m net f nh event w
           | None \<Rightarrow>
               sbtx_send k m (sizeof_xeth_msg_fib6entry + f6_nsiblings f * 8) XETH_MSG_KIND_FIB6ENTRY
                 (fib6_fields w net f event (f6_nsiblings f) @ next_hop6_fields w 48 (f6_nh f)
                  @ sibling_fields w (take (f6_nsiblings f) (f6_siblings f))) w))"

section \<open>Addresses, interfaces, neighbours, name spaces\<close>

definition ifa_fields :: "u32 \<Rightarrow> u32 \<Rightarrow> in_ifaddr \<Rightarrow> store list" where
  "ifa_fields xid event a =
     [(16, le32 xid), (20, le32 event), (24, take 4 (in_ifa_address a)), (28, take 4 (in_ifa_mask a))]"

definition xeth_sbtx_ifa ::
    "kapi \<Rightarrow> ndp \<Rightarrow> in_ifaddr \<Rightarrow> u32 \<Rightarrow> u32 \<Rightarrow> world \<Rightarrow> (int \<times> world) outcome" where
  "xeth_sbtx_ifa k m a event xid w =
     sbtx_send k m sizeof_xeth_msg_ifa XETH_MSG_KIND_IFA (ifa_fields xid event a) w"

definition ifa6_fields :: "u32 \<Rightarrow> u32 \<Rightarrow> inet6_ifaddr \<Rightarrow> store list" where
  "ifa6_fields xid event a =
     [(16, le32 xid), (20, le32 event), (24, take 16 (in6_ifa_addr a)), (40, [ucast (in6_ifa_prefix_len a)])]"

definition xeth_sbtx_ifa6 ::
    "kapi \<Rightarrow> ndp \<Rightarrow> inet6_ifaddr \<Rightarrow> u32 \<Rightarrow> u32 \<Rightarrow> world \<Rightarrow> (int \<times> world) outcome" where
  "xeth_sbtx_ifa6 k m a event xid w =
     sbtx_send k m sizeof_xeth_msg_ifa6 XETH_MSG_KIND_IFA6 (ifa6_fields xid event a) w"

text \<open>\<^verbatim>\<open>strlcpy\<close>: at most \<open>n - 1\<close> characters and a terminating NUL.\<close>

definition strlcpy :: "nat \<Rightarrow> string \<Rightarrow> u8 list" where
  "strlcpy n s = map of_char (take (n - 1) s) @ [0]"

definition ifinfo_kdata :: "xeth_proxy \<Rightarrow> ndp \<Rightarrow> world \<Rightarrow> u32" where
  "ifinfo_kdata px m w =
     (case px_kind px of
        XETH_DEV_KIND_VLAN \<Rightarrow> xeth_encap_code (mx_encap (w_mux w m))
      | XETH_DEV_KIND_LB \<Rightarrow> ucast (w_lb_chan w (px_nd px))
      | _ \<Rightarrow> 0)"

definition ifinfo_features :: "kapi \<Rightarrow> net_device \<Rightarrow> u64" where
  "ifinfo_features k nd =
     (if nd_features nd AND k_NETIF_F_HW_L2FW_DOFFLOAD k \<noteq> 0
      then push_bit XETH_IFINFO_FEATURE_L2_FWD_OFFLOAD_BIT 1 else 0)"

definition ifinfo_fields ::
    "kapi \<Rightarrow> xeth_proxy \<Rightarrow> ndp \<Rightarrow> u32 \<Rightarrow> xeth_msg_ifinfo_reason \<Rightarrow> world \<Rightarrow> store list" where
  "ifinfo_fields k px m ifflags reason w =
     (let nd = w_nd w (px_nd px) in
      [(24, strlcpy XETH_IFNAMSIZ (nd_name nd)), (40, le64 (xeth_sbtx_ns_inum w (nd_net nd))),
       (48, le32 (nd_ifindex nd)), (16, le32 (px_xid px)), (20, le32 (ifinfo_kdata px m w)),
       (52, le32 (if ifflags \<noteq> 0 then ifflags else nd_flags nd)), (56, take XETH_ALEN (nd_dev_addr nd)),
       (62, [xeth_dev_kind_code (px_kind px)]), (63, [xeth_msg_ifinfo_reason_code reason]),
       (64, le64 (ifinfo_features k nd))])"

definition xeth_sbtx_ifinfo ::
    "kapi \<Rightarrow> ndp \<Rightarrow> u32 \<Rightarrow> xeth_msg_ifinfo_reason \<Rightarrow> world \<Rightarrow> (int \<times> world) outcome" where
  "xeth_sbtx_ifinfo k q ifflags reason w =
     (let px = w_proxy w q in
      case px_mux px of
        None \<Rightarrow> Inr (0, w)
      | Some m \<Rightarrow>
          if px_xid px = 0 then Inr (0, w)
          else sbtx_send k m sizeof_xeth_msg_ifinfo XETH_MSG_KIND_IFINFO
                 (ifinfo_fields k px m ifflags reason w) w)"

record neighbour =
  ne_dev :: ndp
  ne_family :: u8
  ne_key_len :: nat
  ne_primary_key :: "u8 list"
  ne_nud_valid :: bool
  ne_dead :: bool
  ne_ha :: "u8 list"

definition neigh_fields :: "neighbour \<Rightarrow> world \<Rightarrow> store list" where
  "neigh_fields n w =
     [(24, le32 (nd_ifindex (w_nd w (ne_dev n)))),
      (16, le64 (xeth_sbtx_ns_inum w (nd_net (w_nd w (ne_dev n))))),
      (24, le32 (nd_ifindex (w_nd w (ne_dev n)))), (28, [ne_family n]), (29, [of_nat (ne_key_len n)]),
      (32, take (ne_key_len n) (ne_primary_key n))]
     @ (if ne_nud_valid n \<and> \<not> ne_dead n then [(48, take XETH_ALEN (ne_ha n))] else [])"

definition xeth_sbtx_neigh_update :: "kapi \<Rightarrow> ndp \<Rightarrow> neighbour \<Rightarrow> world \<Rightarrow> (int \<times> world) outcome" where
  "xeth_sbtx_neigh_update k m n w =
     sbtx_send k m sizeof_xeth_msg_neigh_update XETH_MSG_KIND_NEIGH_UPDATE (neigh_fields n w) w"

definition xeth_sbtx_netns :: "kapi \<Rightarrow> ndp \<Rightarrow> u64 \<Rightarrow> bool \<Rightarrow> world \<Rightarrow> (int \<times> world) outcome" where
  "xeth_sbtx_netns k m ns_inum add w =
     sbtx_send k m sizeof_xeth_msg_netns (if add then XETH_MSG_KIND_NETNS_ADD else XETH_MSG_KIND_NETNS_DEL)
       [(16, le64 ns_inum)] w"

section \<open>What a queued message contains\<close>

text \<open>The bytes of a buffer that are sent, and the messages waiting in the queue of a mux.\<close>

definition sb_msg :: "xeth_sbtxb \<Rightarrow> u8 list" where
  "sb_msg b = take (sb_len b) (sb_data b)"

definition queued_msgs :: "ndp \<Rightarrow> world \<Rightarrow> u8 list list" where
  "queued_msgs m w = map sb_msg (mx_sb_tx (w_mux w m))"

definition connected :: "ndp \<Rightarrow> world \<Rightarrow> bool" where
  "connected m w \<longleftrightarrow> xeth_mux_has sb_connection (mx_flags (w_mux w m))"

definition in_bounds :: "nat \<Rightarrow> store list \<Rightarrow> bool" where
  "in_bounds n sts \<longleftrightarrow> list_all (\<lambda>st. 16 \<le> fst st \<and> fst st + length (snd st) \<le> n) sts"

definition message :: "xeth_msg_kind \<Rightarrow> nat \<Rightarrow> store list \<Rightarrow> u8 list" where
  "message kd n flds = put_all (xeth_sbtx_msg_set kd @ flds) (replicate n 0)"

text \<open>The part of the world that queueing a message leaves alone.\<close>

definition erase_sb :: "xeth_mux_priv \<Rightarrow> xeth_mux_priv" where
  "erase_sb p = p\<lparr>mx_sb_free := [], mx_sb_tx := [], mx_counters := []\<rparr>"

definition only_mux_sb :: "ndp \<Rightarrow> world \<Rightarrow> world \<Rightarrow> bool" where
  "only_mux_sb m w w' \<longleftrightarrow> w'\<lparr>w_mux := w_mux w\<rparr> = w \<and> (\<forall>i. i \<noteq> m \<longrightarrow> w_mux w' i = w_mux w i)
     \<and> erase_sb (w_mux w' m) = erase_sb (w_mux w m)"

lemma erase_sb_fields:
  assumes "erase_sb a = erase_sb b"
  shows "mx_hls a = mx_hls b" "mx_ports a = mx_ports b" "mx_vlans a = mx_vlans b"
    "mx_lags a = mx_lags b" "mx_bridges a = mx_bridges b" "mx_lbs a = mx_lbs b"
    "mx_encap a = mx_encap b" "mx_flags a = mx_flags b" "mx_nb a = mx_nb b"
    "mx_sb_rx a = mx_sb_rx b" "mx_link_stats a = mx_link_stats b"
  using assms by (cases a; cases b; simp add: erase_sb_def)+

lemma only_mux_sb_frame:
  assumes "only_mux_sb m w w'"
  shows "w_nd w' = w_nd w" "w_proxy w' = w_proxy w" "w_port w' = w_port w"
    "w_vlan_link w' = w_vlan_link w" "w_lb_chan w' = w_lb_chan w" "w_nets w' = w_nets w"
    "w_inum w' = w_inum w" "w_trace w' = w_trace w"
  using assms unfolding only_mux_sb_def by (cases w; cases w'; simp)+

lemma only_mux_sb_mux:
  assumes "only_mux_sb m w w'"
  shows "erase_sb (w_mux w' i) = erase_sb (w_mux w i)"
  using assms unfolding only_mux_sb_def by (cases "i = m") auto

lemmas only_mux_sb_fields = only_mux_sb_frame erase_sb_fields[OF only_mux_sb_mux]

lemma only_mux_sb_connected: "only_mux_sb m w w' \<Longrightarrow> connected i w' = connected i w"
  by (simp add: connected_def only_mux_sb_fields)

lemma only_mux_sb_refl [simp, intro]: "only_mux_sb m w w"
  by (simp add: only_mux_sb_def)

lemma only_mux_sb_trans:
  assumes "only_mux_sb m u v" and "only_mux_sb m v w"
  shows "only_mux_sb m u w"
proof -
  have "w\<lparr>w_mux := w_mux u\<rparr> = (w\<lparr>w_mux := w_mux v\<rparr>)\<lparr>w_mux := w_mux u\<rparr>" by simp
  also have "\<dots> = u" using assms unfolding only_mux_sb_def by metis
  finally show ?thesis using assms unfolding only_mux_sb_def by metis
qed

lemma alloc_erase_sb:
  "xeth_mux_alloc_sbtxb kz n p = Inr (r, p') \<Longrightarrow> erase_sb p' = erase_sb p"
  by (auto simp: xeth_mux_alloc_sbtxb_def erase_sb_def Let_def split: option.splits if_splits)

lemma queue_erase_sb: "erase_sb (xeth_mux_queue_sbtx b p) = erase_sb p"
  by (simp add: erase_sb_def sbq_defs)

lemma header_in_bounds: "16 \<le> n \<Longrightarrow> \<forall>st \<in> set (xeth_sbtx_msg_set kd). fst st + length (snd st) \<le> n"
  by (simp add: xeth_sbtx_msg_set_def)

lemma sbtxb_take: "sbtxb_ok b \<Longrightarrow> sb_len b = n \<Longrightarrow> take n (sb_data b) = replicate n 0 \<Longrightarrow>
    sb_data b = replicate n 0 @ drop n (sb_data b)"
  by (metis append_take_drop_id)

text \<open>
  Sending a message whose fields are inside its size: the buffer invariant is kept, nothing else
  changes, and a connected mux has exactly that message more in its queue.
\<close>

lemma sbtx_send_spec:
  assumes inv: "sb_inv (w_mux w m)" and n: "16 \<le> n" and bnd: "in_bounds n flds"
    and res: "sbtx_send k m n kd flds w = Inr (r, w')"
  shows "r = 0 \<and> sb_inv (w_mux w' m) \<and> only_mux_sb m w w'
    \<and> queued_msgs m w' = queued_msgs m w @ (if connected m w then [message kd n flds] else [])"
proof -
  from res obtain r0 p where al: "xeth_mux_alloc_sbtxb (k_kzalloc k) n (w_mux w m) = Inr (r0, p)"
    by (auto simp: sbtx_send_def bindR_eq_Inr)
  from alloc_sbtxb_spec[OF inv al] obtain b where b: "r0 = Some b" "sbtxb_ok b" "sb_len b = n"
    "take n (sb_data b) = replicate n 0" "sb_inv p" "mx_sb_tx p = mx_sb_tx (w_mux w m)"
    "mx_flags p = mx_flags (w_mux w m)" by blast
  let ?sts = "xeth_sbtx_msg_set kd @ flds" and ?rest = "drop n (sb_data b)"
  have bs: "\<forall>st \<in> set ?sts. fst st + length (snd st) \<le> n"
    using header_in_bounds[OF n] bnd by (auto simp: in_bounds_def list_all_iff)
  have len: "n \<le> length (sb_data b)" using b(2,3) by (simp add: sbtxb_ok_def)
  have "store_all ?sts (sb_data b) = Inr (put_all ?sts (sb_data b))"
    using bs len by (intro store_all_in_bounds) fastforce
  moreover have "put_all ?sts (sb_data b) = message kd n flds @ ?rest"
    using put_all_append[of ?sts "replicate n 0" ?rest] bs sbtxb_take[OF b(2-4)]
    by (simp add: message_def)
  ultimately have w': "r = 0" "w' = upd_mux m (\<lambda>_. xeth_mux_queue_sbtx (b\<lparr>sb_data := message kd n flds @ ?rest\<rparr>) p) w"
    using res al b(1) by (simp_all add: sbtx_send_def)
  let ?b = "b\<lparr>sb_data := message kd n flds @ ?rest\<rparr>"
  have ok: "sbtxb_ok ?b" using b(2,3) len by (simp add: sbtxb_ok_def message_def)
  have "sb_inv (w_mux w' m)" using w'(2) queue_sb_inv[OF b(5) ok] by simp
  moreover have "only_mux_sb m w w'"
    using alloc_erase_sb[OF al] by (simp add: w'(2) only_mux_sb_def queue_erase_sb)
  moreover have "sb_msg ?b = message kd n flds"
    using b(3) by (simp add: sb_msg_def message_def)
  then have "queued_msgs m w' = queued_msgs m w @ (if connected m w then [message kd n flds] else [])"
    using b(6,7) by (simp add: w'(2) queued_msgs_def connected_def sbq_defs)
  ultimately show ?thesis using w'(1) by blast
qed

text \<open>A send faults only by the NULL dereference of a failed allocation.\<close>

lemma sbtx_send_total:
  assumes inv: "sb_inv (w_mux w m)" and "16 \<le> n" and "in_bounds n flds" and "\<forall>p sz. k_kzalloc k p sz"
  shows "\<exists>w'. sbtx_send k m n kd flds w = Inr (0, w')"
proof -
  obtain r0 p where al: "xeth_mux_alloc_sbtxb (k_kzalloc k) n (w_mux w m) = Inr (r0, p)"
    using assms(4) by (cases "first_fit n (mx_sb_free (w_mux w m))")
      (auto simp: xeth_mux_alloc_sbtxb_def Let_def)
  from alloc_sbtxb_spec[OF inv al] obtain b where b: "r0 = Some b" "sbtxb_ok b" "sb_len b = n" by blast
  have "\<forall>st \<in> set (xeth_sbtx_msg_set kd @ flds). fst st + length (snd st) \<le> length (sb_data b)"
    using b(2,3) header_in_bounds[OF assms(2)] assms(3)
    by (fastforce simp: in_bounds_def list_all_iff sbtxb_ok_def)
  then show ?thesis using al b(1) by (simp add: sbtx_send_def store_all_in_bounds)
qed

lemma message_header:
  assumes "16 \<le> n" and "in_bounds n flds"
  shows "xeth_msg_header_at (message kd n flds) =
    \<lparr>z64 = 0, z32 = 0, z16 = 0, version = XETH_MSG_VERSION, kind = xeth_msg_kind_code kd\<rparr>"
proof -
  have "get_bytes off l (message kd n flds) = get_bytes off l (put_all (xeth_sbtx_msg_set kd) (replicate n 0))"
    if "off + l \<le> 16" for off l
    using that assms(2) by (auto simp: message_def put_all_concat in_bounds_def list_all_iff
        intro!: get_put_all_other)
  then have "xeth_msg_header_at (message kd n flds) =
      xeth_msg_header_at (put_all (xeth_msg_init kd) (replicate n 0))"
    by (simp add: xeth_msg_header_at_def xeth_sbtx_msg_set_def xeth_msg_init_def)
  with assms(1) show ?thesis by (simp add: xeth_msg_init_header)
qed

lemma length_message [simp]: "length (message kd n flds) = n"
  by (simp add: message_def)

section \<open>Messages as an interface\<close>

text \<open>
  A message of a fixed size: its fields lie behind the header and inside the size, and the daemon's
  view of the bytes is the intended record.
\<close>

locale sb_message =
  fixes kd :: xeth_msg_kind and n :: nat and ok :: "'a \<Rightarrow> bool" and flds :: "'a \<Rightarrow> store list"
    and view :: "u8 list \<Rightarrow> 'v" and want :: "'a \<Rightarrow> 'v"
  assumes size: "16 \<le> n" and bounds: "ok a \<Longrightarrow> in_bounds n (flds a)"
    and view: "ok a \<Longrightarrow> view (message kd n (flds a)) = want a"
begin

lemma sent:
  assumes "ok a" and "sb_inv (w_mux w m)" and "\<forall>p sz. k_kzalloc k p sz"
  shows "\<exists>w'. sbtx_send k m n kd (flds a) w = Inr (0, w') \<and> sb_inv (w_mux w' m) \<and> only_mux_sb m w w'
    \<and> queued_msgs m w' = queued_msgs m w @ (if connected m w then [message kd n (flds a)] else [])"
proof -
  from sbtx_send_total[OF assms(2) size bounds[OF assms(1)] assms(3), of kd]
  obtain w' where w': "sbtx_send k m n kd (flds a) w = Inr (0, w')" by blast
  with sbtx_send_spec[OF assms(2) size bounds[OF assms(1)] w'] show ?thesis by simp
qed

lemma delivered:
  assumes "ok a" and "sb_inv (w_mux w m)" and "\<forall>p sz. k_kzalloc k p sz" and "connected m w"
  shows "\<exists>w' d. sbtx_send k m n kd (flds a) w = Inr (0, w') \<and> sb_inv (w_mux w' m) \<and> only_mux_sb m w w'
    \<and> queued_msgs m w' = queued_msgs m w @ [d] \<and> length d = n \<and> view d = want a
    \<and> xeth_is_msg d \<and> xeth_msg_version_match d \<and> xeth_msg_kind_at d = xeth_msg_kind_code kd"
proof -
  from sent[OF assms(1-3)] assms(4) obtain w' where
    "sbtx_send k m n kd (flds a) w = Inr (0, w')" "sb_inv (w_mux w' m)" "only_mux_sb m w w'"
    "queued_msgs m w' = queued_msgs m w @ [message kd n (flds a)]" by auto
  with view[OF assms(1)] message_header[OF size bounds[OF assms(1)], of kd] show ?thesis
    by (intro exI[of _ w'] exI[of _ "message kd n (flds a)"])
      (simp add: xeth_is_msg_def xeth_msg_version_match_def xeth_msg_kind_at_def)
qed

end

lemmas message_simps = message_def put_all_concat xeth_sbtx_msg_set_def

interpretation msg_upper: sb_message XETH_MSG_KIND_CHANGE_UPPER_XID sizeof_xeth_msg_change_upper_xid
  "\<lambda>_. True" "\<lambda>(u, l, b). change_upper_fields u l b" xeth_msg_change_upper_xid_at
  "\<lambda>(u, l, b). \<lparr>cu_upper = u, cu_lower = l, cu_linking = if b then 1 else 0\<rparr>"
  by unfold_locales (auto simp: xeth_msg_simps change_upper_fields_def in_bounds_def message_simps)

interpretation msg_flags: sb_message XETH_MSG_KIND_ETHTOOL_FLAGS sizeof_xeth_msg_ethtool_flags
  "\<lambda>_. True" "\<lambda>(x, f). et_flags_fields x f" xeth_msg_ethtool_flags_at
  "\<lambda>(x, f). \<lparr>etf_xid = x, etf_flags = f\<rparr>"
  by unfold_locales (auto simp: xeth_msg_simps et_flags_fields_def in_bounds_def message_simps)

interpretation msg_modes: sb_message kd sizeof_xeth_msg_ethtool_link_modes
  "\<lambda>_. True" "\<lambda>(x, md). et_link_modes_fields x md" xeth_msg_ethtool_link_modes_at
  "\<lambda>(x, md). \<lparr>etlm_xid = x, etlm_modes = md\<rparr>" for kd
  by unfold_locales (auto simp: xeth_msg_simps et_link_modes_fields_def in_bounds_def message_simps)

interpretation msg_settings: sb_message XETH_MSG_KIND_ETHTOOL_SETTINGS sizeof_xeth_msg_ethtool_settings
  "\<lambda>_. True" "\<lambda>(x, ks). et_settings_fields x ks" xeth_msg_ethtool_settings_at
  "\<lambda>(x, ks). \<lparr>ets_xid = x, ets_speed = if ks_autoneg ks \<noteq> 0 then 0 else ks_speed ks,
     ets_duplex = ks_duplex ks, ets_port = ks_port ks, ets_phy_address = ks_phy_address ks,
     ets_autoneg = ks_autoneg ks, ets_mdio_support = ks_mdio_support ks,
     ets_eth_tp_mdix = ks_eth_tp_mdix ks, ets_eth_tp_mdix_ctrl = ks_eth_tp_mdix_ctrl ks\<rparr>"
  by unfold_locales (auto simp: xeth_msg_simps et_settings_fields_def in_bounds_def message_simps)

interpretation msg_ifa: sb_message XETH_MSG_KIND_IFA sizeof_xeth_msg_ifa
  "\<lambda>(x, e, a). length (in_ifa_address a) = 4 \<and> length (in_ifa_mask a) = 4"
  "\<lambda>(x, e, a). ifa_fields x e a" xeth_msg_ifa_at
  "\<lambda>(x, e, a). \<lparr>ifa_xid = x, ifa_event = e, ifa_address = in_ifa_address a, ifa_mask = in_ifa_mask a\<rparr>"
  by unfold_locales (auto simp: xeth_msg_simps ifa_fields_def in_bounds_def message_simps)

interpretation msg_ifa6: sb_message XETH_MSG_KIND_IFA6 sizeof_xeth_msg_ifa6
  "\<lambda>(x, e, a). length (in6_ifa_addr a) = 16" "\<lambda>(x, e, a). ifa6_fields x e a" xeth_msg_ifa6_at
  "\<lambda>(x, e, a). \<lparr>ifa6_xid = x, ifa6_event = e, ifa6_address = in6_ifa_addr a,
     ifa6_length = ucast (in6_ifa_prefix_len a)\<rparr>"
  by unfold_locales (auto simp: xeth_msg_simps ifa6_fields_def in_bounds_def message_simps)

interpretation msg_netns: sb_message kd sizeof_xeth_msg_netns "\<lambda>_. True" "\<lambda>i. [(16, le64 i)]"
  xeth_msg_netns_net "\<lambda>i. i" for kd
  by unfold_locales (auto simp: xeth_msg_simps in_bounds_def message_simps)

text \<open>The name field: the first 15 characters, padded with NULs.\<close>

definition ifname_bytes :: "string \<Rightarrow> u8 list" where
  "ifname_bytes s = map of_char (take 15 s) @ replicate (16 - min 15 (length s)) 0"

lemma length_strlcpy: "0 < n \<Longrightarrow> length (strlcpy n s) = min (n - 1) (length s) + 1"
  by (simp add: strlcpy_def)

lemma get_put_short:
  "length bs \<le> n \<Longrightarrow> off + n \<le> length d \<Longrightarrow>
   get_bytes off n (put_bytes off bs d) = bs @ get_bytes (off + length bs) (n - length bs) d"
  by (rule nth_equalityI) (auto simp: nth_get_bytes nth_put_bytes nth_append)

lemma strlcpy_pad: "strlcpy 16 s @ replicate (15 - min 15 (length s)) 0 = ifname_bytes s"
proof -
  have "16 - min 15 (length s) = Suc (15 - min 15 (length s))" by simp
  then show ?thesis by (simp add: strlcpy_def ifname_bytes_def)
qed

interpretation msg_ifinfo: sb_message XETH_MSG_KIND_IFINFO sizeof_xeth_msg_ifinfo
  "\<lambda>(k, px, m, f, r, w). length (nd_dev_addr (w_nd w (px_nd px))) = 6"
  "\<lambda>(k, px, m, f, r, w). ifinfo_fields k px m f r w" xeth_msg_ifinfo_at
  "\<lambda>(k, px, m, f, r, w). let nd = w_nd w (px_nd px) in
     \<lparr>ifi_xid = px_xid px, ifi_kdata = ifinfo_kdata px m w, ifi_ifname = ifname_bytes (nd_name nd),
      ifi_net = xeth_sbtx_ns_inum w (nd_net nd), ifi_ifindex = nd_ifindex nd,
      ifi_flags = (if f \<noteq> 0 then f else nd_flags nd), ifi_addr = nd_dev_addr nd,
      ifi_kind = xeth_dev_kind_code (px_kind px), ifi_reason = xeth_msg_ifinfo_reason_code r,
      ifi_features = ifinfo_features k nd\<rparr>"
  by unfold_locales
    (auto simp: xeth_msg_simps ifinfo_fields_def in_bounds_def message_simps Let_def length_strlcpy
      get_put_short strlcpy_pad)

section \<open>Next hops\<close>

lemma link_modes_word_bits: "bit (link_modes_word n addr) b \<longleftrightarrow> b < min n 64 \<and> b \<in> addr"
proof -
  have "bit (fold (\<lambda>b ms. if b \<in> addr then ms OR push_bit b 1 else ms) [0..<j] (0 :: u64)) b
      \<longleftrightarrow> b < j \<and> b \<in> addr" if "j \<le> 64" for j
    using that by (induction j) (auto simp: bit_simps less_Suc_eq)
  then show ?thesis by (simp add: link_modes_word_def)
qed

text \<open>Stores to disjoint records behind one another: each record keeps its own bytes.\<close>

lemma get_put_all_disjoint:
  "\<forall>st\<in>set sts. off + n \<le> fst st \<or> fst st + length (snd st) \<le> off \<Longrightarrow>
   get_bytes off n (put_all sts d) = get_bytes off n d"
  by (induction sts arbitrary: d) simp_all

lemma put_all_array:
  assumes "\<And>j st. j < cnt \<Longrightarrow> st \<in> set (f j) \<Longrightarrow> base + j * sz \<le> fst st \<and> fst st + length (snd st) \<le> base + Suc j * sz"
    and "i < cnt" and "base + i * sz \<le> off" and "off + n \<le> base + Suc i * sz"
  shows "\<exists>e. length e = length d \<and> get_bytes off n (put_all (concat (map f [0..<cnt])) d) = get_bytes off n (put_all (f i) e)"
proof -
  have split: "[0..<cnt] = [0..<i] @ i # [Suc i..<cnt]"
    using assms(2) by (metis less_imp_le_nat upt_add_eq_append upt_conv_Cons zero_le add_0 le_add_diff_inverse)
  have "\<forall>st \<in> set (concat (map f [Suc i..<cnt])). off + n \<le> fst st"
  proof
    fix st assume "st \<in> set (concat (map f [Suc i..<cnt]))"
    then obtain j where j: "Suc i \<le> j" "j < cnt" "st \<in> set (f j)" by auto
    have "Suc i * sz \<le> j * sz" using j(1) by (rule mult_le_mono1)
    with assms(1)[OF j(2,3)] assms(4) show "off + n \<le> fst st" by linarith
  qed
  then have "get_bytes off n (put_all (concat (map f [0..<cnt])) d) =
      get_bytes off n (put_all (f i) (put_all (concat (map f [0..<i])) d))"
    by (simp add: split put_all_concat get_put_all_other)
  then show ?thesis by (intro exI[of _ "put_all (concat (map f [0..<i])) d"]) simp
qed

lemma length_be32 [simp]: "length (be32 x) = 4"
  by (simp add: be32_def)

text \<open>A next hop record with its gateway in memory order.\<close>

definition next_hop_of :: "world \<Rightarrow> fib_nh_common \<Rightarrow> xeth_next_hop" where
  "next_hop_of w c = \<lparr>nh_ifindex = nhc_ifindex w c, nh_weight = nhc_weight c, nh_flags = nhc_flags c,
     nh_gw = nhc_gw c, nh_scope = nhc_scope c\<rparr>"

lemma next_hop_view:
  assumes "off + 24 \<le> length e" and "length (nhc_gw c) = 4"
  shows "xeth_next_hop_at off (put_all (next_hop_fields w off c) e) = next_hop_of w c"
  using assms by (simp add: xeth_next_hop_at_def next_hop_fields_def next_hop_of_def)

lemma next_hop_at_cong:
  "get_bytes off 24 a = get_bytes off 24 b \<Longrightarrow> xeth_next_hop_at off a = xeth_next_hop_at off b"
proof -
  assume *: "get_bytes off 24 a = get_bytes off 24 b"
  have sub: "get_bytes (off + i) n a = get_bytes (off + i) n b" if "i + n \<le> 24" for i n
  proof -
    have "get_bytes (off + i) n x = take n (drop i (get_bytes off 24 x))" for x :: "u8 list"
      using that by (simp add: get_bytes_def drop_take min_absorb1 add.commute)
    with * show ?thesis by metis
  qed
  show ?thesis
    using sub[of 0 4] sub[of 4 4] sub[of 8 4] sub[of 12 4] sub[of 16 1] by (simp add: xeth_next_hop_at_def)
qed

definition fibentry_of :: "world \<Rightarrow> netp \<Rightarrow> fib_entry_notifier_info \<Rightarrow> nat \<Rightarrow> xeth_msg_fibentry" where
  "fibentry_of w net fe event = \<lparr>fib_net = xeth_sbtx_ns_inum w net, fib_address = be32 (fe_dst fe),
     fib_mask = be32 (inet_make_mask (fe_dst_len fe)), fib_event = of_nat event,
     fib_nhs = of_nat (length (fe_fi fe)), fib_tos = fe_tos fe, fib_type = fe_type fe,
     fib_table = fe_tb_id fe\<rparr>"

lemma fib_entry_nhs: "length (fe_fi fe) \<le> 255 \<Longrightarrow> unat (of_nat (length (fe_fi fe)) :: u8) = length (fe_fi fe)"
  by (simp add: unat_of_nat)

definition fib_nh_stores :: "world \<Rightarrow> fib_entry_notifier_info \<Rightarrow> nat \<Rightarrow> store list" where
  "fib_nh_stores w fe i = next_hop_fields w (40 + i * 24) (fe_fi fe ! i)"

lemma fib_nh_stores_bounds:
  assumes "\<forall>c \<in> set (fe_fi fe). length (nhc_gw c) = 4" and "j < length (fe_fi fe)"
    and "st \<in> set (fib_nh_stores w fe j)"
  shows "40 + j * 24 \<le> fst st \<and> fst st + length (snd st) \<le> 40 + Suc j * 24"
  using assms by (auto simp: fib_nh_stores_def next_hop_fields_def)

lemma fib_entry_bounds:
  assumes "length (fe_fi fe) \<le> 255" and "\<forall>c \<in> set (fe_fi fe). length (nhc_gw c) = 4"
  shows "in_bounds (40 + length (fe_fi fe) * 24) (fib_entry_fields w net fe event)"
proof -
  have "16 \<le> fst st \<and> fst st + length (snd st) \<le> 40 + length (fe_fi fe) * 24"
    if "j < length (fe_fi fe)" "st \<in> set (fib_nh_stores w fe j)" for j st
  proof -
    have "Suc j * 24 \<le> length (fe_fi fe) * 24" using that(1) by (intro mult_le_mono1) simp
    with fib_nh_stores_bounds[OF assms(2) that] show ?thesis by linarith
  qed
  then show ?thesis
    using fib_entry_nhs[OF assms(1)]
    by (auto simp: in_bounds_def list_all_iff fib_entry_fields_def fib_entry_head_def xeth_sizeofs
        fib_nh_stores_def[symmetric])
qed

lemma fib_entry_message:
  fixes w :: world and net :: netp and event :: nat
  assumes "length (fe_fi fe) \<le> 255" and "\<forall>c \<in> set (fe_fi fe). length (nhc_gw c) = 4"
  defines "d \<equiv> message XETH_MSG_KIND_FIBENTRY (40 + length (fe_fi fe) * 24) (fib_entry_fields w net fe event)"
  shows "xeth_msg_fibentry_at d = fibentry_of w net fe event"
    and "i < length (fe_fi fe) \<Longrightarrow> xeth_next_hop_at (40 + i * 24) d = next_hop_of w (fe_fi fe ! i)"
proof -
  let ?n = "40 + length (fe_fi fe) * 24"
  let ?nh = "concat (map (fib_nh_stores w fe) [0..<length (fe_fi fe)])"
  define e where "e = put_all (xeth_sbtx_msg_set XETH_MSG_KIND_FIBENTRY @ fib_entry_head w net fe event)
      (replicate ?n 0)"
  have e: "length e = ?n" "d = put_all ?nh e" "xeth_msg_fibentry_at e = fibentry_of w net fe event"
  proof -
    show "length e = ?n" by (simp add: e_def)
    show "d = put_all ?nh e"
      using fib_entry_nhs[OF assms(1)] by (simp add: d_def e_def message_def put_all_concat
          fib_entry_fields_def xeth_sizeofs fib_nh_stores_def[abs_def])
    show "xeth_msg_fibentry_at e = fibentry_of w net fe event"
      by (simp add: e_def message_simps fib_entry_head_def fibentry_of_def xeth_msg_fibentry_at_def)
  qed
  have "\<forall>st \<in> set ?nh. 40 \<le> fst st"
    by (auto simp: fib_nh_stores_def next_hop_fields_def)
  then have low: "get_bytes off l d = get_bytes off l e" if "off + l \<le> 40" for off l
    unfolding e(2) using that by (intro get_put_all_other) fastforce
  then have "xeth_msg_fibentry_at d = xeth_msg_fibentry_at e"
    unfolding xeth_msg_fibentry_at_def by simp
  with e(3) show "xeth_msg_fibentry_at d = fibentry_of w net fe event" by simp
  assume i: "i < length (fe_fi fe)"
  then have "Suc i * 24 \<le> length (fe_fi fe) * 24" by (intro mult_le_mono1) simp
  then have fit: "40 + i * 24 + 24 \<le> ?n" by simp
  from put_all_array[of "length (fe_fi fe)" "fib_nh_stores w fe" 40 24 i "40 + i * 24" 24 e]
    fib_nh_stores_bounds[OF assms(2)] i
  obtain e' where e': "length e' = ?n" "get_bytes (40 + i * 24) 24 d = get_bytes (40 + i * 24) 24 (put_all (fib_nh_stores w fe i) e')"
    using e(1,2) by auto
  from next_hop_at_cong[OF e'(2)] next_hop_view[of "40 + i * 24" e' "fe_fi fe ! i" w] assms(2) i e'(1) fit
  show "xeth_next_hop_at (40 + i * 24) d = next_hop_of w (fe_fi fe ! i)" by (simp add: fib_nh_stores_def)
qed

section \<open>Properties\<close>

text \<open>
  C6: An interface report carries to the daemon exactly the proxy's state: for a proxy with an XID on a
  connected mux, \<^verbatim>\<open>xeth_sbtx_ifinfo\<close> appends one message of 72 bytes with a valid header whose fields
  read back as the XID, the kind and its data, the name, the name space, the index, the flags (those
  given, or else the device's), the address, the reason and the features.
\<close>

theorem ifinfo_message_correct:
  assumes "px_mux (w_proxy w q) = Some m" and "px_xid (w_proxy w q) \<noteq> 0"
    and "length (nd_dev_addr (w_nd w (px_nd (w_proxy w q)))) = 6"
    and "sb_inv (w_mux w m)" and "\<forall>p sz. k_kzalloc k p sz" and "connected m w"
  shows "\<exists>w' d. xeth_sbtx_ifinfo k q ifflags reason w = Inr (0, w') \<and> sb_inv (w_mux w' m)
    \<and> queued_msgs m w' = queued_msgs m w @ [d] \<and> length d = 72
    \<and> xeth_is_msg d \<and> xeth_msg_version_match d \<and> xeth_msg_kind_at d = xeth_msg_kind_code XETH_MSG_KIND_IFINFO
    \<and> (let px = w_proxy w q; nd = w_nd w (px_nd px) in xeth_msg_ifinfo_at d =
        \<lparr>ifi_xid = px_xid px, ifi_kdata = ifinfo_kdata px m w, ifi_ifname = ifname_bytes (nd_name nd),
         ifi_net = xeth_sbtx_ns_inum w (nd_net nd), ifi_ifindex = nd_ifindex nd,
         ifi_flags = (if ifflags \<noteq> 0 then ifflags else nd_flags nd), ifi_addr = nd_dev_addr nd,
         ifi_kind = xeth_dev_kind_code (px_kind px), ifi_reason = xeth_msg_ifinfo_reason_code reason,
         ifi_features = ifinfo_features k nd\<rparr>)"
proof -
  from msg_ifinfo.delivered[of "(k, w_proxy w q, m, ifflags, reason, w)", OF _ assms(4-6)] assms(3)
  obtain w' d where "sbtx_send k m sizeof_xeth_msg_ifinfo XETH_MSG_KIND_IFINFO
      (ifinfo_fields k (w_proxy w q) m ifflags reason w) w = Inr (0, w')" "sb_inv (w_mux w' m)"
    "queued_msgs m w' = queued_msgs m w @ [d]" and d: "length d = 72" "xeth_is_msg d"
    "xeth_msg_version_match d" "xeth_msg_kind_at d = xeth_msg_kind_code XETH_MSG_KIND_IFINFO"
    "xeth_msg_ifinfo_at d = (let px = w_proxy w q; nd = w_nd w (px_nd px) in
        \<lparr>ifi_xid = px_xid px, ifi_kdata = ifinfo_kdata px m w, ifi_ifname = ifname_bytes (nd_name nd),
         ifi_net = xeth_sbtx_ns_inum w (nd_net nd), ifi_ifindex = nd_ifindex nd,
         ifi_flags = (if ifflags \<noteq> 0 then ifflags else nd_flags nd), ifi_addr = nd_dev_addr nd,
         ifi_kind = xeth_dev_kind_code (px_kind px), ifi_reason = xeth_msg_ifinfo_reason_code reason,
         ifi_features = ifinfo_features k nd\<rparr>)"
    by (auto simp: sizeof_xeth_msg_ifinfo_def Let_def)
  with assms(1,2) show ?thesis
    by (intro exI[of _ w'] exI[of _ d]) (simp add: xeth_sbtx_ifinfo_def Let_def)
qed

lemma sample_connected: "connected 1 sample_world"
  by (simp add: connected_def sample_world_def sample_mux_def)

theorem ifinfo_message_correct_witness:
  "\<exists>w' d. xeth_sbtx_ifinfo sample_kapi 4 0 XETH_IFINFO_REASON_DUMP sample_world = Inr (0, w')
    \<and> queued_msgs 1 w' = queued_msgs 1 sample_world @ [d] \<and> length d = 72
    \<and> ifi_xid (xeth_msg_ifinfo_at d) = 23480 \<and> ifi_flags (xeth_msg_ifinfo_at d) = 1"
proof -
  have "length (nd_dev_addr (w_nd sample_world (px_nd (w_proxy sample_world 4)))) = 6"
    "px_mux (w_proxy sample_world 4) = Some 1" "px_xid (w_proxy sample_world 4) = 23480"
    "nd_flags (w_nd sample_world (px_nd (w_proxy sample_world 4))) = 1"
    "sb_inv (w_mux sample_world 1)" "\<forall>p sz. k_kzalloc sample_kapi p sz"
    using sample_sb_inv by (simp_all add: sample_world_def sample_nds_def sample_nd_def sample_proxies_def sample_kapi_def)
  with ifinfo_message_correct[of sample_world 4 1 sample_kapi 0 XETH_IFINFO_REASON_DUMP] sample_connected
  show ?thesis by (auto simp: Let_def)
qed

text \<open>
  C7: A route report carries all next hops: for a route with at most 255 of them,
  \<^verbatim>\<open>xeth_sbtx_fib_entry\<close> appends one message whose head reads back as the route and whose i-th next hop
  record reads back as the i-th next hop, all inside the message.
\<close>

theorem fib_entry_message_correct:
  assumes "length (fe_fi fe) \<le> 255" and "\<forall>c \<in> set (fe_fi fe). length (nhc_gw c) = 4"
    and "sb_inv (w_mux w m)" and "\<forall>p sz. k_kzalloc k p sz" and "connected m w"
  shows "\<exists>w' d. xeth_sbtx_fib_entry k m net fe event w = Inr (0, w') \<and> sb_inv (w_mux w' m)
    \<and> queued_msgs m w' = queued_msgs m w @ [d]
    \<and> length d = sizeof_xeth_msg_fibentry + length (fe_fi fe) * sizeof_xeth_next_hop
    \<and> xeth_msg_fibentry_at d = fibentry_of w net fe event
    \<and> (\<forall>i < length (fe_fi fe). xeth_next_hop_at (sizeof_xeth_msg_fibentry + i * sizeof_xeth_next_hop) d
          = next_hop_of w (fe_fi fe ! i))"
proof -
  let ?n = "40 + length (fe_fi fe) * 24"
  note bnd = fib_entry_bounds[OF assms(1,2), of w net event]
  from sbtx_send_total[OF assms(3) _ bnd assms(4)] obtain w' where
    w': "sbtx_send k m ?n XETH_MSG_KIND_FIBENTRY (fib_entry_fields w net fe event) w = Inr (0, w')" by auto
  with sbtx_send_spec[OF assms(3) _ bnd w'] assms(5) have "sb_inv (w_mux w' m)"
    "queued_msgs m w' = queued_msgs m w @ [message XETH_MSG_KIND_FIBENTRY ?n (fib_entry_fields w net fe event)]"
    by simp_all
  with w' fib_entry_message[OF assms(1,2), where w = w and net = net and event = event] show ?thesis
    by (intro exI[of _ w']) (auto simp: xeth_sbtx_fib_entry_def xeth_sizeofs)
qed

definition sample_fib :: fib_entry_notifier_info where
  "sample_fib = \<lparr>fe_dst = 0x0a000000, fe_dst_len = 8, fe_tos = 0, fe_type = 1, fe_tb_id = 254,
     fe_fi = [\<lparr>nhc_dev = Some 2, nhc_weight = 1, nhc_flags = 0, nhc_gw = [10, 0, 0, 2], nhc_scope = 0\<rparr>,
              \<lparr>nhc_dev = None, nhc_weight = 2, nhc_flags = 0, nhc_gw = [10, 0, 0, 3], nhc_scope = 0\<rparr>]\<rparr>"

lemma sample_sb_world: "sb_inv (w_mux sample_world 1)" "\<forall>p sz. k_kzalloc sample_kapi p sz"
  using sample_sb_inv by (simp_all add: sample_world_def sample_kapi_def)

theorem fib_entry_message_correct_witness:
  "\<exists>w' d. xeth_sbtx_fib_entry sample_kapi 1 0 sample_fib 5 sample_world = Inr (0, w')
    \<and> queued_msgs 1 w' = queued_msgs 1 sample_world @ [d] \<and> length d = 88
    \<and> xeth_next_hop_at 64 d = next_hop_of sample_world (fe_fi sample_fib ! 1)"
proof -
  have len: "length (fe_fi sample_fib) = 2" "\<forall>c \<in> set (fe_fi sample_fib). length (nhc_gw c) = 4"
    by (simp_all add: sample_fib_def)
  with fib_entry_message_correct[of sample_fib sample_world 1 sample_kapi 0 5] sample_sb_world sample_connected
  obtain w' d where "xeth_sbtx_fib_entry sample_kapi 1 0 sample_fib 5 sample_world = Inr (0, w')"
    "queued_msgs 1 w' = queued_msgs 1 sample_world @ [d]" "length d = 88"
    "\<forall>i < 2. xeth_next_hop_at (40 + i * 24) d = next_hop_of sample_world (fe_fi sample_fib ! i)"
    by (auto simp: xeth_sizeofs)
  moreover from this(4)[rule_format, of 1]
  have "xeth_next_hop_at 64 d = next_hop_of sample_world (fe_fi sample_fib ! 1)" by simp
  ultimately show ?thesis by blast
qed

text \<open>
  The settings of a port are reported in two messages: the settings proper, in which the speed is
  zero under auto negotiation whatever the port's speed is, and the advertised link modes, in which a
  bit is set exactly for the advertised modes below 64.
\<close>

theorem et_settings_messages_correct:
  assumes "sb_inv (w_mux w m)" and "\<forall>p sz. k_kzalloc k p sz" and "connected m w"
  shows "\<exists>w' d e. xeth_sbtx_et_settings k m xid ks w = Inr (0, w') \<and> sb_inv (w_mux w' m)
    \<and> queued_msgs m w' = queued_msgs m w @ [d, e]
    \<and> xeth_msg_ethtool_settings_at d = \<lparr>ets_xid = xid, ets_speed = (if ks_autoneg ks \<noteq> 0 then 0 else ks_speed ks),
         ets_duplex = ks_duplex ks, ets_port = ks_port ks, ets_phy_address = ks_phy_address ks,
         ets_autoneg = ks_autoneg ks, ets_mdio_support = ks_mdio_support ks,
         ets_eth_tp_mdix = ks_eth_tp_mdix ks, ets_eth_tp_mdix_ctrl = ks_eth_tp_mdix_ctrl ks\<rparr>
    \<and> xeth_msg_kind_at e = xeth_msg_kind_code XETH_MSG_KIND_ETHTOOL_LINK_MODES_ADVERTISING
    \<and> etlm_xid (xeth_msg_ethtool_link_modes_at e) = xid
    \<and> (\<forall>b. bit (etlm_modes (xeth_msg_ethtool_link_modes_at e)) b \<longleftrightarrow>
          b \<in> ks_advertising ks \<and> b < min (k_link_mode_nbits k) 64)"
proof -
  from msg_settings.delivered[where a = "(xid, ks)", OF _ assms] obtain w1 d where w1:
    "sbtx_send k m sizeof_xeth_msg_ethtool_settings XETH_MSG_KIND_ETHTOOL_SETTINGS (et_settings_fields xid ks) w = Inr (0, w1)"
    "sb_inv (w_mux w1 m)" "only_mux_sb m w w1" "queued_msgs m w1 = queued_msgs m w @ [d]"
    "xeth_msg_ethtool_settings_at d = \<lparr>ets_xid = xid, ets_speed = (if ks_autoneg ks \<noteq> 0 then 0 else ks_speed ks),
         ets_duplex = ks_duplex ks, ets_port = ks_port ks, ets_phy_address = ks_phy_address ks,
         ets_autoneg = ks_autoneg ks, ets_mdio_support = ks_mdio_support ks,
         ets_eth_tp_mdix = ks_eth_tp_mdix ks, ets_eth_tp_mdix_ctrl = ks_eth_tp_mdix_ctrl ks\<rparr>"
    by auto
  have "connected m w1" using assms(3) only_mux_sb_connected[OF w1(3)] by simp
  from msg_modes.delivered[where a = "(xid, link_modes_word (k_link_mode_nbits k) (ks_advertising ks))"
      and kd = XETH_MSG_KIND_ETHTOOL_LINK_MODES_ADVERTISING,
      OF _ w1(2) assms(2) this]
  obtain w' e where "xeth_sbtx_et_link_modes k m XETH_MSG_KIND_ETHTOOL_LINK_MODES_ADVERTISING xid
      (ks_advertising ks) w1 = Inr (0, w')" "sb_inv (w_mux w' m)" "queued_msgs m w' = queued_msgs m w1 @ [e]"
    "xeth_msg_kind_at e = xeth_msg_kind_code XETH_MSG_KIND_ETHTOOL_LINK_MODES_ADVERTISING"
    "xeth_msg_ethtool_link_modes_at e =
      \<lparr>etlm_xid = xid, etlm_modes = link_modes_word (k_link_mode_nbits k) (ks_advertising ks)\<rparr>"
    unfolding xeth_sbtx_et_link_modes_def by auto
  with w1 show ?thesis
    by (intro exI[of _ w'] exI[of _ d] exI[of _ e])
      (auto simp: xeth_sbtx_et_settings_def link_modes_word_bits)
qed

theorem et_settings_messages_correct_witness:
  "\<exists>w' d e. xeth_sbtx_et_settings sample_kapi 1 3000 sample_ksettings sample_world = Inr (0, w')
    \<and> queued_msgs 1 w' = queued_msgs 1 sample_world @ [d, e]
    \<and> ets_speed (xeth_msg_ethtool_settings_at d) = 100000
    \<and> bit (etlm_modes (xeth_msg_ethtool_link_modes_at e)) 6"
  using et_settings_messages_correct[OF sample_sb_world sample_connected, of 3000 sample_ksettings]
  by (fastforce simp: sample_ksettings_def sample_kapi_def)

lemma length_store_all: "store_all sts d = Inr e \<Longrightarrow> length e = length d"
proof -
  assume *: "store_all sts d = Inr e"
  have "length e = length d"
    using * unfolding store_all_def
    by (rule foldR_invariant[where I = "\<lambda>x. length x = length d"])
      (auto simp: store_bytes_def split: if_splits)
  then show ?thesis .
qed

lemma sbtx_send_length:
  assumes inv: "sb_inv (w_mux w m)" and "connected m w" and res: "sbtx_send k m n kd flds w = Inr (r, w')"
  shows "\<exists>d. queued_msgs m w' = queued_msgs m w @ [d] \<and> length d = n"
proof -
  from res obtain r0 p where al: "xeth_mux_alloc_sbtxb (k_kzalloc k) n (w_mux w m) = Inr (r0, p)"
    by (auto simp: sbtx_send_def bindR_eq_Inr)
  from alloc_sbtxb_spec[OF inv al] obtain b where b: "r0 = Some b" "sbtxb_ok b" "sb_len b = n"
    "mx_sb_tx p = mx_sb_tx (w_mux w m)" "mx_flags p = mx_flags (w_mux w m)" by blast
  with res al obtain e where e: "store_all (xeth_sbtx_msg_set kd @ flds) (sb_data b) = Inr e"
    "w' = upd_mux m (\<lambda>_. xeth_mux_queue_sbtx (b\<lparr>sb_data := e\<rparr>) p) w"
    by (auto simp: sbtx_send_def bindR_eq_Inr)
  have "length (sb_msg (b\<lparr>sb_data := e\<rparr>)) = n"
    using length_store_all[OF e(1)] b(2,3) by (simp add: sb_msg_def sbtxb_ok_def)
  moreover have "queued_msgs m w' = queued_msgs m w @ [sb_msg (b\<lparr>sb_data := e\<rparr>)]"
    using assms(2) b(4,5) by (simp add: e(2) queued_msgs_def connected_def sbq_defs)
  ultimately show ?thesis by blast
qed

text \<open>
  The report of an IPv6 route with siblings is too short: whatever the pool, when it is queued its
  length counts eight bytes per sibling, while the records the daemon has to read take 32 bytes each.
\<close>

theorem fib6_entry_truncated:
  assumes "f6_nexthop f = None" and "0 < f6_nsiblings f" and "sb_inv (w_mux w m)" and "connected m w"
    and "xeth_sbtx_fib6_entry k m net (Some (Inr f)) event w = Inr (r, w')"
  shows "\<exists>d. queued_msgs m w' = queued_msgs m w @ [d]
    \<and> length d = sizeof_xeth_msg_fib6entry + f6_nsiblings f * 8
    \<and> length d < sizeof_xeth_msg_fib6entry + f6_nsiblings f * sizeof_xeth_next_hop6"
  using sbtx_send_length[OF assms(3,4)] assms(1,2,5)
  by (fastforce simp: xeth_sbtx_fib6_entry_def xeth_sizeofs)

text \<open>
  With enough siblings and no larger buffer in the pool, the same report stores past the end of its
  allocation.
\<close>

theorem fib6_entry_overflows:
  assumes "f6_nexthop f = None" and "f6_nsiblings f = length (f6_siblings f)"
    and "\<forall>c \<in> set (f6_siblings f). length (nhc_gw c) = 16"
    and "mx_sb_free (w_mux w m) = []" and "\<forall>p sz. k_kzalloc k p sz" and "29 \<le> length (f6_siblings f)"
    and "length (f6_siblings f) \<le> 100"
  shows "xeth_sbtx_fib6_entry k m net (Some (Inr f)) event w = Inl Out_of_bounds"
proof -
  let ?s = "length (f6_siblings f)"
  let ?c = "f6_siblings f ! (?s - 1)"
  let ?sz = "align_up (xeth_sbtxb_size + (80 + ?s * 8)) 1024 - xeth_sbtxb_size"
  have "(1135 + ?s * 8) div 1024 = 1" using assms(7) by (intro div_nat_eqI) simp_all
  then have "?sz < 80 + ?s * 32" using assms(6) by (simp add: align_up_def xeth_sbtxb_size_def)
  moreover have "(80 + (?s - 1) * 32 + 16, take 16 (nhc_gw ?c)) \<in> set (sibling_fields w (f6_siblings f))"
    using assms(6) by (auto simp: sibling_fields_def next_hop6_fields_def xeth_sizeofs intro!: bexI[of _ "?s - 1"])
  moreover have "length (nhc_gw ?c) = 16" using assms(3,6) by (auto simp: Suc_le_eq)
  ultimately have "\<exists>st \<in> set (sibling_fields w (f6_siblings f)). ?sz < fst st + length (snd st)"
    using assms(6) by (intro bexI[of _ "(80 + (?s - 1) * 32 + 16, take 16 (nhc_gw ?c))"]) auto
  then have "store_all (xeth_sbtx_msg_set XETH_MSG_KIND_FIB6ENTRY @ fib6_fields w net f event ?s
      @ next_hop6_fields w 48 (f6_nh f) @ sibling_fields w (f6_siblings f)) (replicate ?sz 0) = Inl Out_of_bounds"
    by (intro store_all_fault) auto
  then show ?thesis
    using assms(1,2,4,5)
    by (simp add: xeth_sbtx_fib6_entry_def sbtx_send_def xeth_mux_alloc_sbtxb_def Let_def xeth_sizeofs)
qed

definition sample_fib6 :: "nat \<Rightarrow> fib6_info" where
  "sample_fib6 n = (let c = \<lparr>nhc_dev = None, nhc_weight = 1, nhc_flags = 0, nhc_gw = replicate 16 0, nhc_scope = 0\<rparr>
     in \<lparr>f6_addr = replicate 16 0, f6_plen = 64, f6_type = 1, f6_tb_id = 254, f6_nexthop = None,
         f6_nh = c, f6_nsiblings = n, f6_siblings = replicate n c\<rparr>)"

theorem fib6_entry_truncated_witness:
  "\<exists>r w' d. xeth_sbtx_fib6_entry sample_kapi 1 0 (Some (Inr (sample_fib6 2))) 5 sample_world = Inr (r, w')
    \<and> queued_msgs 1 w' = queued_msgs 1 sample_world @ [d] \<and> length d = 96"
proof -
  have "\<exists>r w'. xeth_sbtx_fib6_entry sample_kapi 1 0 (Some (Inr (sample_fib6 2))) 5 sample_world = Inr (r, w')"
    by (simp add: xeth_sbtx_fib6_entry_def sbtx_send_def xeth_mux_alloc_sbtxb_def Let_def xeth_sizeofs
        sample_fib6_def sample_kapi_def sample_world_def sample_mux_def align_up_def xeth_sbtxb_size_def
        store_all_in_bounds fib6_fields_def next_hop6_fields_def sibling_fields_def xeth_sbtx_msg_set_def
        numeral_2_eq_2)
  then obtain r w' where *: "xeth_sbtx_fib6_entry sample_kapi 1 0 (Some (Inr (sample_fib6 2))) 5 sample_world = Inr (r, w')"
    by blast
  from fib6_entry_truncated[OF _ _ sample_sb_world(1) sample_connected this] show ?thesis
    using * by (auto simp: sample_fib6_def Let_def xeth_sizeofs)
qed

theorem fib6_entry_overflows_witness:
  "xeth_sbtx_fib6_entry sample_kapi 1 0 (Some (Inr (sample_fib6 29))) 5 sample_world = Inl Out_of_bounds"
  by (rule fib6_entry_overflows) (simp_all add: sample_fib6_def Let_def sample_world_def sample_mux_def sample_kapi_def)

end
