(* ===== verification/Xeth_Ethtool.thy ===== *)
theory Xeth_Ethtool
  imports Xeth_Sbtx
begin

text \<open>
  The ethtool side of the driver: the names and values of the mux counters and flags and the names of
  the port statistics (\<^verbatim>\<open>dkms/xeth_mux.c\<close>), and the private data of a port with its link settings, FEC
  parameters, private flags and statistics (\<^verbatim>\<open>dkms/xeth_port.c\<close>).
\<close>

section \<open>Mux counters, flags and statistic names\<close>

definition ETH_GSTRING_LEN :: nat where "ETH_GSTRING_LEN = 32"

datatype sset = ETH_SS_TEST | ETH_SS_STATS | ETH_SS_PRIV_FLAGS | ETH_SS_OTHER

definition xeth_mux_eto_get_sset_count :: "sset \<Rightarrow> int" where
  "xeth_mux_eto_get_sset_count sset =
     (case sset of
        ETH_SS_TEST \<Rightarrow> 0
      | ETH_SS_STATS \<Rightarrow> int xeth_mux_n_counters
      | ETH_SS_PRIV_FLAGS \<Rightarrow> int xeth_mux_n_flags
      | ETH_SS_OTHER \<Rightarrow> - EOPNOTSUPP)"

text \<open>The loop \<^verbatim>\<open>for (i = 0; names[i]; i++)\<close> copies up to the first NULL entry.\<close>

fun names_up_to_null :: "string option list \<Rightarrow> string list" where
  "names_up_to_null [] = []"
| "names_up_to_null (None # ns) = []"
| "names_up_to_null (Some s # ns) = take (ETH_GSTRING_LEN - 1) s # names_up_to_null ns"

definition xeth_mux_eto_get_strings :: "sset \<Rightarrow> string list" where
  "xeth_mux_eto_get_strings sset =
     (case sset of
        ETH_SS_STATS \<Rightarrow> names_up_to_null xeth_mux_counter_names
      | ETH_SS_PRIV_FLAGS \<Rightarrow> names_up_to_null xeth_mux_flag_names
      | _ \<Rightarrow> [])"

definition xeth_mux_eto_get_stats :: "xeth_mux_priv \<Rightarrow> u64 list" where
  "xeth_mux_eto_get_stats p = map (\<lambda>c. mx_counters p ! c) [0..<xeth_mux_n_counters]"

definition xeth_mux_eto_get_priv_flags :: "xeth_mux_priv \<Rightarrow> u32" where
  "xeth_mux_eto_get_priv_flags p = ucast (mx_flags p)"

definition xeth_mux_n_stats :: "xeth_mux_priv \<Rightarrow> nat" where
  "xeth_mux_n_stats p = mx_stat_named p"

text \<open>\<^verbatim>\<open>strncpy\<close> of a name: the bytes up to the first NUL.\<close>

definition c_string :: "u8 list \<Rightarrow> u8 list" where
  "c_string bs = takeWhile (\<lambda>b. b \<noteq> 0) (take ETH_GSTRING_LEN bs)"

definition xeth_mux_stat_names :: "xeth_mux_priv \<Rightarrow> u8 list list" where
  "xeth_mux_stat_names p = map (\<lambda>i. c_string (mx_stat_names p ! i)) [0..<mx_stat_named p]"

definition xeth_mux_n_priv_flags :: "xeth_mux_priv \<Rightarrow> nat" where
  "xeth_mux_n_priv_flags p = length (mx_priv_flag_names p)"

text \<open>
  The loop of \<^verbatim>\<open>xeth_mux_store_stat_name\<close>, \<open>n\<close> rounds before its end: stop at a newline or at the end of
  the input (which sysfs terminates with a NUL), else copy the byte.
\<close>

fun copy_name :: "nat \<Rightarrow> nat \<Rightarrow> u8 list \<Rightarrow> u8 list \<Rightarrow> u8 list" where
  "copy_name 0 i buf name = name"
| "copy_name (Suc n) i buf name =
     (let c = (if i < length buf then buf ! i else 0) in
      if c = 10 \<or> i = length buf then name[i := 0]
      else copy_name n (Suc i) buf (name[i := c]))"

definition xeth_mux_store_stat_name :: "u8 list \<Rightarrow> xeth_mux_priv \<Rightarrow> int \<times> xeth_mux_priv" where
  "xeth_mux_store_stat_name buf p =
     (if buf = [] \<or> buf ! 0 = 10 then (int (length buf), p\<lparr>mx_stat_named := 0\<rparr>)
      else if mx_stat_named p \<ge> xeth_mux_max_stats then (- EINVAL, p)
      else let i = mx_stat_named p;
               name = copy_name ETH_GSTRING_LEN 0 buf (mx_stat_names p ! i)
           in (int (length buf), p\<lparr>mx_stat_names := (mx_stat_names p)[i := name], mx_stat_named := i + 1\<rparr>))"

section \<open>Private data of a port\<close>

text \<open>The access to \<^verbatim>\<open>priv->ext[0]\<close>, which is allocated for the first subport only.\<close>

definition port_ext :: "ndp \<Rightarrow> world \<Rightarrow> xeth_port_ext outcome" where
  "port_ext nd w = (case pp_ext (w_port w nd) of None \<Rightarrow> Inl Out_of_bounds | Some e \<Rightarrow> Inr e)"

definition upd_ext :: "ndp \<Rightarrow> (xeth_port_ext \<Rightarrow> xeth_port_ext) \<Rightarrow> world \<Rightarrow> world" where
  "upd_ext nd f w = upd_port nd (\<lambda>pp. pp\<lparr>pp_ext := map_option f (pp_ext pp)\<rparr>) w"

definition proxy_mux :: "ndp \<Rightarrow> world \<Rightarrow> ndp outcome" where
  "proxy_mux q w = (case px_mux (w_proxy w q) of None \<Rightarrow> Inl Null_deref | Some m \<Rightarrow> Inr m)"

definition inc_counter :: "xeth_mux_counter \<Rightarrow> ndp \<Rightarrow> world \<Rightarrow> world" where
  "inc_counter c m w = upd_mux m (upd_counters (xeth_mux_inc c)) w"

definition xeth_port_ethtool_priv_flags :: "ndp \<Rightarrow> world \<Rightarrow> u32 outcome" where
  "xeth_port_ethtool_priv_flags nd w =
     (if pp_subport (w_port w nd) \<le> 0 then bindR (port_ext nd w) (\<lambda>e. Inr (ext_priv_flags e)) else Inr 0)"

definition xeth_port_reset_ethtool_stats :: "ndp \<Rightarrow> world \<Rightarrow> world outcome" where
  "xeth_port_reset_ethtool_stats nd w =
     (if pp_subport (w_port w nd) \<le> 0
      then bindR (port_ext nd w) (\<lambda>e. Inr (upd_ext nd (\<lambda>e. e\<lparr>ext_stats :=
             fold (\<lambda>i st. st[i := 0]) [0..<xeth_mux_max_stats] (ext_stats e)\<rparr>) w))
      else Inr w)"

definition xeth_port_ethtool_stat :: "ndp \<Rightarrow> u32 \<Rightarrow> u64 \<Rightarrow> world \<Rightarrow> world outcome" where
  "xeth_port_ethtool_stat nd index count w =
     (if unat index < xeth_mux_max_stats
      then bindR (port_ext nd w) (\<lambda>e. Inr (upd_ext nd (\<lambda>e. e\<lparr>ext_stats := (ext_stats e)[unat index := count]\<rparr>) w))
      else bindR (proxy_mux nd w) (\<lambda>m. Inr (inc_counter sbrx_invalid m w)))"

definition xeth_port_speed :: "ndp \<Rightarrow> u32 \<Rightarrow> world \<Rightarrow> world" where
  "xeth_port_speed nd mbps w =
     upd_port nd (\<lambda>pp. pp\<lparr>pp_ksettings := (pp_ksettings pp)\<lparr>ks_speed := mbps\<rparr>\<rparr>) w"

definition xeth_mux_reset_all_port_ethtool_stats :: "ndp \<Rightarrow> world \<Rightarrow> world outcome" where
  "xeth_mux_reset_all_port_ethtool_stats m w =
     foldR (\<lambda>q w. xeth_port_reset_ethtool_stats (px_nd (w_proxy w q)) w) (mx_ports (w_mux w m)) w"

definition xeth_port_get_sset_count :: "ndp \<Rightarrow> sset \<Rightarrow> world \<Rightarrow> int outcome" where
  "xeth_port_get_sset_count nd sset w =
     (case sset of
        ETH_SS_TEST \<Rightarrow> Inr 0
      | ETH_SS_STATS \<Rightarrow> bindR (proxy_mux nd w) (\<lambda>m. Inr (int (xeth_mux_n_stats (w_mux w m))))
      | ETH_SS_PRIV_FLAGS \<Rightarrow> bindR (proxy_mux nd w) (\<lambda>m. Inr (int (xeth_mux_n_priv_flags (w_mux w m))))
      | ETH_SS_OTHER \<Rightarrow> Inr (- EOPNOTSUPP))"

definition xeth_port_get_stats :: "ndp \<Rightarrow> world \<Rightarrow> u64 list outcome" where
  "xeth_port_get_stats nd w =
     bindR (proxy_mux nd w) (\<lambda>m.
       foldR (\<lambda>i data. bindR (port_ext nd w) (\<lambda>e.
                if i < length (ext_stats e) then Inr (data @ [ext_stats e ! i]) else Inl Out_of_bounds))
         [0..<xeth_mux_n_stats (w_mux w m)] [])"

definition xeth_port_get_priv_flags :: "ndp \<Rightarrow> world \<Rightarrow> u32 outcome" where
  "xeth_port_get_priv_flags nd w =
     (if pp_subport (w_port w nd) \<le> 0 then bindR (port_ext nd w) (\<lambda>e. Inr (ext_priv_flags e)) else Inr 0)"

definition xeth_port_set_priv_flags :: "kapi \<Rightarrow> ndp \<Rightarrow> u32 \<Rightarrow> world \<Rightarrow> (int \<times> world) outcome" where
  "xeth_port_set_priv_flags k nd flags w =
     (if pp_subport (w_port w nd) > 0 then Inr (- EINVAL, w)
      else bindR (port_ext nd w) (\<lambda>_.
             let w = upd_ext nd (\<lambda>e. e\<lparr>ext_priv_flags := flags\<rparr>) w in
             bindR (proxy_mux nd w) (\<lambda>m.
               bindR (xeth_sbtx_et_flags k m (px_xid (w_proxy w nd)) flags w) (\<lambda>(_, w). Inr (0, w)))))"

section \<open>Link settings\<close>

text \<open>Bit numbers of \<^verbatim>\<open>enum ethtool_link_mode_bit_indices\<close> and codes of the kernel's ethtool interface.\<close>

definition LM_Autoneg :: nat where "LM_Autoneg = 6"
definition LM_TP :: nat where "LM_TP = 7"
definition LM_AUI :: nat where "LM_AUI = 8"
definition LM_MII :: nat where "LM_MII = 9"
definition LM_FIBRE :: nat where "LM_FIBRE = 10"
definition LM_BNC :: nat where "LM_BNC = 11"
definition LM_FEC_NONE :: nat where "LM_FEC_NONE = 49"
definition LM_FEC_RS :: nat where "LM_FEC_RS = 50"
definition LM_FEC_BASER :: nat where "LM_FEC_BASER = 51"

text \<open>
  10000baseKX4, 10000baseKR, 10000baseR-FEC, 20000baseMLD2, 20000baseKR2, 25000baseCR, 25000baseKR,
  25000baseSR, 40000baseKR4, 40000baseCR4, 40000baseSR4, 40000baseLR4, 50000baseCR2, 50000baseKR2,
  50000baseSR2.
\<close>

definition LM_subport_speeds :: "nat set" where
  "LM_subport_speeds = {18, 19, 20, 21, 22, 31, 32, 33, 23, 24, 25, 26, 34, 35, 40}"

text \<open>100000baseKR4, 100000baseSR4, 100000baseCR4, 100000baseLR4-ER4.\<close>

definition LM_100G_speeds :: "nat set" where "LM_100G_speeds = {36, 37, 38, 39}"

definition DUPLEX_HALF :: u8 where "DUPLEX_HALF = 0"
definition DUPLEX_FULL :: u8 where "DUPLEX_FULL = 1"
definition DUPLEX_UNKNOWN :: u8 where "DUPLEX_UNKNOWN = 0xff"
definition AUTONEG_DISABLE :: u8 where "AUTONEG_DISABLE = 0"
definition AUTONEG_ENABLE :: u8 where "AUTONEG_ENABLE = 1"
definition PORT_OTHER :: u8 where "PORT_OTHER = 0xff"

definition xeth_port_ksettings :: "ethtool_link_ksettings \<Rightarrow> ethtool_link_ksettings" where
  "xeth_port_ksettings ks =
     (let supp = {LM_Autoneg} \<union> LM_subport_speeds \<union> LM_100G_speeds
                   \<union> {LM_TP, LM_FIBRE, LM_FEC_NONE, LM_FEC_RS, LM_FEC_BASER}
      in ks\<lparr>ks_speed := 0, ks_duplex := DUPLEX_FULL, ks_autoneg := AUTONEG_ENABLE, ks_port := PORT_OTHER,
            ks_supported := supp, ks_advertising := supp - {LM_FEC_NONE}\<rparr>)"

definition xeth_subport_ksettings :: "ethtool_link_ksettings \<Rightarrow> ethtool_link_ksettings" where
  "xeth_subport_ksettings ks =
     (let supp = {LM_Autoneg} \<union> LM_subport_speeds
                   \<union> {LM_TP, LM_FIBRE, LM_FEC_NONE, LM_FEC_RS, LM_FEC_BASER}
      in ks\<lparr>ks_speed := 0, ks_duplex := DUPLEX_FULL, ks_autoneg := AUTONEG_ENABLE, ks_port := PORT_OTHER,
            ks_supported := supp, ks_advertising := supp\<rparr>)"

definition xeth_port_get_link_ksettings :: "ndp \<Rightarrow> world \<Rightarrow> ethtool_link_ksettings" where
  "xeth_port_get_link_ksettings nd w = pp_ksettings (w_port w nd)"

definition xeth_port_validate_port :: "ethtool_link_ksettings \<Rightarrow> u8 \<Rightarrow> int" where
  "xeth_port_validate_port ks port =
     (let t = (if port = 0 then LM_TP \<in> ks_supported ks
               else if port = 1 then LM_AUI \<in> ks_supported ks
               else if port = 2 then LM_MII \<in> ks_supported ks
               else if port = 3 then LM_FIBRE \<in> ks_supported ks
               else if port = 4 then LM_BNC \<in> ks_supported ks
               else port = 5 \<or> port = 0xef \<or> port = PORT_OTHER)
      in if t then 0 else - EINVAL)"

definition xeth_port_validate_duplex :: "u8 \<Rightarrow> int" where
  "xeth_port_validate_duplex duplex =
     (if duplex \<noteq> DUPLEX_HALF \<and> duplex \<noteq> DUPLEX_FULL \<and> duplex \<noteq> DUPLEX_UNKNOWN then - EINVAL else 0)"

definition xeth_port_validate_speed :: "u32 \<Rightarrow> int" where
  "xeth_port_validate_speed speed =
     (if speed \<noteq> 100000 \<and> speed \<noteq> 50000 \<and> speed \<noteq> 40000 \<and> speed \<noteq> 25000 \<and> speed \<noteq> 20000
         \<and> speed \<noteq> 10000 \<and> speed \<noteq> 1000 then - EINVAL else 0)"

text \<open>
  The checks of \<^verbatim>\<open>xeth_port_set_link_ksettings\<close> with the settings as they are left: on an error the port
  type has already been changed when the error is found.
\<close>

definition change_ksettings ::
    "nat \<Rightarrow> ethtool_link_ksettings \<Rightarrow> ethtool_link_ksettings \<Rightarrow> int \<times> ethtool_link_ksettings" where
  "change_ksettings nbits req ks =
     (let err = (if ks_port req \<noteq> ks_port ks then xeth_port_validate_port ks (ks_port req) else 0) in
      if err \<noteq> 0 then (err, ks)
      else let ks = ks\<lparr>ks_port := ks_port req\<rparr> in
        if ks_autoneg req = AUTONEG_DISABLE
        then let err = xeth_port_validate_speed (ks_speed req) in
             if err \<noteq> 0 then (err, ks)
             else let err = xeth_port_validate_duplex (ks_duplex req) in
             if err \<noteq> 0 then (err, ks)
             else (0, ks\<lparr>ks_autoneg := ks_autoneg req, ks_speed := ks_speed req, ks_duplex := ks_duplex req\<rparr>)
        else if (ks_advertising req - ks_supported ks) \<inter> {..<nbits} \<noteq> {} then (- EINVAL, ks)
        else let err = xeth_port_validate_duplex (ks_duplex req) in
             if err \<noteq> 0 then (err, ks)
             else (0, ks\<lparr>ks_advertising := ks_advertising req, ks_autoneg := AUTONEG_ENABLE, ks_speed := 0,
                         ks_duplex := ks_duplex req\<rparr>))"

definition set_ksettings :: "ndp \<Rightarrow> ethtool_link_ksettings \<Rightarrow> world \<Rightarrow> world" where
  "set_ksettings nd ks w = upd_port nd (\<lambda>pp. pp\<lparr>pp_ksettings := ks\<rparr>) w"

definition xeth_port_set_link_ksettings ::
    "kapi \<Rightarrow> ndp \<Rightarrow> ethtool_link_ksettings \<Rightarrow> world \<Rightarrow> (int \<times> world) outcome" where
  "xeth_port_set_link_ksettings k nd req w =
     (let (err, ks) = change_ksettings (k_link_mode_nbits k) req (pp_ksettings (w_port w nd));
          w = set_ksettings nd ks w
      in if err \<noteq> 0 then Inr (err, w)
         else bindR (proxy_mux nd w) (\<lambda>m. xeth_sbtx_et_settings k m (px_xid (w_proxy w nd)) ks w))"

section \<open>Forward error correction\<close>

definition ETHTOOL_FEC_NONE :: u32 where "ETHTOOL_FEC_NONE = 1"
definition ETHTOOL_FEC_AUTO :: u32 where "ETHTOOL_FEC_AUTO = 2"
definition ETHTOOL_FEC_OFF :: u32 where "ETHTOOL_FEC_OFF = 4"
definition ETHTOOL_FEC_RS :: u32 where "ETHTOOL_FEC_RS = 8"
definition ETHTOOL_FEC_BASER :: u32 where "ETHTOOL_FEC_BASER = 16"

lemmas fec_defs = ETHTOOL_FEC_NONE_def ETHTOOL_FEC_AUTO_def ETHTOOL_FEC_OFF_def ETHTOOL_FEC_RS_def
  ETHTOOL_FEC_BASER_def LM_FEC_NONE_def LM_FEC_RS_def LM_FEC_BASER_def

record ethtool_fecparam =
  active_fec :: u32
  fec :: u32

text \<open>The last branch assigns \<^verbatim>\<open>param->fec\<close>, not \<^verbatim>\<open>param->active_fec\<close>.\<close>

definition xeth_port_get_fecparam :: "ethtool_link_ksettings \<Rightarrow> ethtool_fecparam" where
  "xeth_port_get_fecparam ks =
     (let both = ETHTOOL_FEC_RS OR ETHTOOL_FEC_BASER;
          f = (0 :: u32);
          f = (if LM_FEC_NONE \<in> ks_supported ks then f OR ETHTOOL_FEC_OFF else f);
          f = (if LM_FEC_RS \<in> ks_supported ks then f OR ETHTOOL_FEC_RS else f);
          f = (if LM_FEC_BASER \<in> ks_supported ks then f OR ETHTOOL_FEC_BASER else f);
          f = (if f AND both = both then f OR ETHTOOL_FEC_AUTO else f);
          f = (if f = 0 then ETHTOOL_FEC_NONE else f)
      in if f = ETHTOOL_FEC_NONE then \<lparr>active_fec = ETHTOOL_FEC_NONE, fec = f\<rparr>
         else if LM_FEC_NONE \<in> ks_advertising ks then \<lparr>active_fec = ETHTOOL_FEC_OFF, fec = f\<rparr>
         else if LM_FEC_RS \<in> ks_advertising ks
              then \<lparr>active_fec = (if LM_FEC_BASER \<in> ks_advertising ks then ETHTOOL_FEC_AUTO else ETHTOOL_FEC_RS), fec = f\<rparr>
         else if LM_FEC_BASER \<in> ks_advertising ks then \<lparr>active_fec = 0, fec = ETHTOOL_FEC_BASER\<rparr>
         else \<lparr>active_fec = 0, fec = f\<rparr>)"

text \<open>The switch of \<^verbatim>\<open>xeth_port_set_fecparam\<close> on the requested mode.\<close>

definition change_fec :: "u32 \<Rightarrow> ethtool_link_ksettings \<Rightarrow> int \<times> ethtool_link_ksettings" where
  "change_fec f ks =
     (let adv = ks_advertising ks; supp = ks_supported ks in
      if f = ETHTOOL_FEC_AUTO
      then if LM_FEC_RS \<notin> supp \<or> LM_FEC_BASER \<notin> supp then (- EOPNOTSUPP, ks)
           else (0, ks\<lparr>ks_advertising := insert LM_FEC_BASER (insert LM_FEC_RS (adv - {LM_FEC_NONE}))\<rparr>)
      else if f = ETHTOOL_FEC_OFF
      then if LM_FEC_NONE \<notin> supp then (- EOPNOTSUPP, ks)
           else (0, ks\<lparr>ks_advertising := insert LM_FEC_NONE adv - {LM_FEC_RS} - {LM_FEC_BASER}\<rparr>)
      else if f = ETHTOOL_FEC_RS
      then if LM_FEC_RS \<notin> supp then (- EOPNOTSUPP, ks)
           else (0, ks\<lparr>ks_advertising := insert LM_FEC_RS (adv - {LM_FEC_NONE}) - {LM_FEC_BASER}\<rparr>)
      else if f = ETHTOOL_FEC_BASER
      then if LM_FEC_BASER \<notin> supp then (- EOPNOTSUPP, ks)
           else (0, ks\<lparr>ks_advertising := insert LM_FEC_BASER (adv - {LM_FEC_NONE} - {LM_FEC_RS})\<rparr>)
      else (- EINVAL, ks))"

definition xeth_port_set_fecparam :: "kapi \<Rightarrow> ndp \<Rightarrow> u32 \<Rightarrow> world \<Rightarrow> (int \<times> world) outcome" where
  "xeth_port_set_fecparam k nd f w =
     (let (err, ks) = change_fec f (pp_ksettings (w_port w nd)) in
      if err \<noteq> 0 then Inr (err, w)
      else let w = set_ksettings nd ks w in
           bindR (proxy_mux nd w) (\<lambda>m. xeth_sbtx_et_settings k m (px_xid (w_proxy w nd)) ks w))"

section \<open>Invariants\<close>

definition stat_names_ok :: "xeth_mux_priv \<Rightarrow> bool" where
  "stat_names_ok p \<longleftrightarrow> mx_stat_named p \<le> xeth_mux_max_stats
     \<and> length (mx_stat_names p) = xeth_mux_max_stats
     \<and> list_all (\<lambda>n. length n = ETH_GSTRING_LEN) (mx_stat_names p)"

text \<open>Settings that the driver may hold: what is advertised is supported, and the fields are in range.\<close>

definition ksettings_ok :: "nat \<Rightarrow> ethtool_link_ksettings \<Rightarrow> bool" where
  "ksettings_ok nbits ks \<longleftrightarrow> ks_advertising ks \<inter> {..<nbits} \<subseteq> ks_supported ks
     \<and> ks_duplex ks \<in> {DUPLEX_HALF, DUPLEX_FULL, DUPLEX_UNKNOWN}
     \<and> (if ks_autoneg ks = AUTONEG_DISABLE
        then ks_speed ks \<in> {100000, 50000, 40000, 25000, 20000, 10000, 1000}
        else ks_autoneg ks = AUTONEG_ENABLE \<and> ks_speed ks = 0)"

text \<open>The line that a write to \<^verbatim>\<open>stat_name\<close> names.\<close>

definition first_line :: "u8 list \<Rightarrow> u8 list" where
  "first_line buf = takeWhile (\<lambda>b. b \<noteq> 10) buf"

lemma copy_name_prefix:
  assumes "i \<le> length (first_line buf)" and "length (first_line buf) < i + n" and "i + n = length name"
  shows "take (Suc (length (first_line buf))) (copy_name n i buf name) =
    take i name @ drop i (first_line buf) @ [0]"
  using assms
proof (induction n arbitrary: i name)
  case (Suc n)
  let ?l = "first_line buf"
  have len: "length ?l \<le> length buf" by (simp add: first_line_def length_takeWhile_le)
  show ?case
  proof (cases "i = length ?l")
    case True
    have "i = length buf \<or> buf ! i = 10"
      using True len nth_length_takeWhile[of "\<lambda>b. b \<noteq> 10" buf]
      by (cases "length ?l < length buf") (auto simp: first_line_def)
    with True Suc.prems len show ?thesis by (auto simp: Let_def take_Suc_conv_app_nth)
  next
    case False
    with Suc.prems(1) have i: "i < length ?l" by simp
    then have bi: "buf ! i = ?l ! i" "buf ! i \<noteq> 10"
      using set_takeWhileD[of "?l ! i" "\<lambda>b. b \<noteq> 10" buf] takeWhile_nth[of i "\<lambda>b. b \<noteq> 10" buf]
        nth_mem[OF i] by (auto simp: first_line_def)
    from i len have "i < length buf" by simp
    with bi have "copy_name (Suc n) i buf name = copy_name n (Suc i) buf (name[i := ?l ! i])"
      by (auto simp: Let_def)
    moreover have "take (Suc i) (name[i := ?l ! i]) = take i name @ [?l ! i]"
      using Suc.prems(3) by (simp add: take_Suc_conv_app_nth)
    ultimately show ?thesis
      using Suc.IH[of "Suc i" "name[i := ?l ! i]"] Suc.prems i by (simp add: Cons_nth_drop_Suc)
  qed
qed simp

lemma length_copy_name [simp]: "length (copy_name n i buf name) = length name"
  by (induction n i buf name rule: copy_name.induct) (auto simp: Let_def)

lemma c_string_copy_name:
  assumes "length (first_line buf) < ETH_GSTRING_LEN" and "0 \<notin> set (first_line buf)"
    and "length name = ETH_GSTRING_LEN"
  shows "c_string (copy_name ETH_GSTRING_LEN 0 buf name) = first_line buf"
proof -
  let ?c = "copy_name ETH_GSTRING_LEN 0 buf name" and ?l = "first_line buf"
  have "take (Suc (length ?l)) ?c = ?l @ [0]"
    using copy_name_prefix[of 0 buf ETH_GSTRING_LEN name] assms by simp
  then have "?c = ?l @ 0 # drop (Suc (length ?l)) ?c"
    by (metis append.assoc append_Cons append_Nil append_take_drop_id)
  moreover have "takeWhile (\<lambda>b. b \<noteq> 0) (?l @ 0 # xs) = ?l" for xs
    using assms(2) by (induction ?l) (auto simp: takeWhile_append)
  ultimately show ?thesis
    using assms(3) by (metis c_string_def length_copy_name take_all_iff le_refl)
qed

section \<open>Properties\<close>

text \<open>
  Naming a port statistic through sysfs: while fewer than 512 are named, a line of up to 31
  characters becomes the next name and leaves the earlier names as they were; at 512 names the write
  is refused and nothing changes; an empty line resets the list.
\<close>

theorem store_stat_name_correct:
  assumes "stat_names_ok p" and "0 \<notin> set (first_line buf)" and "length (first_line buf) < ETH_GSTRING_LEN"
  shows "stat_names_ok (snd (xeth_mux_store_stat_name buf p)) \<and>
    (if first_line buf = [] then xeth_mux_stat_names (snd (xeth_mux_store_stat_name buf p)) = []
     else if xeth_mux_n_stats p = xeth_mux_max_stats then xeth_mux_store_stat_name buf p = (- EINVAL, p)
     else xeth_mux_stat_names (snd (xeth_mux_store_stat_name buf p)) = xeth_mux_stat_names p @ [first_line buf]
          \<and> fst (xeth_mux_store_stat_name buf p) = int (length buf))"
proof (cases "first_line buf = []")
  case True
  then have "buf = [] \<or> buf ! 0 = 10" by (cases buf) (auto simp: first_line_def split: if_splits)
  with True assms(1) show ?thesis
    by (simp add: xeth_mux_store_stat_name_def stat_names_ok_def xeth_mux_stat_names_def)
next
  case False
  then have nz: "\<not> (buf = [] \<or> buf ! 0 = 10)" by (cases buf) (auto simp: first_line_def split: if_splits)
  show ?thesis
  proof (cases "mx_stat_named p = xeth_mux_max_stats")
    case True
    with False nz assms(1) show ?thesis by (simp add: xeth_mux_store_stat_name_def xeth_mux_n_stats_def)
  next
    case neq: False
    let ?i = "mx_stat_named p"
    from neq assms(1) have i: "?i < length (mx_stat_names p)" by (simp add: stat_names_ok_def)
    with assms(1) have "length (mx_stat_names p ! ?i) = ETH_GSTRING_LEN"
      by (simp add: stat_names_ok_def list_all_length)
    with c_string_copy_name[OF assms(3,2) this] neq nz False assms(1) i show ?thesis
      by (auto simp: xeth_mux_store_stat_name_def Let_def stat_names_ok_def xeth_mux_stat_names_def
          xeth_mux_n_stats_def list_all_length nth_list_update)
  qed
qed

theorem store_stat_name_correct_witness:
  "xeth_mux_stat_names (snd (xeth_mux_store_stat_name [114, 120, 10]
     (sample_mux\<lparr>mx_stat_names := replicate 512 (replicate 32 0)\<rparr>))) = [[114, 120]]"
  using store_stat_name_correct[of "sample_mux\<lparr>mx_stat_names := replicate 512 (replicate 32 0)\<rparr>" "[114, 120, 10]"]
  by (simp add: stat_names_ok_def sample_mux_def first_line_def xeth_mux_n_stats_def xeth_mux_max_stats_def
      ETH_GSTRING_LEN_def list_all_length xeth_mux_stat_names_def)

text \<open>
  The mux reports as many counter names as counters, but for the nine private flags it copies only
  the four names before the missing one, so that the other names that ethtool shows are not written.
\<close>

theorem mux_strings_match_counts:
  "int (length (xeth_mux_eto_get_strings ETH_SS_STATS)) = xeth_mux_eto_get_sset_count ETH_SS_STATS
   \<and> length (xeth_mux_eto_get_stats p) = length (xeth_mux_eto_get_strings ETH_SS_STATS)
   \<and> xeth_mux_eto_get_sset_count ETH_SS_PRIV_FLAGS = 9
   \<and> xeth_mux_eto_get_strings ETH_SS_PRIV_FLAGS = [''main_task'', ''sb_listen'', ''sb_connection'', ''sbrx_task'']"
  by (simp add: xeth_mux_eto_get_strings_def xeth_mux_eto_get_sset_count_def xeth_mux_counter_names_def
      xeth_mux_flag_names_def xeth_mux_n_counters_def xeth_mux_n_flags_def ETH_GSTRING_LEN_def
      xeth_mux_eto_get_stats_def)

text \<open>
  C40: Whatever settings are requested, the port's settings stay well formed: nothing unsupported is
  advertised, the speed and duplex are among the accepted ones, and auto negotiation goes with speed
  zero. A refused request changes nothing but possibly the port type.
\<close>

theorem change_ksettings_correct:
  assumes "ksettings_ok nbits ks"
  shows "case change_ksettings nbits req ks of (err, ks') \<Rightarrow>
      ksettings_ok nbits ks' \<and> ks_supported ks' = ks_supported ks
      \<and> (if err = 0 then ks_port ks' = ks_port req \<and> ks_duplex ks' = ks_duplex req
           \<and> (if ks_autoneg req = AUTONEG_DISABLE then ks_speed ks' = ks_speed req \<and> ks_autoneg ks' = AUTONEG_DISABLE
              else ks_advertising ks' = ks_advertising req \<and> ks_autoneg ks' = AUTONEG_ENABLE)
         else err = - EINVAL \<and> (ks' = ks \<or> ks' = ks\<lparr>ks_port := ks_port req\<rparr>))"
proof -
  have port: "xeth_port_validate_port ks p = 0 \<or> xeth_port_validate_port ks p = - EINVAL" for p
    by (simp add: xeth_port_validate_port_def)
  have speed: "xeth_port_validate_speed s = (if s \<in> {100000, 50000, 40000, 25000, 20000, 10000, 1000} then 0 else - EINVAL)" for s
    by (auto simp: xeth_port_validate_speed_def)
  have dup: "xeth_port_validate_duplex d = (if d \<in> {DUPLEX_HALF, DUPLEX_FULL, DUPLEX_UNKNOWN} then 0 else - EINVAL)" for d
    by (auto simp: xeth_port_validate_duplex_def)
  have same: "ks = ks\<lparr>ks_port := ks_port req\<rparr>" if "ks_port req = ks_port ks"
    using that by (cases ks) simp
  have ok: "ksettings_ok nbits (ks\<lparr>ks_port := p\<rparr>)" for p
    using assms by (auto simp: ksettings_ok_def split: if_splits)
  show ?thesis
  proof (cases "ks_autoneg req = AUTONEG_DISABLE")
    case True
    then show ?thesis
      using assms ok[of "ks_port req"] port[of "ks_port req"] same
      by (simp add: change_ksettings_def Let_def speed dup)
         (auto simp: ksettings_ok_def)
  next
    case False
    then show ?thesis
      using assms ok[of "ks_port req"] port[of "ks_port req"] same
      by (simp add: change_ksettings_def Let_def dup)
         (auto simp: ksettings_ok_def AUTONEG_DISABLE_def AUTONEG_ENABLE_def)
  qed
qed

theorem change_ksettings_correct_witness:
  "ks_speed (snd (change_ksettings 92 (sample_ksettings\<lparr>ks_speed := 25000\<rparr>) (xeth_port_ksettings sample_ksettings))) = 25000"
proof -
  let ?ks = "xeth_port_ksettings sample_ksettings" and ?req = "sample_ksettings\<lparr>ks_speed := 25000\<rparr>"
  have "ksettings_ok 92 ?ks"
    by (auto simp: ksettings_ok_def xeth_port_ksettings_def Let_def AUTONEG_ENABLE_def AUTONEG_DISABLE_def)
  moreover have "fst (change_ksettings 92 ?req ?ks) = 0"
    by (simp add: change_ksettings_def Let_def xeth_port_validate_port_def xeth_port_validate_speed_def
        xeth_port_validate_duplex_def sample_ksettings_def xeth_port_ksettings_def DUPLEX_FULL_def
        PORT_OTHER_def AUTONEG_DISABLE_def)
  ultimately show ?thesis
    using change_ksettings_correct[of 92 ?ks ?req]
    by (auto simp: sample_ksettings_def AUTONEG_DISABLE_def split: prod.splits)
qed

text \<open>
  Reading the FEC mode back: after a successful request the active mode that is reported is the
  requested one for automatic, off and Reed-Solomon, but for Base-R it is zero, because that branch
  stores into the field of the supported modes.
\<close>

theorem fec_read_back:
  assumes "change_fec f ks = (0, ks')"
  shows "active_fec (xeth_port_get_fecparam ks') = (if f = ETHTOOL_FEC_BASER then 0 else f)"
  using assms
  by (auto simp: change_fec_def xeth_port_get_fecparam_def Let_def fec_defs split: if_splits)

theorem fec_read_back_witness:
  "active_fec (xeth_port_get_fecparam (snd (change_fec ETHTOOL_FEC_BASER (xeth_port_ksettings sample_ksettings)))) = 0
   \<and> active_fec (xeth_port_get_fecparam (snd (change_fec ETHTOOL_FEC_RS (xeth_port_ksettings sample_ksettings)))) = 8"
proof -
  have "fst (change_fec ETHTOOL_FEC_BASER (xeth_port_ksettings sample_ksettings)) = 0"
    "fst (change_fec ETHTOOL_FEC_RS (xeth_port_ksettings sample_ksettings)) = 0"
    by (simp_all add: change_fec_def xeth_port_ksettings_def Let_def fec_defs)
  then show ?thesis
    using fec_read_back[of ETHTOOL_FEC_BASER "xeth_port_ksettings sample_ksettings"]
      fec_read_back[of ETHTOOL_FEC_RS "xeth_port_ksettings sample_ksettings"]
    by (simp add: prod_eq_iff ETHTOOL_FEC_RS_def ETHTOOL_FEC_BASER_def)
qed

end
