(* ===== verification/Xeth_Proxy.thy ===== *)
theory Xeth_Proxy
  imports Xeth_Ethtool
begin

text \<open>
  The part that the proxies of every kind share (\<^verbatim>\<open>dkms/xeth_proxy.c\<close>): reporting a proxy with its
  settings, addresses and members to the daemon, the net device operations, and the dump of all
  proxies of a mux.
\<close>

section \<open>Dumps\<close>

text \<open>A call whose error number the caller ignores.\<close>

definition ignore_err :: "(int \<times> world) outcome \<Rightarrow> world outcome" where
  "ignore_err r = bindR r (\<lambda>(_, w). Inr w)"

text \<open>
  The parameters of \<^verbatim>\<open>xeth_sbtx_ifa\<close> and \<^verbatim>\<open>xeth_sbtx_ifa6\<close> are the event and then the XID; the two dumps
  pass the XID first.
\<close>

definition xeth_proxy_dump_ifa :: "kapi \<Rightarrow> ndp \<Rightarrow> world \<Rightarrow> world outcome" where
  "xeth_proxy_dump_ifa k q w =
     (case nd_ifas (w_nd w (px_nd (w_proxy w q))) of
        None \<Rightarrow> Inr w
      | Some ifas \<Rightarrow>
          foldR (\<lambda>ifa w. bindR (proxy_mux q w) (\<lambda>m.
            ignore_err (xeth_sbtx_ifa k m ifa (px_xid (w_proxy w q)) NETDEV_UP w))) ifas w)"

definition xeth_proxy_dump_ifa6 :: "kapi \<Rightarrow> ndp \<Rightarrow> world \<Rightarrow> world outcome" where
  "xeth_proxy_dump_ifa6 k q w =
     (case nd_ifa6s (w_nd w (px_nd (w_proxy w q))) of
        None \<Rightarrow> Inr w
      | Some ifa6s \<Rightarrow>
          foldR (\<lambda>ifa6 w. bindR (proxy_mux q w) (\<lambda>m.
            ignore_err (xeth_sbtx_ifa6 k m ifa6 (px_xid (w_proxy w q)) NETDEV_UP w))) ifa6s w)"

definition dump_port :: "kapi \<Rightarrow> ndp \<Rightarrow> ndp \<Rightarrow> world \<Rightarrow> world outcome" where
  "dump_port k q m w =
     (let px = w_proxy w q in
      bindR (ignore_err (xeth_sbtx_et_settings k m (px_xid px) (xeth_port_get_link_ksettings (px_nd px) w) w)) (\<lambda>w.
      bindR (xeth_port_ethtool_priv_flags (px_nd px) w) (\<lambda>flags.
        ignore_err (xeth_sbtx_et_flags k m (px_xid px) flags w))))"

definition dump_lowers :: "kapi \<Rightarrow> ndp \<Rightarrow> ndp \<Rightarrow> world \<Rightarrow> world outcome" where
  "dump_lowers k q m w =
     foldR (\<lambda>lower w. ignore_err (xeth_sbtx_change_upper k m (px_xid (w_proxy w q)) (px_xid (w_proxy w lower)) True w))
       (nd_lowers (w_nd w (px_nd (w_proxy w q)))) w"

definition xeth_proxy_dump_ifinfo :: "kapi \<Rightarrow> ndp \<Rightarrow> world \<Rightarrow> world outcome" where
  "xeth_proxy_dump_ifinfo k q w =
     (let px = w_proxy w q in
      case px_mux px of
        None \<Rightarrow> Inr w
      | Some m \<Rightarrow>
          if px_xid px = 0 then Inr w
          else
            bindR (ignore_err (xeth_sbtx_ifinfo k q 0 XETH_IFINFO_REASON_DUMP w)) (\<lambda>w.
            bindR (if px_kind px = XETH_DEV_KIND_PORT then dump_port k q m w else Inr w) (\<lambda>w.
            bindR (if nd_flags (w_nd w (px_nd px)) AND IFF_SLAVE = 0
                   then bindR (xeth_proxy_dump_ifa k q w) (xeth_proxy_dump_ifa6 k q)
                   else Inr w) (\<lambda>w.
            if px_kind px = XETH_DEV_KIND_LAG \<or> px_kind px = XETH_DEV_KIND_BRIDGE
            then dump_lowers k q m w else Inr w))))"

definition xeth_mux_dump_all_ifinfo :: "kapi \<Rightarrow> ndp \<Rightarrow> world \<Rightarrow> world outcome" where
  "xeth_mux_dump_all_ifinfo k m w =
     (let p = w_mux w m in
      foldR (xeth_proxy_dump_ifinfo k)
        (mx_lbs p @ mx_ports p @ mx_lags p @ mx_vlans p @ mx_bridges p) w)"

section \<open>Net device operations\<close>

definition xeth_proxy_link_stat :: "ndp \<Rightarrow> u32 \<Rightarrow> u64 \<Rightarrow> world \<Rightarrow> world outcome" where
  "xeth_proxy_link_stat nd index count w =
     (if unat index < XETH_N_LINK_STAT
      then Inr (upd_proxy nd (\<lambda>px. px\<lparr>px_link_stats := (px_link_stats px)[unat index := count]\<rparr>) w)
      else bindR (proxy_mux nd w) (\<lambda>m. Inr (inc_counter sbrx_invalid m w)))"

definition xeth_proxy_init :: "kapi \<Rightarrow> ndp \<Rightarrow> world \<Rightarrow> int \<times> world" where
  "xeth_proxy_init k nd w =
     (0, netif_carrier False nd (upd_nd nd (\<lambda>d. d\<lparr>nd_hw_features := k_NETIF_F_HW_L2FW_DOFFLOAD k,
        nd_features := ((nd_features d OR k_NETIF_F_VLAN_CHALLENGED k) AND NOT (k_NETIF_F_SOFT_FEATURES k))
          OR k_NETIF_F_HW_L2FW_DOFFLOAD k\<rparr>) w))"

definition xeth_proxy_uninit :: "kapi \<Rightarrow> ndp \<Rightarrow> world \<Rightarrow> world outcome" where
  "xeth_proxy_uninit k nd w =
     bindR (ignore_err (xeth_sbtx_ifinfo k nd 0 XETH_IFINFO_REASON_DEL w)) (xeth_mux_del_proxy nd)"

definition xeth_proxy_open :: "kapi \<Rightarrow> ndp \<Rightarrow> world \<Rightarrow> (int \<times> world) outcome" where
  "xeth_proxy_open k nd w =
     (if px_xid (w_proxy w nd) \<noteq> 0 \<and> px_mux (w_proxy w nd) \<noteq> None
      then xeth_sbtx_ifinfo k nd (nd_flags (w_nd w nd)) XETH_IFINFO_REASON_UP w else Inr (0, w))"

definition xeth_proxy_stop :: "kapi \<Rightarrow> ndp \<Rightarrow> world \<Rightarrow> (int \<times> world) outcome" where
  "xeth_proxy_stop k nd w = xeth_sbtx_ifinfo k nd (nd_flags (w_nd w nd)) XETH_IFINFO_REASON_DOWN w"

definition xeth_proxy_get_iflink :: "ndp \<Rightarrow> world \<Rightarrow> u32" where
  "xeth_proxy_get_iflink nd w =
     (case px_mux (w_proxy w nd) of Some m \<Rightarrow> nd_ifindex (w_nd w m) | None \<Rightarrow> nd_ifindex (w_nd w nd))"

definition xeth_proxy_get_stats64 :: "ndp \<Rightarrow> world \<Rightarrow> rtnl_link_stats64" where
  "xeth_proxy_get_stats64 nd w = xeth_link_stats (px_link_stats (w_proxy w nd))"

definition xeth_proxy_change_mtu :: "ndp \<Rightarrow> u32 \<Rightarrow> world \<Rightarrow> int \<times> world" where
  "xeth_proxy_change_mtu nd mtu w = (0, upd_nd nd (\<lambda>d. d\<lparr>nd_mtu := mtu\<rparr>) w)"

definition xeth_proxy_fix_features :: "kapi \<Rightarrow> u64 \<Rightarrow> u64" where
  "xeth_proxy_fix_features k features = features AND NOT (k_NETIF_F_SOFT_FEATURES k)"

definition xeth_proxy_set_features :: "kapi \<Rightarrow> ndp \<Rightarrow> u64 \<Rightarrow> world \<Rightarrow> (int \<times> world) outcome" where
  "xeth_proxy_set_features k nd features w =
     bindR (ignore_err (xeth_sbtx_ifinfo k nd 0 XETH_IFINFO_REASON_FEATURES
              (upd_nd nd (\<lambda>d. d\<lparr>nd_features := features\<rparr>) w))) (\<lambda>w. Inr (1, w))"

section \<open>Sending leaves the rest of the world alone\<close>

text \<open>
  The effect that all senders share: the buffer invariant is kept, only the buffers and gauges of the
  mux change, and the queue grows at its end.
\<close>

definition sb_ext :: "ndp \<Rightarrow> world \<Rightarrow> world \<Rightarrow> bool" where
  "sb_ext m w w' \<longleftrightarrow> only_mux_sb m w w' \<and> (sb_inv (w_mux w m) \<longrightarrow> sb_inv (w_mux w' m))
     \<and> (\<exists>ds. queued_msgs m w' = queued_msgs m w @ ds)"

lemma sb_ext_refl [simp, intro]: "sb_ext m w w"
  by (simp add: sb_ext_def)

lemma sb_ext_trans: "sb_ext m u v \<Longrightarrow> sb_ext m v w \<Longrightarrow> sb_ext m u w"
  unfolding sb_ext_def using only_mux_sb_trans by (metis append_assoc)

lemma sb_ext_frame: "sb_ext m w w' \<Longrightarrow> w_proxy w' = w_proxy w \<and> w_nd w' = w_nd w \<and> w_port w' = w_port w
    \<and> w_vlan_link w' = w_vlan_link w \<and> w_trace w' = w_trace w \<and> w_nets w' = w_nets w \<and> w_inum w' = w_inum w"
  using only_mux_sb_frame[of m w w'] by (simp add: sb_ext_def)

text \<open>A loop of senders, each of which may rely on the proxies being as they were.\<close>

lemma sb_ext_foldR:
  assumes "foldR f xs w = Inr w'"
    and "\<And>x u v. x \<in> set xs \<Longrightarrow> f x u = Inr v \<Longrightarrow> w_proxy u = w_proxy w \<Longrightarrow> sb_ext m u v"
  shows "sb_ext m w w'"
  using assms
proof (induction xs arbitrary: w)
  case (Cons x xs)
  from Cons.prems(1) obtain u where u: "f x w = Inr u" "foldR f xs u = Inr w'"
    by (auto simp: bindR_eq_Inr)
  have "sb_ext m w u" using Cons.prems(2)[OF _ u(1)] by simp
  moreover have "sb_ext m u w'"
  proof (rule Cons.IH[OF u(2)])
    fix y v v' assume "y \<in> set xs" "f y v = Inr v'" "w_proxy v = w_proxy u"
    then show "sb_ext m v v'"
      using Cons.prems(2)[of y v v'] sb_ext_frame[OF \<open>sb_ext m w u\<close>] by simp
  qed
  ultimately show ?case by (rule sb_ext_trans)
qed simp

lemma alloc_some:
  assumes "xeth_mux_alloc_sbtxb kz n p = Inr (r, p')"
  shows "\<exists>b. r = Some b \<and> mx_sb_tx p' = mx_sb_tx p"
  using assms by (auto simp: xeth_mux_alloc_sbtxb_def Let_def split: option.splits if_splits)

lemma sbtx_send_ext:
  assumes res: "sbtx_send k m n kd flds w = Inr (r, w')"
  shows "sb_ext m w w'"
proof -
  from res obtain r0 p where al: "xeth_mux_alloc_sbtxb (k_kzalloc k) n (w_mux w m) = Inr (r0, p)"
    by (auto simp: sbtx_send_def bindR_eq_Inr)
  from alloc_some[OF al] res al obtain b e where b: "r0 = Some b" "mx_sb_tx p = mx_sb_tx (w_mux w m)"
    and e: "store_all (xeth_sbtx_msg_set kd @ flds) (sb_data b) = Inr e"
    "w' = upd_mux m (\<lambda>_. xeth_mux_queue_sbtx (b\<lparr>sb_data := e\<rparr>) p) w"
    by (auto simp: sbtx_send_def bindR_eq_Inr)
  have "sb_inv (w_mux w' m)" if inv: "sb_inv (w_mux w m)"
  proof -
    from alloc_sbtxb_spec[OF inv al] b(1) have "sbtxb_ok b" "sb_inv p" by auto
    with length_store_all[OF e(1)] have "sbtxb_ok (b\<lparr>sb_data := e\<rparr>)" by (simp add: sbtxb_ok_def)
    from queue_sb_inv[OF \<open>sb_inv p\<close> this] show ?thesis by (simp add: e(2))
  qed
  moreover have "only_mux_sb m w w'"
    using alloc_erase_sb[OF al] by (simp add: e(2) only_mux_sb_def queue_erase_sb)
  moreover have "\<exists>ds. queued_msgs m w' = queued_msgs m w @ ds"
    using b(2) by (auto simp: e(2) queued_msgs_def sbq_defs)
  ultimately show ?thesis by (simp add: sb_ext_def)
qed

named_theorems sb_exts \<open>which operations only extend the transmit queue\<close>

lemma sends_ext [sb_exts]:
  "xeth_sbtx_break k m w = Inr (r, w') \<Longrightarrow> sb_ext m w w'"
  "xeth_sbtx_change_upper k m u l b w = Inr (r, w') \<Longrightarrow> sb_ext m w w'"
  "xeth_sbtx_et_flags k m x f w = Inr (r, w') \<Longrightarrow> sb_ext m w w'"
  "xeth_sbtx_et_link_modes k m kd x a w = Inr (r, w') \<Longrightarrow> sb_ext m w w'"
  "xeth_sbtx_fib_entry k m net fe ev w = Inr (r, w') \<Longrightarrow> sb_ext m w w'"
  "xeth_sbtx_fib6_nh_entry k m net f6 nh ev w = Inr (r, w') \<Longrightarrow> sb_ext m w w'"
  "xeth_sbtx_ifa k m a4 ev32 x w = Inr (r, w') \<Longrightarrow> sb_ext m w w'"
  "xeth_sbtx_ifa6 k m a6 ev32 x w = Inr (r, w') \<Longrightarrow> sb_ext m w w'"
  "xeth_sbtx_neigh_update k m ne w = Inr (r, w') \<Longrightarrow> sb_ext m w w'"
  "xeth_sbtx_netns k m i b w = Inr (r, w') \<Longrightarrow> sb_ext m w w'"
  by (auto simp: xeth_sbtx_break_def xeth_sbtx_change_upper_def xeth_sbtx_et_flags_def Let_def
      xeth_sbtx_et_link_modes_def xeth_sbtx_fib_entry_def xeth_sbtx_fib6_nh_entry_def xeth_sbtx_ifa_def
      xeth_sbtx_ifa6_def xeth_sbtx_neigh_update_def xeth_sbtx_netns_def dest: sbtx_send_ext)

lemma et_settings_ext [sb_exts]: "xeth_sbtx_et_settings k m x ks w = Inr (r, w') \<Longrightarrow> sb_ext m w w'"
  by (auto simp: xeth_sbtx_et_settings_def bindR_eq_Inr split: if_splits
      dest!: sbtx_send_ext sends_ext(4) intro: sb_ext_trans)

lemma fib6_entry_ext [sb_exts]: "xeth_sbtx_fib6_entry k m net rt ev w = Inr (r, w') \<Longrightarrow> sb_ext m w w'"
  by (auto simp: xeth_sbtx_fib6_entry_def split: option.splits sum.splits
      dest: sbtx_send_ext sends_ext(6))

lemma ifinfo_ext [sb_exts]:
  "xeth_sbtx_ifinfo k q f rs w = Inr (r, w') \<Longrightarrow> px_mux (w_proxy w q) = Some m \<Longrightarrow> sb_ext m w w'"
  by (auto simp: xeth_sbtx_ifinfo_def Let_def split: if_splits dest: sbtx_send_ext)

lemma ignore_err_Inr: "ignore_err r = Inr w \<longleftrightarrow> (\<exists>e. r = Inr (e, w))"
  by (auto simp: ignore_err_def bindR_eq_Inr)

lemma dump_ifa_ext [sb_exts]:
  "xeth_proxy_dump_ifa k q w = Inr w' \<Longrightarrow> px_mux (w_proxy w q) = Some m \<Longrightarrow> sb_ext m w w'"
  "xeth_proxy_dump_ifa6 k q w = Inr w' \<Longrightarrow> px_mux (w_proxy w q) = Some m \<Longrightarrow> sb_ext m w w'"
  by (auto simp: xeth_proxy_dump_ifa_def xeth_proxy_dump_ifa6_def proxy_mux_def ignore_err_Inr
      split: option.splits elim!: sb_ext_foldR dest: sends_ext)

lemma dump_port_ext [sb_exts]: "dump_port k q m w = Inr w' \<Longrightarrow> sb_ext m w w'"
  by (auto simp: dump_port_def Let_def ignore_err_Inr bindR_eq_Inr
      dest!: et_settings_ext sends_ext(3) intro: sb_ext_trans)

lemma dump_lowers_ext [sb_exts]: "dump_lowers k q m w = Inr w' \<Longrightarrow> sb_ext m w w'"
  by (auto simp: dump_lowers_def ignore_err_Inr elim!: sb_ext_foldR dest: sends_ext)

lemma dump_ifinfo_ext [sb_exts]:
  assumes "xeth_proxy_dump_ifinfo k q w = Inr w'" and mux: "px_mux (w_proxy w q) = Some m"
  shows "sb_ext m w w'"
proof (cases "px_xid (w_proxy w q) = 0")
  case True
  with assms show ?thesis by (simp add: xeth_proxy_dump_ifinfo_def)
next
  case False
  let ?px = "w_proxy w q"
  from assms(1) obtain r w1 w2 w3 where w1: "xeth_sbtx_ifinfo k q 0 XETH_IFINFO_REASON_DUMP w = Inr (r, w1)"
    and w2: "(if px_kind ?px = XETH_DEV_KIND_PORT then dump_port k q m w1 else Inr w1) = Inr w2"
    and w3: "(if nd_flags (w_nd w2 (px_nd ?px)) AND IFF_SLAVE = 0
        then bindR (xeth_proxy_dump_ifa k q w2) (xeth_proxy_dump_ifa6 k q) else Inr w2) = Inr w3"
    and w': "(if px_kind ?px = XETH_DEV_KIND_LAG \<or> px_kind ?px = XETH_DEV_KIND_BRIDGE
        then dump_lowers k q m w3 else Inr w3) = Inr w'"
    unfolding xeth_proxy_dump_ifinfo_def Let_def mux option.case if_not_P[OF False] bindR_eq_Inr
      ignore_err_Inr by blast
  have e1: "sb_ext m w w1" using ifinfo_ext[OF w1 mux] .
  have e2: "sb_ext m w1 w2" using w2 dump_port_ext by (auto split: if_splits)
  have mux2: "px_mux (w_proxy w2 q) = Some m" using mux sb_ext_frame[OF e1] sb_ext_frame[OF e2] by simp
  have e3: "sb_ext m w2 w3"
  proof (cases "nd_flags (w_nd w2 (px_nd ?px)) AND IFF_SLAVE = 0")
    case True
    with w3 obtain u where u: "xeth_proxy_dump_ifa k q w2 = Inr u" "xeth_proxy_dump_ifa6 k q u = Inr w3"
      by (auto simp: bindR_eq_Inr)
    have "sb_ext m w2 u" using dump_ifa_ext(1)[OF u(1) mux2] .
    moreover have "sb_ext m u w3"
      using dump_ifa_ext(2)[OF u(2)] mux2 sb_ext_frame[OF \<open>sb_ext m w2 u\<close>] by simp
    ultimately show ?thesis by (rule sb_ext_trans)
  qed (use w3 in simp)
  have "sb_ext m w3 w'" using w' dump_lowers_ext by (auto split: if_splits)
  with e1 e2 e3 show ?thesis by (meson sb_ext_trans)
qed

lemma dump_all_ext [sb_exts]:
  assumes "table_inv k m w" and "xeth_mux_dump_all_ifinfo k m w = Inr w'"
  shows "sb_ext m w w'"
proof -
  have mux: "px_mux (w_proxy w q) = Some m" if "q \<in> set (kin_list kd (w_mux w m))" "kd \<noteq> XETH_DEV_KIND_UNSPEC" for q kd
  proof -
    from assms(1) that have "q \<in> set (proxies m w)" by (auto simp: table_inv_def kin_ok_def)
    from table_bucket[OF assms(1) this] assms(1) show ?thesis
      by (auto simp: table_inv_def hash_ok_def)
  qed
  let ?qs = "mx_lbs (w_mux w m) @ mx_ports (w_mux w m) @ mx_lags (w_mux w m) @ mx_vlans (w_mux w m)
    @ mx_bridges (w_mux w m)"
  have "px_mux (w_proxy w q) = Some m" if "q \<in> set ?qs" for q
    using that mux[of q XETH_DEV_KIND_LB] mux[of q XETH_DEV_KIND_PORT] mux[of q XETH_DEV_KIND_LAG]
      mux[of q XETH_DEV_KIND_VLAN] mux[of q XETH_DEV_KIND_BRIDGE] by auto
  with assms(2) show ?thesis
    unfolding xeth_mux_dump_all_ifinfo_def Let_def
    by (auto elim!: sb_ext_foldR intro: dump_ifinfo_ext)
qed

section \<open>The sequence of messages of a dump\<close>

text \<open>A ready mux: a daemon is connected, the buffers are in order, and allocation succeeds.\<close>

definition sb_ready :: "kapi \<Rightarrow> ndp \<Rightarrow> world \<Rightarrow> bool" where
  "sb_ready k m w \<longleftrightarrow> sb_inv (w_mux w m) \<and> connected m w \<and> (\<forall>p sz. k_kzalloc k p sz)"

lemma sample_ready: "sb_ready sample_kapi 1 sample_world"
  using sample_sb_world sample_connected by (simp add: sb_ready_def)

text \<open>From \<open>w\<close> to \<open>w'\<close> the messages \<open>ds\<close> were queued, and nothing else happened.\<close>

definition sent_msgs :: "ndp \<Rightarrow> world \<Rightarrow> u8 list list \<Rightarrow> world \<Rightarrow> bool" where
  "sent_msgs m w ds w' \<longleftrightarrow> sb_ext m w w' \<and> queued_msgs m w' = queued_msgs m w @ ds"

definition kinds_of :: "u8 list list \<Rightarrow> u8 list" where "kinds_of ds = map xeth_msg_kind_at ds"

lemma sb_ready_ext: "sb_ready k m w \<Longrightarrow> sb_ext m w w' \<Longrightarrow> sb_ready k m w'"
  by (auto simp: sb_ready_def sb_ext_def only_mux_sb_connected)

lemma sent_msgs_trans: "sent_msgs m u ds v \<Longrightarrow> sent_msgs m v es w \<Longrightarrow> sent_msgs m u (ds @ es) w"
  by (auto simp: sent_msgs_def intro: sb_ext_trans)

lemma sent_msgs_nil [simp]: "sent_msgs m w [] w"
  by (simp add: sent_msgs_def)

lemma sent_msgs_frame:
  assumes "sent_msgs m w ds w'"
  shows "w_proxy w' = w_proxy w" "w_nd w' = w_nd w" "w_port w' = w_port w"
  using assms sb_ext_frame[of m w w'] by (simp_all add: sent_msgs_def)

lemma sent_msgs_ready: "sb_ready k m w \<Longrightarrow> sent_msgs m w ds w' \<Longrightarrow> sb_ready k m w'"
  using sb_ready_ext by (auto simp: sent_msgs_def)

text \<open>One send through the message interface.\<close>

lemma sent_one:
  assumes "sb_ready k m w" and "16 \<le> n" and "in_bounds n flds"
  shows "\<exists>w'. sbtx_send k m n kd flds w = Inr (0, w') \<and> sent_msgs m w [message kd n flds] w'
    \<and> xeth_msg_kind_at (message kd n flds) = xeth_msg_kind_code kd"
proof -
  from assms sbtx_send_total[OF _ assms(2,3), of w m k kd] obtain w' where
    w': "sbtx_send k m n kd flds w = Inr (0, w')" by (auto simp: sb_ready_def)
  with sbtx_send_spec[OF _ assms(2,3) w'] sbtx_send_ext[OF w'] assms(1)
    message_header[OF assms(2,3), of kd] show ?thesis
    by (auto simp: sb_ready_def sent_msgs_def xeth_msg_kind_at_def)
qed

lemma sent_fold:
  assumes "sb_ready k m w" and "list_all P xs"
    and step: "\<And>x u. P x \<Longrightarrow> sb_ready k m u \<Longrightarrow> w_proxy u = w_proxy w \<Longrightarrow>
      \<exists>v. f x u = Inr v \<and> sent_msgs m u [g x] v"
  shows "\<exists>w'. foldR f xs w = Inr w' \<and> sent_msgs m w (map g xs) w'"
  using assms
proof (induction xs arbitrary: w)
  case (Cons x xs)
  from Cons.prems(2) Cons.prems(3)[OF _ Cons.prems(1), of x] obtain u
    where u: "f x w = Inr u" "sent_msgs m w [g x] u" by auto
  have "\<exists>w'. foldR f xs u = Inr w' \<and> sent_msgs m u (map g xs) w'"
    using Cons.prems(2) sent_msgs_frame(1)[OF u(2)]
    by (intro Cons.IH[OF sent_msgs_ready[OF Cons.prems(1) u(2)]]) (auto intro: Cons.prems(3))
  with u sent_msgs_trans[OF u(2)] show ?case by fastforce
qed simp

definition addrs_ok :: "net_device \<Rightarrow> bool" where
  "addrs_ok nd \<longleftrightarrow> length (nd_dev_addr nd) = 6
     \<and> (case nd_ifas nd of None \<Rightarrow> True
        | Some l \<Rightarrow> list_all (\<lambda>a. length (in_ifa_address a) = 4 \<and> length (in_ifa_mask a) = 4) l)
     \<and> (case nd_ifa6s nd of None \<Rightarrow> True | Some l \<Rightarrow> list_all (\<lambda>a. length (in6_ifa_addr a) = 16) l)"

definition ifa_list :: "net_device \<Rightarrow> in_ifaddr list" where
  "ifa_list nd = (case nd_ifas nd of None \<Rightarrow> [] | Some l \<Rightarrow> l)"

definition ifa6_list :: "net_device \<Rightarrow> inet6_ifaddr list" where
  "ifa6_list nd = (case nd_ifa6s nd of None \<Rightarrow> [] | Some l \<Rightarrow> l)"

lemma dump_ifa_sent:
  assumes "sb_ready k m w" and "px_mux (w_proxy w q) = Some m" and "addrs_ok (w_nd w (px_nd (w_proxy w q)))"
  shows "\<exists>w'. xeth_proxy_dump_ifa k q w = Inr w' \<and> sent_msgs m w
    (map (\<lambda>a. message XETH_MSG_KIND_IFA 32 (ifa_fields NETDEV_UP (px_xid (w_proxy w q)) a))
      (ifa_list (w_nd w (px_nd (w_proxy w q))))) w'"
proof (cases "nd_ifas (w_nd w (px_nd (w_proxy w q)))")
  case (Some l)
  let ?P = "\<lambda>a :: in_ifaddr. length (in_ifa_address a) = 4 \<and> length (in_ifa_mask a) = 4"
  have "\<exists>w'. foldR (\<lambda>ifa w. bindR (proxy_mux q w) (\<lambda>m.
        ignore_err (xeth_sbtx_ifa k m ifa (px_xid (w_proxy w q)) NETDEV_UP w))) l w = Inr w'
      \<and> sent_msgs m w (map (\<lambda>a. message XETH_MSG_KIND_IFA 32 (ifa_fields NETDEV_UP (px_xid (w_proxy w q)) a)) l) w'"
  proof (rule sent_fold[OF assms(1), where P = ?P])
    show "list_all ?P l" using assms(3) Some by (simp add: addrs_ok_def)
    fix a u assume a: "?P a" and u: "sb_ready k m u" "w_proxy u = w_proxy w"
    from msg_ifa.bounds[of "(NETDEV_UP, px_xid (w_proxy w q), a)"] a
    have "in_bounds 32 (ifa_fields NETDEV_UP (px_xid (w_proxy w q)) a)" by (simp add: xeth_sizeofs)
    from sent_one[OF u(1) _ this, of XETH_MSG_KIND_IFA] u(2) assms(2)
    show "\<exists>v. bindR (proxy_mux q u) (\<lambda>m. ignore_err (xeth_sbtx_ifa k m a (px_xid (w_proxy u q)) NETDEV_UP u)) = Inr v
      \<and> sent_msgs m u [message XETH_MSG_KIND_IFA 32 (ifa_fields NETDEV_UP (px_xid (w_proxy w q)) a)] v"
      by (auto simp: proxy_mux_def xeth_sbtx_ifa_def ignore_err_Inr xeth_sizeofs)
  qed
  with Some show ?thesis by (simp add: xeth_proxy_dump_ifa_def ifa_list_def)
qed (simp add: xeth_proxy_dump_ifa_def ifa_list_def)

lemma dump_ifa6_sent:
  assumes "sb_ready k m w" and "px_mux (w_proxy w q) = Some m" and "addrs_ok (w_nd w (px_nd (w_proxy w q)))"
  shows "\<exists>w'. xeth_proxy_dump_ifa6 k q w = Inr w' \<and> sent_msgs m w
    (map (\<lambda>a. message XETH_MSG_KIND_IFA6 48 (ifa6_fields NETDEV_UP (px_xid (w_proxy w q)) a))
      (ifa6_list (w_nd w (px_nd (w_proxy w q))))) w'"
proof (cases "nd_ifa6s (w_nd w (px_nd (w_proxy w q)))")
  case (Some l)
  let ?P = "\<lambda>a :: inet6_ifaddr. length (in6_ifa_addr a) = 16"
  have "\<exists>w'. foldR (\<lambda>ifa w. bindR (proxy_mux q w) (\<lambda>m.
        ignore_err (xeth_sbtx_ifa6 k m ifa (px_xid (w_proxy w q)) NETDEV_UP w))) l w = Inr w'
      \<and> sent_msgs m w (map (\<lambda>a. message XETH_MSG_KIND_IFA6 48 (ifa6_fields NETDEV_UP (px_xid (w_proxy w q)) a)) l) w'"
  proof (rule sent_fold[OF assms(1), where P = ?P])
    show "list_all ?P l" using assms(3) Some by (simp add: addrs_ok_def)
    fix a u assume a: "?P a" and u: "sb_ready k m u" "w_proxy u = w_proxy w"
    from msg_ifa6.bounds[of "(NETDEV_UP, px_xid (w_proxy w q), a)"] a
    have "in_bounds 48 (ifa6_fields NETDEV_UP (px_xid (w_proxy w q)) a)" by (simp add: xeth_sizeofs)
    from sent_one[OF u(1) _ this, of XETH_MSG_KIND_IFA6] u(2) assms(2)
    show "\<exists>v. bindR (proxy_mux q u) (\<lambda>m. ignore_err (xeth_sbtx_ifa6 k m a (px_xid (w_proxy u q)) NETDEV_UP u)) = Inr v
      \<and> sent_msgs m u [message XETH_MSG_KIND_IFA6 48 (ifa6_fields NETDEV_UP (px_xid (w_proxy w q)) a)] v"
      by (auto simp: proxy_mux_def xeth_sbtx_ifa6_def ignore_err_Inr xeth_sizeofs)
  qed
  with Some show ?thesis by (simp add: xeth_proxy_dump_ifa6_def ifa6_list_def)
qed (simp add: xeth_proxy_dump_ifa6_def ifa6_list_def)

lemma ifinfo_sent:
  assumes "sb_ready k m w" and "px_mux (w_proxy w q) = Some m" and "px_xid (w_proxy w q) \<noteq> 0"
    and "addrs_ok (w_nd w (px_nd (w_proxy w q)))"
  shows "\<exists>w' d. xeth_sbtx_ifinfo k q f rs w = Inr (0, w') \<and> sent_msgs m w [d] w'
    \<and> xeth_msg_kind_at d = xeth_msg_kind_code XETH_MSG_KIND_IFINFO"
proof -
  have "in_bounds 72 (ifinfo_fields k (w_proxy w q) m f rs w)"
    using msg_ifinfo.bounds[of "(k, w_proxy w q, m, f, rs, w)"] assms(4) by (simp add: addrs_ok_def xeth_sizeofs)
  from sent_one[OF assms(1) _ this, of XETH_MSG_KIND_IFINFO] assms(2,3) show ?thesis
    by (auto simp: xeth_sbtx_ifinfo_def Let_def xeth_sizeofs)
qed

lemma et_settings_sent:
  assumes "sb_ready k m w"
  shows "\<exists>w' ds. xeth_sbtx_et_settings k m x ks w = Inr (0, w') \<and> sent_msgs m w ds w'
    \<and> kinds_of ds = map xeth_msg_kind_code
        [XETH_MSG_KIND_ETHTOOL_SETTINGS, XETH_MSG_KIND_ETHTOOL_LINK_MODES_ADVERTISING]"
proof -
  have b1: "in_bounds 32 (et_settings_fields x ks)"
    using msg_settings.bounds[where a = "(x, ks)"] by (simp add: xeth_sizeofs)
  from sent_one[OF assms _ b1, of XETH_MSG_KIND_ETHTOOL_SETTINGS] obtain u where u:
    "sbtx_send k m 32 XETH_MSG_KIND_ETHTOOL_SETTINGS (et_settings_fields x ks) w = Inr (0, u)"
    "sent_msgs m w [message XETH_MSG_KIND_ETHTOOL_SETTINGS 32 (et_settings_fields x ks)] u"
    "xeth_msg_kind_at (message XETH_MSG_KIND_ETHTOOL_SETTINGS 32 (et_settings_fields x ks)) =
       xeth_msg_kind_code XETH_MSG_KIND_ETHTOOL_SETTINGS" by auto
  let ?md = "link_modes_word (k_link_mode_nbits k) (ks_advertising ks)"
  have b2: "in_bounds 32 (et_link_modes_fields x ?md)"
    using msg_modes.bounds[where a = "(x, ?md)"] by (simp add: xeth_sizeofs)
  from sent_one[OF sent_msgs_ready[OF assms u(2)] _ b2, of XETH_MSG_KIND_ETHTOOL_LINK_MODES_ADVERTISING]
    u sent_msgs_trans[OF u(2)] show ?thesis
    by (fastforce simp: xeth_sbtx_et_settings_def xeth_sbtx_et_link_modes_def xeth_sizeofs kinds_of_def)
qed

lemma dump_port_sent:
  assumes "sb_ready k m w" and "pp_subport (w_port w (px_nd (w_proxy w q))) \<le> 0 \<Longrightarrow> pp_ext (w_port w (px_nd (w_proxy w q))) \<noteq> None"
  shows "\<exists>w' ds. dump_port k q m w = Inr w' \<and> sent_msgs m w ds w' \<and> kinds_of ds = map xeth_msg_kind_code
    [XETH_MSG_KIND_ETHTOOL_SETTINGS, XETH_MSG_KIND_ETHTOOL_LINK_MODES_ADVERTISING, XETH_MSG_KIND_ETHTOOL_FLAGS]"
proof -
  let ?px = "w_proxy w q" and ?nd = "px_nd (w_proxy w q)"
  from et_settings_sent[OF assms(1), of "px_xid ?px" "xeth_port_get_link_ksettings ?nd w"]
  obtain u ds where u: "xeth_sbtx_et_settings k m (px_xid ?px) (xeth_port_get_link_ksettings ?nd w) w = Inr (0, u)"
    "sent_msgs m w ds u" "kinds_of ds = map xeth_msg_kind_code
        [XETH_MSG_KIND_ETHTOOL_SETTINGS, XETH_MSG_KIND_ETHTOOL_LINK_MODES_ADVERTISING]" by blast
  obtain fl where fl: "xeth_port_ethtool_priv_flags ?nd u = Inr fl"
    using assms(2) sent_msgs_frame(3)[OF u(2)]
    by (cases "pp_subport (w_port w ?nd) \<le> 0") (auto simp: xeth_port_ethtool_priv_flags_def port_ext_def)
  have "in_bounds 24 (et_flags_fields (px_xid ?px) fl)"
    using msg_flags.bounds[where a = "(px_xid ?px, fl)"] by (simp add: xeth_sizeofs)
  from sent_one[OF sent_msgs_ready[OF assms(1) u(2)] _ this, of XETH_MSG_KIND_ETHTOOL_FLAGS] obtain w' where
    w': "xeth_sbtx_et_flags k m (px_xid ?px) fl u = Inr (0, w')"
    "sent_msgs m u [message XETH_MSG_KIND_ETHTOOL_FLAGS 24 (et_flags_fields (px_xid ?px) fl)] w'"
    "xeth_msg_kind_at (message XETH_MSG_KIND_ETHTOOL_FLAGS 24 (et_flags_fields (px_xid ?px) fl)) =
       xeth_msg_kind_code XETH_MSG_KIND_ETHTOOL_FLAGS"
    by (auto simp: xeth_sbtx_et_flags_def xeth_sizeofs)
  have "dump_port k q m w = Inr w'" using u(1) fl w'(1) by (simp add: dump_port_def Let_def ignore_err_def)
  with sent_msgs_trans[OF u(2) w'(2)] u(3) w'(3) show ?thesis by (fastforce simp: kinds_of_def)
qed

lemma dump_lowers_sent:
  assumes "sb_ready k m w"
  shows "\<exists>w' ds. dump_lowers k q m w = Inr w' \<and> sent_msgs m w ds w' \<and> kinds_of ds =
    map xeth_msg_kind_code (replicate (length (nd_lowers (w_nd w (px_nd (w_proxy w q))))) XETH_MSG_KIND_CHANGE_UPPER_XID)"
proof -
  let ?x = "px_xid (w_proxy w q)" and ?g = "\<lambda>l. change_upper_fields (px_xid (w_proxy w q)) (px_xid (w_proxy w l)) True"
  have b: "in_bounds 32 (?g l)" for l
    using msg_upper.bounds[where a = "(?x, px_xid (w_proxy w l), True)"] by (simp add: xeth_sizeofs)
  have k: "xeth_msg_kind_at (message XETH_MSG_KIND_CHANGE_UPPER_XID 32 (?g l)) =
      xeth_msg_kind_code XETH_MSG_KIND_CHANGE_UPPER_XID" for l
    using message_header[OF _ b[of l], of XETH_MSG_KIND_CHANGE_UPPER_XID] by (simp add: xeth_msg_kind_at_def)
  have "\<exists>w'. dump_lowers k q m w = Inr w' \<and> sent_msgs m w
      (map (\<lambda>l. message XETH_MSG_KIND_CHANGE_UPPER_XID 32 (?g l)) (nd_lowers (w_nd w (px_nd (w_proxy w q))))) w'"
    unfolding dump_lowers_def
  proof (rule sent_fold[OF assms, where P = "\<lambda>_. True"])
    fix l u assume "sb_ready k m u" "w_proxy u = w_proxy w"
    with sent_one[OF this(1) _ b[of l], of XETH_MSG_KIND_CHANGE_UPPER_XID]
    show "\<exists>v. ignore_err (xeth_sbtx_change_upper k m (px_xid (w_proxy u q)) (px_xid (w_proxy u l)) True u) = Inr v
      \<and> sent_msgs m u [message XETH_MSG_KIND_CHANGE_UPPER_XID 32 (?g l)] v"
      by (auto simp: xeth_sbtx_change_upper_def ignore_err_Inr xeth_sizeofs)
  qed (simp add: list_all_iff)
  with k show ?thesis by (force simp: kinds_of_def comp_def map_replicate_const)
qed

lemma dump_addrs_sent:
  assumes "sb_ready k m w" and "px_mux (w_proxy w q) = Some m" and "addrs_ok (w_nd w (px_nd (w_proxy w q)))"
  shows "\<exists>w' ds. bindR (xeth_proxy_dump_ifa k q w) (xeth_proxy_dump_ifa6 k q) = Inr w' \<and> sent_msgs m w ds w'
    \<and> kinds_of ds = map xeth_msg_kind_code
      (replicate (length (ifa_list (w_nd w (px_nd (w_proxy w q))))) XETH_MSG_KIND_IFA
       @ replicate (length (ifa6_list (w_nd w (px_nd (w_proxy w q))))) XETH_MSG_KIND_IFA6)"
proof -
  let ?x = "px_xid (w_proxy w q)" and ?nd = "w_nd w (px_nd (w_proxy w q))"
  let ?d4 = "map (\<lambda>a. message XETH_MSG_KIND_IFA 32 (ifa_fields NETDEV_UP ?x a)) (ifa_list ?nd)"
  let ?d6 = "map (\<lambda>a. message XETH_MSG_KIND_IFA6 48 (ifa6_fields NETDEV_UP ?x a)) (ifa6_list ?nd)"
  from dump_ifa_sent[OF assms] obtain u where u: "xeth_proxy_dump_ifa k q w = Inr u" "sent_msgs m w ?d4 u" by blast
  note f = sent_msgs_frame[OF u(2)]
  from dump_ifa6_sent[OF sent_msgs_ready[OF assms(1) u(2)], of q] assms(2,3) f obtain w' where
    w': "xeth_proxy_dump_ifa6 k q u = Inr w'" "sent_msgs m u ?d6 w'" by auto
  have h4: "xeth_msg_kind_at (message XETH_MSG_KIND_IFA 32 (ifa_fields NETDEV_UP ?x a)) = 12"
    if "a \<in> set (ifa_list ?nd)" for a
    using that assms(3) msg_ifa.bounds[of "(NETDEV_UP, ?x, a)"] message_header[of 32 "ifa_fields NETDEV_UP ?x a" XETH_MSG_KIND_IFA]
    by (auto simp: addrs_ok_def ifa_list_def list_all_iff xeth_sizeofs xeth_msg_kind_at_def split: option.splits)
  have h6: "xeth_msg_kind_at (message XETH_MSG_KIND_IFA6 48 (ifa6_fields NETDEV_UP ?x a)) = 13"
    if "a \<in> set (ifa6_list ?nd)" for a
    using that assms(3) msg_ifa6.bounds[of "(NETDEV_UP, ?x, a)"] message_header[of 48 "ifa6_fields NETDEV_UP ?x a" XETH_MSG_KIND_IFA6]
    by (auto simp: addrs_ok_def ifa6_list_def list_all_iff xeth_sizeofs xeth_msg_kind_at_def split: option.splits)
  have "kinds_of (?d4 @ ?d6) = replicate (length (ifa_list ?nd)) 12 @ replicate (length (ifa6_list ?nd)) 13"
    using h4 h6 by (simp add: kinds_of_def map_replicate_const[symmetric] cong: map_cong)
  with u w' sent_msgs_trans[OF u(2) w'(2)] show ?thesis by (fastforce simp: map_replicate)
qed

section \<open>Properties\<close>

text \<open>
  The dump of the IPv4 addresses of a proxy sends one message per address, in order, with the right
  address and mask, but with the two numbers exchanged: the XID field holds the event \<^verbatim>\<open>NETDEV_UP\<close> and the
  event field holds the proxy's XID.
\<close>

theorem dump_ifa_swaps_xid_and_event:
  assumes "sb_ready k m w" and "px_mux (w_proxy w q) = Some m" and "addrs_ok (w_nd w (px_nd (w_proxy w q)))"
  shows "\<exists>w' ds. xeth_proxy_dump_ifa k q w = Inr w' \<and> queued_msgs m w' = queued_msgs m w @ ds
    \<and> map xeth_msg_ifa_at ds =
      map (\<lambda>a. \<lparr>ifa_xid = NETDEV_UP, ifa_event = px_xid (w_proxy w q),
                ifa_address = in_ifa_address a, ifa_mask = in_ifa_mask a\<rparr>)
        (ifa_list (w_nd w (px_nd (w_proxy w q))))"
proof -
  let ?x = "px_xid (w_proxy w q)" and ?l = "ifa_list (w_nd w (px_nd (w_proxy w q)))"
  let ?ds = "map (\<lambda>a. message XETH_MSG_KIND_IFA 32 (ifa_fields NETDEV_UP ?x a)) ?l"
  from dump_ifa_sent[OF assms] obtain w' where "xeth_proxy_dump_ifa k q w = Inr w'" "sent_msgs m w ?ds w'"
    by blast
  moreover have "map xeth_msg_ifa_at ?ds = map (\<lambda>a. \<lparr>ifa_xid = NETDEV_UP, ifa_event = ?x,
      ifa_address = in_ifa_address a, ifa_mask = in_ifa_mask a\<rparr>) ?l"
    using assms(3) msg_ifa.view[of "(NETDEV_UP, ?x, a)" for a]
    by (auto simp: addrs_ok_def ifa_list_def list_all_iff xeth_sizeofs split: option.splits)
  ultimately show ?thesis
    by (intro exI[of _ w'] exI[of _ ?ds]) (simp add: sent_msgs_def)
qed

theorem dump_ifa_swaps_xid_and_event_witness:
  "\<exists>w' ds. xeth_proxy_dump_ifa sample_kapi 2 sample_world = Inr w'
    \<and> queued_msgs 1 w' = queued_msgs 1 sample_world @ ds
    \<and> map xeth_msg_ifa_at ds = [\<lparr>ifa_xid = 1, ifa_event = 3000, ifa_address = [10, 0, 0, 1], ifa_mask = [255, 255, 255, 0]\<rparr>]"
proof -
  have "sb_ready sample_kapi 1 sample_world"
    using sample_sb_world sample_connected by (simp add: sb_ready_def)
  from dump_ifa_swaps_xid_and_event[OF this, of 2] show ?thesis
    by (simp add: addrs_ok_def ifa_list_def sample_world_def sample_proxies_def sample_nds_def sample_nd_def NETDEV_UP_def)
qed

text \<open>
  C23: The dump of a proxy is a fixed sequence of messages: the interface report; for a port its settings,
  advertised modes and flags; unless it is a slave, its IPv4 and then its IPv6 addresses; for a lag or
  a bridge one membership message per lower device. Nothing else in the driver's state changes.
\<close>

theorem dump_ifinfo_messages:
  assumes "sb_ready k m w" and "px_mux (w_proxy w q) = Some m" and "px_xid (w_proxy w q) \<noteq> 0"
    and "addrs_ok (w_nd w (px_nd (w_proxy w q)))"
    and "pp_subport (w_port w (px_nd (w_proxy w q))) \<le> 0 \<longrightarrow> pp_ext (w_port w (px_nd (w_proxy w q))) \<noteq> None"
  shows "\<exists>w' ds. xeth_proxy_dump_ifinfo k q w = Inr w' \<and> sb_ext m w w'
    \<and> queued_msgs m w' = queued_msgs m w @ ds
    \<and> kinds_of ds = (let px = w_proxy w q; nd = w_nd w (px_nd px) in map xeth_msg_kind_code
        (XETH_MSG_KIND_IFINFO #
         (if px_kind px = XETH_DEV_KIND_PORT
          then [XETH_MSG_KIND_ETHTOOL_SETTINGS, XETH_MSG_KIND_ETHTOOL_LINK_MODES_ADVERTISING,
                XETH_MSG_KIND_ETHTOOL_FLAGS] else []) @
         (if nd_flags nd AND IFF_SLAVE = 0
          then replicate (length (ifa_list nd)) XETH_MSG_KIND_IFA
               @ replicate (length (ifa6_list nd)) XETH_MSG_KIND_IFA6 else []) @
         (if px_kind px = XETH_DEV_KIND_LAG \<or> px_kind px = XETH_DEV_KIND_BRIDGE
          then replicate (length (nd_lowers nd)) XETH_MSG_KIND_CHANGE_UPPER_XID else [])))"
proof -
  let ?px = "w_proxy w q" and ?nd = "w_nd w (px_nd (w_proxy w q))"
  from ifinfo_sent[OF assms(1-4)] obtain w1 d1 where w1: "xeth_sbtx_ifinfo k q 0 XETH_IFINFO_REASON_DUMP w = Inr (0, w1)"
    "sent_msgs m w [d1] w1" "xeth_msg_kind_at d1 = xeth_msg_kind_code XETH_MSG_KIND_IFINFO" by blast
  note f1 = sent_msgs_frame[OF w1(2)] and r1 = sent_msgs_ready[OF assms(1) w1(2)]
  obtain w2 d2 where w2: "(if px_kind ?px = XETH_DEV_KIND_PORT then dump_port k q m w1 else Inr w1) = Inr w2"
    "sent_msgs m w1 d2 w2" "kinds_of d2 = map xeth_msg_kind_code (if px_kind ?px = XETH_DEV_KIND_PORT
      then [XETH_MSG_KIND_ETHTOOL_SETTINGS, XETH_MSG_KIND_ETHTOOL_LINK_MODES_ADVERTISING, XETH_MSG_KIND_ETHTOOL_FLAGS] else [])"
    using dump_port_sent[OF r1, of q] assms(5) f1
    by (cases "px_kind ?px = XETH_DEV_KIND_PORT") (auto simp: kinds_of_def)
  note f2 = sent_msgs_frame[OF w2(2)] and r2 = sent_msgs_ready[OF r1 w2(2)]
  obtain w3 d3 where w3: "(if nd_flags (w_nd w2 (px_nd ?px)) AND IFF_SLAVE = 0
      then bindR (xeth_proxy_dump_ifa k q w2) (xeth_proxy_dump_ifa6 k q) else Inr w2) = Inr w3"
    "sent_msgs m w2 d3 w3" "kinds_of d3 = map xeth_msg_kind_code (if nd_flags ?nd AND IFF_SLAVE = 0
      then replicate (length (ifa_list ?nd)) XETH_MSG_KIND_IFA @ replicate (length (ifa6_list ?nd)) XETH_MSG_KIND_IFA6 else [])"
    using dump_addrs_sent[OF r2, of q] assms(2,4) f1 f2
    by (cases "nd_flags ?nd AND IFF_SLAVE = 0") (auto simp: kinds_of_def)
  note f3 = sent_msgs_frame[OF w3(2)] and r3 = sent_msgs_ready[OF r2 w3(2)]
  obtain w4 d4 where w4: "(if px_kind ?px = XETH_DEV_KIND_LAG \<or> px_kind ?px = XETH_DEV_KIND_BRIDGE
      then dump_lowers k q m w3 else Inr w3) = Inr w4" "sent_msgs m w3 d4 w4"
    "kinds_of d4 = map xeth_msg_kind_code (if px_kind ?px = XETH_DEV_KIND_LAG \<or> px_kind ?px = XETH_DEV_KIND_BRIDGE
      then replicate (length (nd_lowers ?nd)) XETH_MSG_KIND_CHANGE_UPPER_XID else [])"
    using dump_lowers_sent[OF r3, of q] f1 f2 f3
    by (cases "px_kind ?px = XETH_DEV_KIND_LAG \<or> px_kind ?px = XETH_DEV_KIND_BRIDGE") (auto simp: kinds_of_def)
  have "xeth_proxy_dump_ifinfo k q w = Inr w4"
    unfolding xeth_proxy_dump_ifinfo_def Let_def assms(2) option.case if_not_P[OF assms(3)]
    by (simp only: w1(1) w2(1) w3(1) w4(1) ignore_err_def bindR_simps case_prod_conv)
  moreover have "sent_msgs m w ([d1] @ d2 @ d3 @ d4) w4"
    using sent_msgs_trans[OF w1(2) sent_msgs_trans[OF w2(2) sent_msgs_trans[OF w3(2) w4(2)]]] .
  ultimately show ?thesis
    using w1(3) w2(3) w3(3) w4(3)
    by (intro exI[of _ w4] exI[of _ "[d1] @ d2 @ d3 @ d4"])
      (simp add: sent_msgs_def kinds_of_def Let_def)
qed

theorem dump_ifinfo_messages_witness:
  "\<exists>w' ds. xeth_proxy_dump_ifinfo sample_kapi 2 sample_world = Inr w'
    \<and> queued_msgs 1 w' = queued_msgs 1 sample_world @ ds \<and> kinds_of ds = [11, 4, 6, 3, 12]"
proof -
  have "sb_ready sample_kapi 1 sample_world"
    using sample_sb_world sample_connected by (simp add: sb_ready_def)
  from dump_ifinfo_messages[OF this, of 2] show ?thesis
    by (auto simp: addrs_ok_def ifa_list_def ifa6_list_def sample_world_def sample_proxies_def sample_nds_def
        sample_nd_def sample_port_def IFF_SLAVE_def Let_def)
qed

end
