(* ===== verification/Xeth_Nb.thy ===== *)
theory Xeth_Nb
  imports Xeth_Proxy
begin

text \<open>
  The kernel notifiers of a mux (\<^verbatim>\<open>dkms/xeth_nb.c\<close>): starting and stopping them, and what each
  notification sends to the daemon. The FIB notifiers are those of a kernel 5.5 or later, one per name
  space (\<^verbatim>\<open>fib_notifier_info_without_net\<close>).
\<close>

section \<open>Notifications\<close>

text \<open>\<^verbatim>\<open>struct fib_notifier_info\<close> by its family: an IPv4 entry, an IPv6 entry, or another family.\<close>

datatype fib_info = Fib_inet fib_entry_notifier_info | Fib_inet6 "(int + fib6_info) option" | Fib_other

text \<open>The events of \<^verbatim>\<open>enum fib_event_type\<close>: 0 to 3 are the entry events, the others are ignored.\<close>

definition xeth_nb_fib :: "kapi \<Rightarrow> ndp \<Rightarrow> netp \<Rightarrow> nat \<Rightarrow> fib_info \<Rightarrow> world \<Rightarrow> world outcome" where
  "xeth_nb_fib k m net event info w =
     (if net \<notin> set (nb_fibs (mx_nb (w_mux w m))) then Inr w
      else if event \<le> 3
      then case info of
             Fib_inet feni \<Rightarrow> ignore_err (xeth_sbtx_fib_entry k m net feni event w)
           | Fib_inet6 rt \<Rightarrow> ignore_err (xeth_sbtx_fib6_entry k m net rt event w)
           | Fib_other \<Rightarrow> Inr w
      else Inr w)"

definition xeth_nb_inetaddr :: "kapi \<Rightarrow> ndp \<Rightarrow> u32 \<Rightarrow> in_ifaddr \<Rightarrow> ndp option \<Rightarrow> world \<Rightarrow> world outcome" where
  "xeth_nb_inetaddr k m event ifa ifa_dev w =
     (if \<not> nb_inetaddr (mx_nb (w_mux w m)) then Inr w
      else case ifa_dev of
             None \<Rightarrow> Inr w
           | Some nd \<Rightarrow>
               (case xeth_mux_proxy_of_nd m w nd of
                  None \<Rightarrow> Inr w
                | Some q \<Rightarrow>
                    if px_xid (w_proxy w q) \<noteq> 0 \<and> px_mux (w_proxy w q) = Some m
                    then ignore_err (xeth_sbtx_ifa k m ifa event (px_xid (w_proxy w q)) w) else Inr w))"

definition xeth_nb_inet6addr :: "kapi \<Rightarrow> ndp \<Rightarrow> u32 \<Rightarrow> inet6_ifaddr \<Rightarrow> ndp option \<Rightarrow> world \<Rightarrow> world outcome" where
  "xeth_nb_inet6addr k m event ifa6 idev w =
     (if \<not> nb_inet6addr (mx_nb (w_mux w m)) then Inr w
      else case idev of
             None \<Rightarrow> Inr w
           | Some nd \<Rightarrow>
               (case xeth_mux_proxy_of_nd m w nd of
                  None \<Rightarrow> Inr w
                | Some q \<Rightarrow>
                    if px_xid (w_proxy w q) \<noteq> 0 \<and> px_mux (w_proxy w q) = Some m
                    then ignore_err (xeth_sbtx_ifa6 k m ifa6 event (px_xid (w_proxy w q)) w) else Inr w))"

text \<open>\<^verbatim>\<open>list_for_each_entry_safe\<close> over the FIB notifiers: unregister and unlink those of a name space.\<close>

definition fib_stop :: "ndp \<Rightarrow> netp \<Rightarrow> world \<Rightarrow> world" where
  "fib_stop m net w =
     upd_mux m (\<lambda>p. p\<lparr>mx_nb := (mx_nb p)\<lparr>nb_fibs := remove1 net (nb_fibs (mx_nb p))\<rparr>\<rparr>)
       (log_event (Ev_fib_unregister net) w)"

definition xeth_nb_stop_net_fib :: "ndp \<Rightarrow> netp \<Rightarrow> world \<Rightarrow> world" where
  "xeth_nb_stop_net_fib m net w =
     fold (\<lambda>n w. if n = net then fib_stop m n w else w) (nb_fibs (mx_nb (w_mux w m))) w"

definition xeth_nb_stop_all_fib :: "ndp \<Rightarrow> world \<Rightarrow> world" where
  "xeth_nb_stop_all_fib m w = fold (fib_stop m) (nb_fibs (mx_nb (w_mux w m))) w"

datatype netdev_event = NETDEV_CHANGE | NETDEV_REGISTER | NETDEV_UNREGISTER | NETDEV_CHANGEMTU
| NETDEV_CHANGEUPPER | NETDEV_OTHER

definition xeth_nb_netdevice :: "kapi \<Rightarrow> ndp \<Rightarrow> netdev_event \<Rightarrow> ndp \<Rightarrow> world \<Rightarrow> world outcome" where
  "xeth_nb_netdevice k m event nd w =
     (if \<not> nb_netdevice (mx_nb (w_mux w m)) then Inr w
      else if nd_ifindex (w_nd w nd) = 1
      then let net = nd_net (w_nd w nd); ns_inum = (if net = init_net then 1 else w_inum w net) in
           (case event of
              NETDEV_REGISTER \<Rightarrow> ignore_err (xeth_sbtx_netns k m ns_inum True w)
            | NETDEV_UNREGISTER \<Rightarrow> ignore_err (xeth_sbtx_netns k m ns_inum False (xeth_nb_stop_net_fib m net w))
            | _ \<Rightarrow> Inr w)
      else (case event of
              NETDEV_CHANGE \<Rightarrow> Inr (xeth_mux_check_lower_carrier m w)
            | NETDEV_REGISTER \<Rightarrow>
                (case xeth_mux_proxy_of_nd m w nd of
                   None \<Rightarrow> Inr w
                 | Some q \<Rightarrow>
                     if px_xid (w_proxy w q) \<noteq> 0 \<and> px_mux (w_proxy w q) \<noteq> None
                     then ignore_err (xeth_sbtx_ifinfo k q 0 XETH_IFINFO_REASON_REG w) else Inr w)
            | _ \<Rightarrow> Inr w))"

text \<open>\<open>Some n\<close> is the event \<^verbatim>\<open>NETEVENT_NEIGH_UPDATE\<close> with its neighbour, \<open>None\<close> any other event.\<close>

definition xeth_nb_netevent :: "kapi \<Rightarrow> ndp \<Rightarrow> neighbour option \<Rightarrow> world \<Rightarrow> world outcome" where
  "xeth_nb_netevent k m event w =
     (if \<not> nb_netevent (mx_nb (w_mux w m)) then Inr w
      else case event of Some n \<Rightarrow> ignore_err (xeth_sbtx_neigh_update k m n w) | None \<Rightarrow> Inr w)"

section \<open>Starting and stopping\<close>

definition sizeof_xeth_fibmuxnet :: nat where "sizeof_xeth_fibmuxnet = 56"

definition xeth_nb_start_fib :: "kapi \<Rightarrow> ndp \<Rightarrow> netp \<Rightarrow> world \<Rightarrow> int \<times> world" where
  "xeth_nb_start_fib k m net w =
     (if net \<in> set (nb_fibs (mx_nb (w_mux w m))) then (- EBUSY, w)
      else if \<not> k_kzalloc k (w_mux w m) sizeof_xeth_fibmuxnet then (- ENOMEM, w)
      else let err = k_register_fib_notifier k (w_trace w) net;
               w = log_event (Ev_fib_register net) w
           in (err, if err = 0
                    then upd_mux m (\<lambda>p. p\<lparr>mx_nb := (mx_nb p)\<lparr>nb_fibs := nb_fibs (mx_nb p) @ [net]\<rparr>\<rparr>) w
                    else w))"

definition xeth_nb_start_new_fib :: "kapi \<Rightarrow> ndp \<Rightarrow> netp \<Rightarrow> world \<Rightarrow> int \<times> world" where
  "xeth_nb_start_new_fib k m net w =
     (if nb_fibs (mx_nb (w_mux w m)) \<noteq> [] then xeth_nb_start_fib k m net w else (0, w))"

fun start_new_fibs :: "kapi \<Rightarrow> ndp \<Rightarrow> netp list \<Rightarrow> world \<Rightarrow> int \<times> world" where
  "start_new_fibs k m [] w = (0, w)"
| "start_new_fibs k m (net # nets) w =
     (if net \<noteq> init_net
      then let (err, w) = xeth_nb_start_new_fib k m net w
           in if err \<noteq> 0 then (err, w) else start_new_fibs k m nets w
      else start_new_fibs k m nets w)"

definition xeth_nb_start_all_fib :: "kapi \<Rightarrow> ndp \<Rightarrow> world \<Rightarrow> int \<times> world" where
  "xeth_nb_start_all_fib k m w =
     (let w = snd (xeth_nb_start_fib k m init_net w) in start_new_fibs k m (w_nets w) w)"

text \<open>The macros \<^verbatim>\<open>xeth_nb_start\<close> and \<^verbatim>\<open>xeth_nb_stop\<close>, by notifier.\<close>

fun nb_flag :: "notifier \<Rightarrow> xeth_mux_flag" where
  "nb_flag Nb_inetaddr = inetaddr_notifier"
| "nb_flag Nb_inet6addr = inet6addr_notifier"
| "nb_flag Nb_netdevice = netdevice_notifier"
| "nb_flag Nb_netevent = netevent_notifier"

fun nb_set_call :: "notifier \<Rightarrow> xeth_nb \<Rightarrow> xeth_nb" where
  "nb_set_call Nb_inetaddr nb = nb\<lparr>nb_inetaddr := True\<rparr>"
| "nb_set_call Nb_inet6addr nb = nb\<lparr>nb_inet6addr := True\<rparr>"
| "nb_set_call Nb_netdevice nb = nb\<lparr>nb_netdevice := True\<rparr>"
| "nb_set_call Nb_netevent nb = nb\<lparr>nb_netevent := True\<rparr>"

definition xeth_nb_start :: "kapi \<Rightarrow> notifier \<Rightarrow> ndp \<Rightarrow> world \<Rightarrow> int \<times> world" where
  "xeth_nb_start k nb m w =
     (if xeth_mux_has (nb_flag nb) (mx_flags (w_mux w m)) then (- EBUSY, w)
      else let w = upd_mux m (\<lambda>p. p\<lparr>mx_nb := nb_set_call nb (mx_nb p)\<rparr>) w;
               err = k_register_notifier k (w_trace w) nb;
               w = log_event (Ev_nb_register nb) w
           in (err, if err = 0
                    then upd_mux m (\<lambda>p. p\<lparr>mx_flags := xeth_mux_set_flag (nb_flag nb) (mx_flags p)\<rparr>) w
                    else w))"

definition xeth_nb_stop :: "notifier \<Rightarrow> ndp \<Rightarrow> world \<Rightarrow> world" where
  "xeth_nb_stop nb m w =
     (if xeth_mux_has (nb_flag nb) (mx_flags (w_mux w m))
      then upd_mux m (\<lambda>p. p\<lparr>mx_flags := xeth_mux_clear_flag (nb_flag nb) (mx_flags p)\<rparr>)
             (log_event (Ev_nb_unregister nb) w)
      else w)"

section \<open>Registrations are balanced\<close>

lemma nb_flag_inj [simp]: "nb_flag a = nb_flag b \<longleftrightarrow> a = b"
  by (cases a; cases b) simp_all

lemma fib_stop_simps [simp]:
  "nb_fibs (mx_nb (w_mux (fib_stop m net w) m)) = remove1 net (nb_fibs (mx_nb (w_mux w m)))"
  "w_trace (fib_stop m net w) = w_trace w @ [Ev_fib_unregister net]"
  "mx_flags (w_mux (fib_stop m net w) i) = mx_flags (w_mux w i)"
  by (simp_all add: fib_stop_def)

lemma stop_all_fib_loop:
  "nb_fibs (mx_nb (w_mux w m)) = ns \<Longrightarrow>
   nb_fibs (mx_nb (w_mux (fold (fib_stop m) ns w) m)) = []
   \<and> w_trace (fold (fib_stop m) ns w) = w_trace w @ map Ev_fib_unregister ns
   \<and> mx_flags (w_mux (fold (fib_stop m) ns w) m) = mx_flags (w_mux w m)"
  by (induction ns arbitrary: w) simp_all

lemma stop_net_fib_loop:
  "distinct ns \<Longrightarrow> w_trace (fold (\<lambda>n w. if n = net then fib_stop m n w else w) ns w) =
     w_trace w @ (if net \<in> set ns then [Ev_fib_unregister net] else [])
   \<and> nb_fibs (mx_nb (w_mux (fold (\<lambda>n w. if n = net then fib_stop m n w else w) ns w) m)) =
     (if net \<in> set ns then remove1 net (nb_fibs (mx_nb (w_mux w m))) else nb_fibs (mx_nb (w_mux w m)))"
  by (induction ns arbitrary: w) auto

definition fibs_of :: "ndp \<Rightarrow> world \<Rightarrow> netp list" where
  "fibs_of m w = nb_fibs (mx_nb (w_mux w m))"

lemma start_fib_spec:
  assumes "distinct (fibs_of m w)" and "xeth_nb_start_fib k m net w = (err, w')"
  shows "distinct (fibs_of m w')"
    and "fibs_of m w' = (if err = 0 then fibs_of m w @ [net] else fibs_of m w)"
    and "err = - EBUSY \<or> net \<notin> set (fibs_of m w)"
    and "w_nets w' = w_nets w"
  using assms by (auto simp: xeth_nb_start_fib_def fibs_of_def Let_def split: if_splits)

definition kernel_accepts :: "kapi \<Rightarrow> bool" where
  "kernel_accepts k \<longleftrightarrow> (\<forall>p sz. k_kzalloc k p sz) \<and> (\<forall>tr n. k_register_fib_notifier k tr n = 0)
     \<and> (\<forall>tr n. k_register_notifier k tr n = 0)"

lemma start_new_fibs_loop:
  assumes "kernel_accepts k" and "fibs_of m w \<noteq> []" and "distinct nets"
    and "\<forall>n \<in> set nets. n \<noteq> init_net \<longrightarrow> n \<notin> set (fibs_of m w)"
  shows "\<exists>w'. start_new_fibs k m nets w = (0, w')
    \<and> fibs_of m w' = fibs_of m w @ filter (\<lambda>n. n \<noteq> init_net) nets
    \<and> w_trace w' = w_trace w @ map Ev_fib_register (filter (\<lambda>n. n \<noteq> init_net) nets)"
  using assms
proof (induction nets arbitrary: w)
  case (Cons n nets)
  show ?case
  proof (cases "n = init_net")
    case True
    with Cons show ?thesis by simp
  next
    case False
    let ?w = "upd_mux m (\<lambda>p. p\<lparr>mx_nb := (mx_nb p)\<lparr>nb_fibs := nb_fibs (mx_nb p) @ [n]\<rparr>\<rparr>)
        (log_event (Ev_fib_register n) w)"
    have s: "xeth_nb_start_new_fib k m n w = (0, ?w)"
      using Cons.prems False
      by (simp add: xeth_nb_start_new_fib_def xeth_nb_start_fib_def kernel_accepts_def fibs_of_def Let_def)
    have f: "fibs_of m ?w = fibs_of m w @ [n]" by (simp add: fibs_of_def)
    from Cons.IH[of ?w] Cons.prems f obtain w' where "start_new_fibs k m nets ?w = (0, w')"
      "fibs_of m w' = fibs_of m ?w @ filter (\<lambda>n. n \<noteq> init_net) nets"
      "w_trace w' = w_trace ?w @ map Ev_fib_register (filter (\<lambda>n. n \<noteq> init_net) nets)" by auto
    with s f False show ?thesis by simp
  qed
qed simp

section \<open>Properties\<close>

text \<open>
  Starting and stopping a notifier: a successful start registers once and marks it, a second start
  is refused without a second registration, a stop unregisters exactly once and clears the mark, a
  second stop does nothing, and a start that the kernel refuses leaves the mark clear.
\<close>

theorem notifier_start_stop:
  "case xeth_nb_start k nb m w of (err, w1) \<Rightarrow>
     (if xeth_mux_has (nb_flag nb) (mx_flags (w_mux w m)) then err = - EBUSY \<and> w1 = w
      else w_trace w1 = w_trace w @ [Ev_nb_register nb] \<and> err = k_register_notifier k (w_trace w) nb
        \<and> (xeth_mux_has (nb_flag nb) (mx_flags (w_mux w1 m)) \<longleftrightarrow> err = 0)
        \<and> (err = 0 \<longrightarrow> xeth_nb_start k nb m w1 = (- EBUSY, w1)
            \<and> w_trace (xeth_nb_stop nb m w1) = w_trace w1 @ [Ev_nb_unregister nb]
            \<and> \<not> xeth_mux_has (nb_flag nb) (mx_flags (w_mux (xeth_nb_stop nb m w1) m))
            \<and> xeth_nb_stop nb m (xeth_nb_stop nb m w1) = xeth_nb_stop nb m w1))"
  by (simp add: xeth_nb_start_def xeth_nb_stop_def Let_def)

theorem notifier_start_stop_witness:
  "xeth_nb_start sample_kapi Nb_netdevice 1 (snd (xeth_nb_start sample_kapi Nb_netdevice 1 sample_world))
     = (- EBUSY, snd (xeth_nb_start sample_kapi Nb_netdevice 1 sample_world))"
  using notifier_start_stop[where k = sample_kapi and nb = Nb_netdevice and m = 1 and w = sample_world]
  by (simp add: split_beta sample_world_def sample_mux_def sample_kapi_def split: prod.splits)

text \<open>
  C38: A dump of the routes registers one FIB notifier for the initial name space and one for every other
  name space, each once and in order, and stopping them all unregisters exactly those, each once.
\<close>

theorem fib_notifiers_balanced:
  assumes "kernel_accepts k" and "fibs_of m w = []" and "distinct (w_nets w)"
  shows "\<exists>w'. xeth_nb_start_all_fib k m w = (0, w')
    \<and> fibs_of m w' = init_net # filter (\<lambda>n. n \<noteq> init_net) (w_nets w)
    \<and> w_trace w' = w_trace w @ map Ev_fib_register (fibs_of m w')
    \<and> fibs_of m (xeth_nb_stop_all_fib m w') = []
    \<and> w_trace (xeth_nb_stop_all_fib m w') = w_trace w' @ map Ev_fib_unregister (fibs_of m w')"
proof -
  let ?w = "upd_mux m (\<lambda>p. p\<lparr>mx_nb := (mx_nb p)\<lparr>nb_fibs := nb_fibs (mx_nb p) @ [init_net]\<rparr>\<rparr>)
      (log_event (Ev_fib_register init_net) w)"
  have s: "xeth_nb_start_fib k m init_net w = (0, ?w)"
    using assms(1,2) by (simp add: xeth_nb_start_fib_def kernel_accepts_def fibs_of_def Let_def)
  have f: "fibs_of m ?w = [init_net]" using assms(2) by (simp add: fibs_of_def)
  from start_new_fibs_loop[OF assms(1), of m ?w "w_nets w"] f assms(3) obtain w' where w':
    "start_new_fibs k m (w_nets w) ?w = (0, w')"
    "fibs_of m w' = [init_net] @ filter (\<lambda>n. n \<noteq> init_net) (w_nets w)"
    "w_trace w' = w_trace ?w @ map Ev_fib_register (filter (\<lambda>n. n \<noteq> init_net) (w_nets w))" by auto
  have "xeth_nb_start_all_fib k m w = (0, w')" using s w'(1) by (simp add: xeth_nb_start_all_fib_def)
  with w' stop_all_fib_loop[of w' m "fibs_of m w'"] show ?thesis
    by (intro exI[of _ w']) (simp add: xeth_nb_stop_all_fib_def fibs_of_def)
qed

theorem fib_notifiers_balanced_witness:
  "\<exists>w'. xeth_nb_start_all_fib sample_kapi 1 sample_world = (0, w') \<and> fibs_of 1 w' = [0, 1]
    \<and> w_trace (xeth_nb_stop_all_fib 1 w') = w_trace w' @ [Ev_fib_unregister 0, Ev_fib_unregister 1]"
proof -
  have "kernel_accepts sample_kapi" by (simp add: kernel_accepts_def sample_kapi_def)
  from fib_notifiers_balanced[OF this, of 1 sample_world] show ?thesis
    by (auto simp: fibs_of_def sample_world_def sample_mux_def init_net_def)
qed



end
