(* ===== verification/Xeth_Sbrx.thy ===== *)
theory Xeth_Sbrx
  imports Xeth_Nb
begin

text \<open>
  Messages from the daemon (\<^verbatim>\<open>dkms/xeth_sbrx.c\<close>): the header checks and the dispatch on the kind. The
  handlers read their fields from the receive buffer, whatever the length of the message was.
\<close>

section \<open>Handlers\<close>

definition xeth_sbrx_is_msg :: "u8 list \<Rightarrow> bool" where
  "xeth_sbrx_is_msg d \<longleftrightarrow> (let h = xeth_msg_header_at d in z64 h = 0 \<and> z32 h = 0 \<and> z16 h = 0)"

definition xeth_sbrx_carrier :: "kapi \<Rightarrow> ndp \<Rightarrow> xeth_msg_carrier \<Rightarrow> world \<Rightarrow> world" where
  "xeth_sbrx_carrier k m msg w =
     (case xeth_mux_proxy_of_xid k m w (carrier_xid msg) of
        Some q \<Rightarrow>
          if px_kind (w_proxy w q) = XETH_DEV_KIND_PORT
          then xeth_mux_change_carrier m (px_nd (w_proxy w q)) (carrier_flag msg = XETH_CARRIER_ON) w
          else inc_counter sbrx_invalid m w
      | None \<Rightarrow> inc_counter sbrx_invalid m w)"

definition xeth_sbrx_et_stat :: "kapi \<Rightarrow> ndp \<Rightarrow> xeth_msg_stat \<Rightarrow> world \<Rightarrow> world outcome" where
  "xeth_sbrx_et_stat k m msg w =
     (case xeth_mux_proxy_of_xid k m w (stat_xid msg) of
        Some q \<Rightarrow>
          if px_kind (w_proxy w q) = XETH_DEV_KIND_PORT
          then xeth_port_ethtool_stat (px_nd (w_proxy w q)) (stat_index msg) (stat_count msg) w
          else Inr w
      | None \<Rightarrow> Inr w)"

text \<open>The proxy is not tested before its net device is read.\<close>

definition xeth_sbrx_link_stat :: "kapi \<Rightarrow> ndp \<Rightarrow> xeth_msg_stat \<Rightarrow> world \<Rightarrow> world outcome" where
  "xeth_sbrx_link_stat k m msg w =
     (case xeth_mux_proxy_of_xid k m w (stat_xid msg) of
        Some q \<Rightarrow> xeth_proxy_link_stat (px_nd (w_proxy w q)) (stat_index msg) (stat_count msg) w
      | None \<Rightarrow> Inl Null_deref)"

definition xeth_sbrx_speed :: "kapi \<Rightarrow> ndp \<Rightarrow> xeth_msg_speed \<Rightarrow> world \<Rightarrow> world" where
  "xeth_sbrx_speed k m msg w =
     (case xeth_mux_proxy_of_xid k m w (speed_xid msg) of
        Some q \<Rightarrow>
          if px_kind (w_proxy w q) = XETH_DEV_KIND_PORT
          then xeth_port_speed (px_nd (w_proxy w q)) (speed_mbps msg) w else w
      | None \<Rightarrow> w)"

definition sbrx_dump_ifinfo :: "kapi \<Rightarrow> ndp \<Rightarrow> world \<Rightarrow> world outcome" where
  "sbrx_dump_ifinfo k m w =
     bindR (xeth_mux_dump_all_ifinfo k m w) (\<lambda>w.
     bindR (ignore_err (xeth_sbtx_break k m w)) (\<lambda>w.
       let w = snd (xeth_nb_start k Nb_netdevice m w) in Inr (snd (xeth_nb_start k Nb_inetaddr m w))))"

definition sbrx_dump_fibinfo :: "kapi \<Rightarrow> ndp \<Rightarrow> world \<Rightarrow> world outcome" where
  "sbrx_dump_fibinfo k m w =
     (let w = snd (xeth_nb_start_all_fib k m w) in
      bindR (ignore_err (xeth_sbtx_break k m w)) (\<lambda>w. Inr (snd (xeth_nb_start k Nb_netevent m w))))"

definition xeth_sbrx_msg :: "kapi \<Rightarrow> ndp \<Rightarrow> u8 list \<Rightarrow> nat \<Rightarrow> world \<Rightarrow> (int \<times> world) outcome" where
  "xeth_sbrx_msg k m v n w =
     (if n < sizeof_xeth_msg_header \<or> \<not> xeth_sbrx_is_msg v then Inr (- EINVAL, w)
      else if version (xeth_msg_header_at v) \<noteq> XETH_MSG_VERSION then Inr (- EINVAL, w)
      else let kd = kind (xeth_msg_header_at v); done = (\<lambda>w. Inr (0, w)) in
        if kd = xeth_msg_kind_code XETH_MSG_KIND_DUMP_IFINFO then bindR (sbrx_dump_ifinfo k m w) done
        else if kd = xeth_msg_kind_code XETH_MSG_KIND_DUMP_FIBINFO then bindR (sbrx_dump_fibinfo k m w) done
        else if kd = xeth_msg_kind_code XETH_MSG_KIND_CARRIER
        then done (xeth_sbrx_carrier k m (xeth_msg_carrier_at v) w)
        else if kd = xeth_msg_kind_code XETH_MSG_KIND_ETHTOOL_STAT
        then bindR (xeth_sbrx_et_stat k m (xeth_msg_stat_at v) w) done
        else if kd = xeth_msg_kind_code XETH_MSG_KIND_LINK_STAT
        then bindR (xeth_sbrx_link_stat k m (xeth_msg_stat_at v) w) done
        else if kd = xeth_msg_kind_code XETH_MSG_KIND_SPEED
        then done (xeth_sbrx_speed k m (xeth_msg_speed_at v) w)
        else Inr (- EINVAL, inc_counter sbrx_invalid m w))"

section \<open>The handlers keep the buffers in order\<close>

lemma sb_inv_cong:
  "mx_counters p = mx_counters p' \<Longrightarrow> mx_sb_tx p = mx_sb_tx p' \<Longrightarrow> mx_sb_free p = mx_sb_free p' \<Longrightarrow>
   sb_inv p = sb_inv p'"
  by (simp add: sb_inv_def)

lemma sb_inv_inc: "c \<noteq> sbtx_queued \<Longrightarrow> c \<noteq> sbtx_free \<Longrightarrow> sb_inv p \<Longrightarrow> sb_inv (upd_counters (xeth_mux_inc c) p)"
  by (simp add: sb_inv_def mc.get_inc)

text \<open>What a handler may change of a mux besides the buffers: nothing of the three lists and gauges.\<close>

definition same_sb :: "xeth_mux_priv \<Rightarrow> xeth_mux_priv \<Rightarrow> bool" where
  "same_sb p p' \<longleftrightarrow> mx_counters p' = mx_counters p \<and> mx_sb_tx p' = mx_sb_tx p \<and> mx_sb_free p' = mx_sb_free p"

lemma same_sb_inv: "same_sb p p' \<Longrightarrow> sb_inv p' = sb_inv p"
  by (simp add: same_sb_def sb_inv_def)

lemma same_sb_trans: "same_sb p q \<Longrightarrow> same_sb q r \<Longrightarrow> same_sb p r"
  by (simp add: same_sb_def)

lemma nb_start_same_sb: "same_sb (w_mux w m) (w_mux (snd (xeth_nb_start k nb m w)) m)"
  by (simp add: xeth_nb_start_def same_sb_def Let_def)

lemma start_fib_same_sb: "same_sb (w_mux w m) (w_mux (snd (xeth_nb_start_fib k m net w)) m)"
  by (simp add: xeth_nb_start_fib_def same_sb_def Let_def)

lemma start_new_fibs_same_sb: "same_sb (w_mux w m) (w_mux (snd (start_new_fibs k m nets w)) m)"
proof (induction nets arbitrary: w)
  case (Cons n nets)
  have s: "same_sb (w_mux w m) (w_mux (snd (xeth_nb_start_new_fib k m n w)) m)"
    using start_fib_same_sb[of w m k n] by (simp add: xeth_nb_start_new_fib_def same_sb_def)
  show ?case
    using Cons.IH[of w] Cons.IH[of "snd (xeth_nb_start_new_fib k m n w)"] s
    by (auto simp: split_beta intro: same_sb_trans)
qed (simp add: same_sb_def)

lemma start_all_fib_same_sb: "same_sb (w_mux w m) (w_mux (snd (xeth_nb_start_all_fib k m w)) m)"
  using start_fib_same_sb[of w m k init_net] start_new_fibs_same_sb
  by (auto simp: xeth_nb_start_all_fib_def Let_def intro: same_sb_trans)

lemma change_carrier_mux [simp]: "w_mux (xeth_mux_change_carrier m nd on w) = w_mux w"
proof -
  have "w_mux (fold (\<lambda>q w. if xeth_vlan_has_link w (px_nd (w_proxy w q)) nd
      then netif_carrier on (px_nd (w_proxy w q)) w else w) qs w) = w_mux w" for qs w
    by (induction qs arbitrary: w) auto
  then show ?thesis by (simp add: xeth_mux_change_carrier_def)
qed

text \<open>Every proxy that a lookup finds belongs to this mux.\<close>

lemma lookup_mux:
  assumes "table_inv k m w" and "xeth_mux_proxy_of_xid k m w x = Some q"
  shows "px_mux (w_proxy w q) = Some m"
proof -
  from lookup_sound[OF assms] have "q \<in> set (proxies m w)" by simp
  from table_bucket[OF assms(1) this] assms(1) show ?thesis by (auto simp: table_inv_def hash_ok_def)
qed

text \<open>The table part of the state: bucket chains, kin lists, and the identity of the proxies.\<close>

definition same_table :: "ndp \<Rightarrow> world \<Rightarrow> world \<Rightarrow> bool" where
  "same_table m w w' \<longleftrightarrow> mx_hls (w_mux w' m) = mx_hls (w_mux w m)
     \<and> (\<forall>kd. kin_list kd (w_mux w' m) = kin_list kd (w_mux w m))
     \<and> (\<forall>q. px_xid (w_proxy w' q) = px_xid (w_proxy w q) \<and> px_mux (w_proxy w' q) = px_mux (w_proxy w q)
          \<and> px_kind (w_proxy w' q) = px_kind (w_proxy w q))"

lemma same_table_refl [simp]: "same_table m w w"
  by (simp add: same_table_def)

lemma same_table_trans: "same_table m u v \<Longrightarrow> same_table m v w \<Longrightarrow> same_table m u w"
  by (simp add: same_table_def)

lemma same_table_inv: "same_table m w w' \<Longrightarrow> table_inv k m w' = table_inv k m w"
  by (simp add: same_table_def table_inv_def kin_ok_def proxies_def)

lemma same_tableI:
  assumes "w_proxy w' = w_proxy w" and "mx_hls (w_mux w' m) = mx_hls (w_mux w m)"
    and "mx_ports (w_mux w' m) = mx_ports (w_mux w m)" and "mx_vlans (w_mux w' m) = mx_vlans (w_mux w m)"
    and "mx_bridges (w_mux w' m) = mx_bridges (w_mux w m)" and "mx_lags (w_mux w' m) = mx_lags (w_mux w m)"
    and "mx_lbs (w_mux w' m) = mx_lbs (w_mux w m)"
  shows "same_table m w w'"
proof -
  have "kin_list kd (w_mux w' m) = kin_list kd (w_mux w m)" for kd using assms by (cases kd) simp_all
  with assms show ?thesis by (simp add: same_table_def)
qed

lemma sb_ext_same_table: "sb_ext m w w' \<Longrightarrow> same_table m w w'"
  using only_mux_sb_frame[of m w w'] erase_sb_fields[OF only_mux_sb_mux, of m w w' m]
  by (intro same_tableI) (simp_all add: sb_ext_def)

text \<open>
  What every handler keeps: the buffer invariant and the table. \<open>keeps\<close> is closed under composition, so
  that a handler keeps both when its steps do.
\<close>

definition keeps :: "kapi \<Rightarrow> ndp \<Rightarrow> world \<Rightarrow> world \<Rightarrow> bool" where
  "keeps k m w w' \<longleftrightarrow> table_inv k m w \<and> sb_inv (w_mux w m) \<longrightarrow> table_inv k m w' \<and> sb_inv (w_mux w' m)"

lemma keeps_refl [simp]: "keeps k m w w"
  by (simp add: keeps_def)

lemma keeps_trans: "keeps k m u v \<Longrightarrow> keeps k m v w \<Longrightarrow> keeps k m u w"
  by (simp add: keeps_def)

lemma keepsI: "same_table m w w' \<Longrightarrow> (sb_inv (w_mux w m) \<Longrightarrow> sb_inv (w_mux w' m)) \<Longrightarrow> keeps k m w w'"
  using same_table_inv by (auto simp: keeps_def)

lemma sb_ext_keeps: "sb_ext m w w' \<Longrightarrow> keeps k m w w'"
  by (intro keepsI sb_ext_same_table) (auto simp: sb_ext_def)

lemma inc_counter_keeps: "c \<noteq> sbtx_queued \<Longrightarrow> c \<noteq> sbtx_free \<Longrightarrow> keeps k m w (inc_counter c m' w)"
  by (intro keepsI same_tableI) (auto simp: inc_counter_def sb_inv_inc)

lemma nb_start_keeps: "keeps k m w (snd (xeth_nb_start k' nb m w))"
  using same_sb_inv[OF nb_start_same_sb[of w m k' nb]]
  by (intro keepsI same_tableI) (simp_all add: xeth_nb_start_def Let_def)

lemma start_fib_keeps: "keeps k m w (snd (xeth_nb_start_fib k' m net w))"
  using same_sb_inv[OF start_fib_same_sb[of w m k' net]]
  by (intro keepsI same_tableI) (simp_all add: xeth_nb_start_fib_def Let_def)

lemma start_new_fib_keeps: "keeps k m w (snd (xeth_nb_start_new_fib k' m net w))"
  using start_fib_keeps[of k m w k' net] by (simp add: xeth_nb_start_new_fib_def)

lemma start_new_fibs_keeps: "keeps k m w (snd (start_new_fibs k' m nets w))"
proof (induction nets arbitrary: w)
  case (Cons n nets)
  show ?case
    using Cons.IH[of w] Cons.IH[of "snd (xeth_nb_start_new_fib k' m n w)"] start_new_fib_keeps[of k m w k' n]
    by (auto simp: split_beta intro: keeps_trans)
qed simp

lemma start_all_fib_keeps: "keeps k m w (snd (xeth_nb_start_all_fib k' m w))"
  unfolding xeth_nb_start_all_fib_def Let_def by (rule keeps_trans[OF start_fib_keeps start_new_fibs_keeps])

lemma change_carrier_keeps: "keeps k m w (xeth_mux_change_carrier m' nd on w)"
proof -
  have "w_proxy (fold (\<lambda>q w. if xeth_vlan_has_link w (px_nd (w_proxy w q)) nd
      then netif_carrier on (px_nd (w_proxy w q)) w else w) qs w) = w_proxy w" for qs w
    by (induction qs arbitrary: w) auto
  then have "w_proxy (xeth_mux_change_carrier m' nd on w) = w_proxy w"
    by (simp add: xeth_mux_change_carrier_def)
  then show ?thesis by (intro keepsI same_tableI) simp_all
qed

lemma port_updates_keep:
  "keeps k m w (xeth_port_speed nd mbps w)"
  "xeth_port_ethtool_stat nd i c w = Inr w' \<Longrightarrow> keeps k m w w'"
  "xeth_proxy_link_stat nd i c w = Inr w' \<Longrightarrow> keeps k m w w'"
proof -
  show "keeps k m w (xeth_port_speed nd mbps w)"
    by (intro keepsI same_tableI) (simp_all add: xeth_port_speed_def)
  have "keeps k m w (upd_ext nd f w)" for f
    by (intro keepsI same_tableI) (simp_all add: upd_ext_def)
  then show "keeps k m w w'" if "xeth_port_ethtool_stat nd i c w = Inr w'"
    using that inc_counter_keeps[of sbrx_invalid]
    by (auto simp: xeth_port_ethtool_stat_def bindR_eq_Inr split: if_splits)
  have "keeps k m w (upd_proxy nd (\<lambda>px. px\<lparr>px_link_stats := f px\<rparr>) w)" for f
    by (rule keepsI) (simp_all add: same_table_def)
  then show "keeps k m w w'" if "xeth_proxy_link_stat nd i c w = Inr w'"
    using that inc_counter_keeps[of sbrx_invalid]
    by (auto simp: xeth_proxy_link_stat_def bindR_eq_Inr split: if_splits)
qed

lemma sbrx_dumps_keep:
  "sbrx_dump_ifinfo k m w = Inr w' \<Longrightarrow> keeps k m w w'"
  "sbrx_dump_fibinfo k m w = Inr w' \<Longrightarrow> keeps k m w w'"
proof -
  assume "sbrx_dump_ifinfo k m w = Inr w'"
  then obtain u v r where u: "xeth_mux_dump_all_ifinfo k m w = Inr u" "xeth_sbtx_break k m u = Inr (r, v)"
    "w' = snd (xeth_nb_start k Nb_inetaddr m (snd (xeth_nb_start k Nb_netdevice m v)))"
    by (auto simp: sbrx_dump_ifinfo_def bindR_eq_Inr ignore_err_Inr Let_def)
  have "keeps k m w u" using dump_all_ext[OF _ u(1)] sb_ext_keeps by (auto simp: keeps_def)
  moreover have "keeps k m u v" using sends_ext(1)[OF u(2)] by (rule sb_ext_keeps)
  ultimately show "keeps k m w w'" unfolding u(3) by (meson keeps_trans nb_start_keeps)
next
  assume "sbrx_dump_fibinfo k m w = Inr w'"
  then obtain v r where v: "xeth_sbtx_break k m (snd (xeth_nb_start_all_fib k m w)) = Inr (r, v)"
    "w' = snd (xeth_nb_start k Nb_netevent m v)"
    by (auto simp: sbrx_dump_fibinfo_def bindR_eq_Inr ignore_err_Inr Let_def)
  from sb_ext_keeps[OF sends_ext(1)[OF v(1)]] show "keeps k m w w'"
    unfolding v(2) by (meson keeps_trans nb_start_keeps start_all_fib_keeps)
qed

lemma sbrx_msg_keeps:
  assumes "xeth_sbrx_msg k m v n w = Inr (r, w')"
  shows "keeps k m w w'"
  using assms sbrx_dumps_keep port_updates_keep change_carrier_keeps inc_counter_keeps[of sbrx_invalid]
  by (auto simp: xeth_sbrx_msg_def xeth_sbrx_carrier_def xeth_sbrx_et_stat_def xeth_sbrx_link_stat_def
      xeth_sbrx_speed_def bindR_eq_Inr Let_def split: if_splits option.splits)

section \<open>Properties\<close>

text \<open>
  C16: A message is accepted exactly when it has a whole header, the header's zero words are zero, its
  version is the driver's and its kind is one of the six that the driver handles; every other message
  is refused with \<^verbatim>\<open>-EINVAL\<close> and has no effect but the count of invalid messages.
\<close>

theorem sbrx_accepts_exactly:
  assumes "xeth_sbrx_msg k m v n w = Inr (r, w')"
  shows "r = (if 16 \<le> n \<and> xeth_is_msg v \<and> xeth_msg_version_match v
      \<and> xeth_msg_kind_at v \<in> xeth_msg_kind_code ` {XETH_MSG_KIND_DUMP_IFINFO, XETH_MSG_KIND_DUMP_FIBINFO,
           XETH_MSG_KIND_CARRIER, XETH_MSG_KIND_ETHTOOL_STAT, XETH_MSG_KIND_LINK_STAT, XETH_MSG_KIND_SPEED}
      then 0 else - EINVAL)
    \<and> (r \<noteq> 0 \<longrightarrow> w' = w \<or> w' = inc_counter sbrx_invalid m w)"
  using assms
  by (auto simp: xeth_sbrx_msg_def xeth_sbrx_is_msg_def xeth_is_msg_def xeth_msg_version_match_def
      xeth_msg_kind_at_def Let_def bindR_eq_Inr sizeof_xeth_msg_header_def split: if_splits)

text \<open>A message with a header of a kind, and its payload.\<close>

definition raw_msg :: "xeth_msg_kind \<Rightarrow> u8 list \<Rightarrow> u8 list" where
  "raw_msg kd payload = replicate 14 0 @ [XETH_MSG_VERSION, xeth_msg_kind_code kd] @ payload"

lemma raw_msg_header:
  "xeth_msg_header_at (raw_msg kd pl) =
     \<lparr>z64 = 0, z32 = 0, z16 = 0, version = XETH_MSG_VERSION, kind = xeth_msg_kind_code kd\<rparr>"
proof -
  have "get_bytes off n (raw_msg kd pl) = replicate n 0" if "off + n \<le> 14" for off n
    using that by (simp add: raw_msg_def get_bytes_def)
  then show ?thesis
    by (simp add: xeth_msg_header_at_def) (simp add: raw_msg_def get_bytes_def)
qed

theorem sbrx_accepts_exactly_witness:
  "\<exists>w'. xeth_sbrx_msg sample_kapi 1 (raw_msg XETH_MSG_KIND_IFINFO []) 16 sample_world = Inr (- EINVAL, w')
     \<and> (w' = sample_world \<or> w' = inc_counter sbrx_invalid 1 sample_world)"
proof -
  obtain r w' where *: "xeth_sbrx_msg sample_kapi 1 (raw_msg XETH_MSG_KIND_IFINFO []) 16 sample_world = Inr (r, w')"
    by (simp add: xeth_sbrx_msg_def xeth_sbrx_is_msg_def raw_msg_header Let_def sizeof_xeth_msg_header_def)
  from sbrx_accepts_exactly[OF this] have "r = - EINVAL" "w' = sample_world \<or> w' = inc_counter sbrx_invalid 1 sample_world"
    by (simp_all add: xeth_msg_kind_at_def raw_msg_header)
  with * show ?thesis by simp
qed

text \<open>
  C17: A carrier message moves the carrier of the port with that XID and of the vlans stacked on it to the
  state of its flag, and of no other device; for an unknown XID or a proxy that is not a port it
  changes no carrier and counts one invalid message.
\<close>

theorem sbrx_carrier_correct:
  assumes "xeth_msg_header_at v = \<lparr>z64 = 0, z32 = 0, z16 = 0, version = XETH_MSG_VERSION,
      kind = xeth_msg_kind_code XETH_MSG_KIND_CARRIER\<rparr>" and "16 \<le> n"
    and "length (mx_counters (w_mux w m)) = xeth_mux_n_counters"
  shows "\<exists>w'. xeth_sbrx_msg k m v n w = Inr (0, w') \<and>
    (case xeth_mux_proxy_of_xid k m w (get32 16 v) of
       Some q \<Rightarrow>
         if px_kind (w_proxy w q) = XETH_DEV_KIND_PORT
         then \<forall>i. nd_carrier (w_nd w' i) =
           (if i = px_nd (w_proxy w q) \<or> (\<exists>r \<in> set (mx_vlans (w_mux w m)). px_nd (w_proxy w r) = i
                 \<and> w_vlan_link w i = Some (px_nd (w_proxy w q)))
            then get8 20 v = 1 else nd_carrier (w_nd w i))
         else w_nd w' = w_nd w \<and> xeth_mux_get sbrx_invalid (mx_counters (w_mux w' m)) =
                xeth_mux_get sbrx_invalid (mx_counters (w_mux w m)) + 1
     | None \<Rightarrow> w_nd w' = w_nd w \<and> xeth_mux_get sbrx_invalid (mx_counters (w_mux w' m)) =
                xeth_mux_get sbrx_invalid (mx_counters (w_mux w m)) + 1)"
proof -
  have res: "xeth_sbrx_msg k m v n w = Inr (0, xeth_sbrx_carrier k m (xeth_msg_carrier_at v) w)"
    using assms(1,2) by (simp add: xeth_sbrx_msg_def xeth_sbrx_is_msg_def Let_def sizeof_xeth_msg_header_def)
  have inv: "w_nd (inc_counter sbrx_invalid m w) = w_nd w"
    "xeth_mux_get sbrx_invalid (mx_counters (w_mux (inc_counter sbrx_invalid m w) m)) =
       xeth_mux_get sbrx_invalid (mx_counters (w_mux w m)) + 1"
    using assms(3) by (simp_all add: inc_counter_def mc.get_inc)
  have cc: "nd_carrier (w_nd (xeth_mux_change_carrier m nd on w) i) = (if i = nd \<or> (\<exists>r \<in> set (mx_vlans (w_mux w m)).
      px_nd (w_proxy w r) = i \<and> w_vlan_link w i = Some nd) then on else nd_carrier (w_nd w i))" for nd on i
    by (auto simp: xeth_mux_change_carrier_def change_carrier_loop)
  show ?thesis
    by (rule exI, rule conjI[OF res])
      (auto simp: xeth_sbrx_carrier_def xeth_msg_carrier_at_def inv cc XETH_CARRIER_ON_def split: option.split)
qed

lemma sample_lookup_2: "xeth_mux_proxy_of_xid sample_kapi 1 sample_world 3000 = Some 2"
  by (simp add: xeth_mux_proxy_of_xid_def sample_defs)

theorem sbrx_carrier_correct_witness:
  "\<exists>w'. xeth_sbrx_msg sample_kapi 1 (raw_msg XETH_MSG_KIND_CARRIER [184, 11, 0, 0, 0]) 21 sample_world = Inr (0, w')
     \<and> \<not> nd_carrier (w_nd w' 2) \<and> \<not> nd_carrier (w_nd w' 4) \<and> nd_carrier (w_nd w' 3)"
proof -
  let ?v = "raw_msg XETH_MSG_KIND_CARRIER [184, 11, 0, 0, 0]"
  have g: "get32 16 ?v = 3000" "get8 20 ?v = 0" by (simp_all add: raw_msg_def get_bytes_def)
  have px: "px_kind (w_proxy sample_world 2) = XETH_DEV_KIND_PORT" "px_nd (w_proxy sample_world 2) = 2"
    "px_nd (w_proxy sample_world 4) = 4" "w_vlan_link sample_world 4 = Some 2" "mx_vlans (w_mux sample_world 1) = [4]"
    "nd_carrier (w_nd sample_world 3)" "length (mx_counters (w_mux sample_world 1)) = xeth_mux_n_counters"
    by (simp_all add: sample_defs xeth_mux_n_counters_def)
  from sbrx_carrier_correct[OF raw_msg_header, of 21 sample_world 1 sample_kapi "[184, 11, 0, 0, 0]"]
    px g sample_lookup_2 show ?thesis by auto
qed

text \<open>
  A link statistic for an XID that no proxy has makes the driver dereference NULL: the daemon's message
  is accepted by all header checks, and the missing proxy is not tested for.
\<close>

theorem sbrx_link_stat_null_deref:
  assumes "xeth_msg_header_at v = \<lparr>z64 = 0, z32 = 0, z16 = 0, version = XETH_MSG_VERSION,
      kind = xeth_msg_kind_code XETH_MSG_KIND_LINK_STAT\<rparr>" and "16 \<le> n"
    and "table_inv k m w" and "\<forall>q \<in> set (proxies m w). px_xid (w_proxy w q) \<noteq> get32 16 v"
  shows "xeth_sbrx_msg k m v n w = Inl Null_deref"
proof -
  have "xeth_mux_proxy_of_xid k m w (get32 16 v) = None"
    using assms(3,4) by (simp add: reg.lookup_None_iff)
  with assms(1,2) show ?thesis
    by (simp add: xeth_sbrx_msg_def xeth_sbrx_is_msg_def Let_def sizeof_xeth_msg_header_def
        xeth_sbrx_link_stat_def xeth_msg_stat_at_def)
qed

theorem sbrx_link_stat_null_deref_witness:
  "xeth_sbrx_msg sample_kapi 1 (raw_msg XETH_MSG_KIND_LINK_STAT (replicate 16 0)) 32 sample_world = Inl Null_deref"
proof (rule sbrx_link_stat_null_deref[OF raw_msg_header _ sample_table_inv])
  show "\<forall>q \<in> set (proxies 1 sample_world). px_xid (w_proxy sample_world q) \<noteq>
      get32 16 (raw_msg XETH_MSG_KIND_LINK_STAT (replicate 16 0))"
    by (simp add: proxies_def sample_defs raw_msg_def get_bytes_def)
qed simp

end
