(* ===== verification/Xeth_Service.thy ===== *)
theory Xeth_Service
  imports Xeth_Sbrx
begin

text \<open>
  The service of a side band connection (\<^verbatim>\<open>dkms/xeth_mux.c\<close>): while a daemon is connected the main task
  of a mux alternates between receiving one message and sending the message at the head of the queue.
  The loop may run as long as the task is not stopped, so it takes fuel: \<open>None\<close> means that the fuel was
  used up, and \<open>service_sb_returns\<close> shows how much fuel is enough.
\<close>

section \<open>One message each way\<close>

definition xeth_mux_net_of_inum :: "u64 \<Rightarrow> world \<Rightarrow> netp option" where
  "xeth_mux_net_of_inum inum w = find (\<lambda>net. w_inum w net = inum) (w_nets w)"

definition sbtx_netns_add :: "kapi \<Rightarrow> ndp \<Rightarrow> u8 list \<Rightarrow> world \<Rightarrow> world" where
  "sbtx_netns_add k m d w =
     (if xeth_msg_kind_at d = xeth_msg_kind_code XETH_MSG_KIND_NETNS_ADD
      then case xeth_mux_net_of_inum (xeth_msg_netns_net d) w of
             Some net \<Rightarrow> snd (xeth_nb_start_new_fib k m net w)
           | None \<Rightarrow> w
      else w)"

definition xeth_mux_sbtx :: "kapi \<Rightarrow> ndp \<Rightarrow> xeth_sbtxb \<Rightarrow> world \<Rightarrow> int \<times> world" where
  "xeth_mux_sbtx k m b w =
     (let n = k_sendmsg k (w_trace w) (sb_msg b); w = log_event (Ev_sendmsg (sb_msg b)) w in
      if n = - EAGAIN
      then (n, inc_counter sbtx_retries m (upd_mux m (xeth_mux_prepend_sbtxb b) w))
      else let w = sbtx_netns_add k m (sb_data b) w;
               w = upd_mux m (xeth_mux_free_sbtxb b) w
           in if n > 0 then (0, inc_counter sbtx_msgs m w)
              else (if n < 0 then n else 1, w))"

text \<open>\<^verbatim>\<open>kernel_recvmsg\<close> stores the received bytes at the start of \<^verbatim>\<open>priv->sb.rx\<close> and returns their number.\<close>

definition xeth_mux_sbrx :: "kapi \<Rightarrow> ndp \<Rightarrow> world \<Rightarrow> (int \<times> world) outcome" where
  "xeth_mux_sbrx k m w =
     (let (n, bytes) = k_recvmsg k (w_trace w);
          w = log_event Ev_recvmsg w;
          w = (if n > 0 then upd_mux m (\<lambda>p. p\<lparr>mx_sb_rx := put_bytes 0 (take (nat n) bytes) (mx_sb_rx p)\<rparr>) w else w)
      in if n = - EAGAIN then Inr (0, w)
         else if n = 0 \<or> n = - ECONNRESET then Inr (1, w)
         else if n < 0 then Inr (n, w)
         else let w = inc_counter sbrx_msgs m w in
              bindR (xeth_sbrx_msg k m (mx_sb_rx (w_mux w m)) (nat n) w) (\<lambda>(err, w).
                Inr (if err \<noteq> 0 then err else n, w)))"

section \<open>The service loop\<close>

definition minms :: nat where "minms = 10"
definition maxms :: nat where "maxms = 320"

text \<open>
  One round of the loop: whether it breaks, the error number, the next sleeping time and the state.
\<close>

definition service_tick :: "kapi \<Rightarrow> ndp \<Rightarrow> nat \<Rightarrow> world \<Rightarrow> (bool \<times> int \<times> nat \<times> world) outcome" where
  "service_tick k m ms w =
     bindR (xeth_mux_sbrx k m (inc_counter sbrx_ticks m w)) (\<lambda>(err, w).
       if err = 1 then Inr (True, 0, ms, w)
       else if err < 0 then Inr (True, err, ms, w)
       else let ms = (if err > 0 then minms else ms);
                (ob, p) = xeth_mux_pop_sbtxb (w_mux w m); w = upd_mux m (\<lambda>_. p) w
            in case ob of
                 Some b \<Rightarrow>
                   (let ms = minms; (err, w) = xeth_mux_sbtx k m b (inc_counter sbtx_ticks m w) in
                    if err = - EAGAIN then Inr (False, 0, ms, log_event (Ev_sleep ms) w)
                    else if err = - ECONNRESET then Inr (True, 0, ms, w)
                    else Inr (False, err, ms, w))
               | None \<Rightarrow>
                   if err = 0
                   then Inr (False, err, if ms < maxms then ms * 2 else ms, log_event (Ev_sleep ms) w)
                   else Inr (False, err, ms, w))"

fun service_loop :: "kapi \<Rightarrow> ndp \<Rightarrow> nat \<Rightarrow> int \<Rightarrow> nat \<Rightarrow> world \<Rightarrow> (int \<times> world) outcome option" where
  "service_loop k m 0 err ms w = None"
| "service_loop k m (Suc fuel) err ms w =
     (if k_should_stop k (w_trace w) then Some (Inr (err, w))
      else case service_tick k m ms w of
             Inl e \<Rightarrow> Some (Inl e)
           | Inr (brk, err, ms, w) \<Rightarrow> if brk then Some (Inr (err, w)) else service_loop k m fuel err ms w)"

text \<open>What follows the loop: the notifiers are stopped and the queue is drained.\<close>

definition service_exit :: "ndp \<Rightarrow> world \<Rightarrow> world" where
  "service_exit m w =
     (let w = xeth_nb_stop Nb_netevent m w;
          w = xeth_nb_stop_all_fib m w;
          w = xeth_nb_stop Nb_inetaddr m w;
          w = xeth_nb_stop Nb_netdevice m w
      in upd_mux m xeth_mux_drain_sbtx w)"

definition xeth_mux_service_sb :: "kapi \<Rightarrow> ndp \<Rightarrow> nat \<Rightarrow> world \<Rightarrow> (int \<times> world) outcome option" where
  "xeth_mux_service_sb k m fuel w =
     map_option (\<lambda>r. bindR r (\<lambda>(err, w). Inr (if err < 0 then err else 0, service_exit m w)))
       (service_loop k m fuel 0 minms w)"

section \<open>The service keeps its invariants\<close>

lemma sb_inv_rx [simp]: "sb_inv (p\<lparr>mx_sb_rx := d\<rparr>) = sb_inv p"
  by (simp add: sb_inv_def)

lemma mux_update_keeps:
  assumes "mx_hls (f (w_mux w m)) = mx_hls (w_mux w m)" "mx_ports (f (w_mux w m)) = mx_ports (w_mux w m)"
    "mx_vlans (f (w_mux w m)) = mx_vlans (w_mux w m)" "mx_bridges (f (w_mux w m)) = mx_bridges (w_mux w m)"
    "mx_lags (f (w_mux w m)) = mx_lags (w_mux w m)" "mx_lbs (f (w_mux w m)) = mx_lbs (w_mux w m)"
    and "sb_inv (w_mux w m) \<Longrightarrow> sb_inv (f (w_mux w m))"
  shows "keeps k m w (upd_mux m f w)"
  using assms by (intro keepsI same_tableI) simp_all

lemma log_event_keeps: "keeps k m w (log_event e w)"
  by (intro keepsI same_tableI) simp_all

lemma sbrx_keeps:
  assumes "xeth_mux_sbrx k m w = Inr (r, w')"
  shows "keeps k m w w'"
proof -
  obtain n bytes where rm: "k_recvmsg k (w_trace w) = (n, bytes)" by (cases "k_recvmsg k (w_trace w)")
  let ?w1 = "log_event Ev_recvmsg w"
  let ?w2 = "if n > 0 then upd_mux m (\<lambda>p. p\<lparr>mx_sb_rx := put_bytes 0 (take (nat n) bytes) (mx_sb_rx p)\<rparr>) ?w1 else ?w1"
  have k2: "keeps k m w ?w2"
  proof (cases "n > 0")
    case True
    have "keeps k m ?w1 (upd_mux m (\<lambda>p. p\<lparr>mx_sb_rx := put_bytes 0 (take (nat n) bytes) (mx_sb_rx p)\<rparr>) ?w1)"
      by (rule mux_update_keeps) simp_all
    with True keeps_trans[OF log_event_keeps] show ?thesis by simp
  qed (simp add: log_event_keeps)
  show ?thesis
  proof (cases "w' = ?w2")
    case False
    with assms rm obtain e where e: "xeth_sbrx_msg k m (mx_sb_rx (w_mux (inc_counter sbrx_msgs m ?w2) m)) (nat n)
        (inc_counter sbrx_msgs m ?w2) = Inr (e, w')"
      by (auto simp: xeth_mux_sbrx_def Let_def bindR_eq_Inr split: if_splits)
    show ?thesis
      by (rule keeps_trans[OF k2 keeps_trans[OF inc_counter_keeps sbrx_msg_keeps[OF e]]]) simp_all
  qed (simp add: k2)
qed

lemma sbtx_netns_add_keeps: "keeps k m w (sbtx_netns_add k' m d w)"
  by (simp add: sbtx_netns_add_def start_new_fib_keeps split: option.split)

lemma prepend_keeps:
  assumes "sbtxb_ok b"
  shows "keeps k m w (upd_mux m (xeth_mux_prepend_sbtxb b) w)"
proof (rule mux_update_keeps)
  show "sb_inv (w_mux w m) \<Longrightarrow> sb_inv (xeth_mux_prepend_sbtxb b (w_mux w m))"
    using assms by (rule prepend_sb_inv[rotated])
qed (simp_all add: xeth_mux_prepend_sbtxb_def)

lemma free_keeps:
  assumes "sbtxb_ok b"
  shows "keeps k m w (upd_mux m (xeth_mux_free_sbtxb b) w)"
proof (rule mux_update_keeps)
  show "sb_inv (w_mux w m) \<Longrightarrow> sb_inv (xeth_mux_free_sbtxb b (w_mux w m))"
    using assms by (rule free_sb_inv[rotated])
qed (simp_all add: xeth_mux_free_sbtxb_def)

lemma sbtx_cases:
  "snd (xeth_mux_sbtx k m b w) \<in> (let w1 = log_event (Ev_sendmsg (sb_msg b)) w;
      w2 = upd_mux m (xeth_mux_free_sbtxb b) (sbtx_netns_add k m (sb_data b) w1) in
    {inc_counter sbtx_retries m (upd_mux m (xeth_mux_prepend_sbtxb b) w1), w2, inc_counter sbtx_msgs m w2})"
  by (simp add: xeth_mux_sbtx_def Let_def)

lemma sbtx_keeps:
  assumes "sbtxb_ok b"
  shows "keeps k m w (snd (xeth_mux_sbtx k' m b w))"
proof -
  let ?w = "log_event (Ev_sendmsg (sb_msg b)) w"
  let ?u = "upd_mux m (xeth_mux_prepend_sbtxb b) ?w"
  let ?v = "upd_mux m (xeth_mux_free_sbtxb b) (sbtx_netns_add k' m (sb_data b) ?w)"
  have u: "keeps k m w (inc_counter sbtx_retries m ?u)"
    by (rule keeps_trans[OF log_event_keeps keeps_trans[OF prepend_keeps[OF assms] inc_counter_keeps]]) simp_all
  have v: "keeps k m w ?v"
    by (rule keeps_trans[OF log_event_keeps keeps_trans[OF sbtx_netns_add_keeps free_keeps[OF assms]]])
  have v': "keeps k m w (inc_counter sbtx_msgs m ?v)"
    by (rule keeps_trans[OF v inc_counter_keeps]) simp_all
  from sbtx_cases[of k' m b w] u v v' show ?thesis by (auto simp only: Let_def insert_iff empty_iff)
qed

lemma pop_keeps: "keeps k m w (upd_mux m (\<lambda>_. snd (xeth_mux_pop_sbtxb (w_mux w m))) w)"
proof (rule mux_update_keeps)
  show "sb_inv (w_mux w m) \<Longrightarrow> sb_inv (snd (xeth_mux_pop_sbtxb (w_mux w m)))" by (rule pop_sb_inv)
qed (simp_all add: xeth_mux_pop_sbtxb_def split: list.split)

lemma tick_send:
  assumes "xeth_mux_sbrx k m (inc_counter sbrx_ticks m w) = Inr (r, u)" and "r = 0 \<or> 1 < r"
    and "xeth_mux_pop_sbtxb (w_mux u m) = (Some b, p)"
    and "xeth_mux_sbtx k m b (inc_counter sbtx_ticks m (upd_mux m (\<lambda>_. p) u)) = (e, x)"
  shows "service_tick k m ms w = (if e = - EAGAIN then Inr (False, 0, minms, log_event (Ev_sleep minms) x)
    else if e = - ECONNRESET then Inr (True, 0, minms, x) else Inr (False, e, minms, x))"
  using assms by (auto simp: service_tick_def Let_def)

text \<open>The ways in which a round can end: nothing to send, or one message taken from the queue.\<close>

lemma service_tickE:
  assumes "service_tick k m ms w = Inr (brk, err, ms', w')"
  obtains (over) r where "xeth_mux_sbrx k m (inc_counter sbrx_ticks m w) = Inr (r, w')"
      "r = 1 \<or> r < 0" "brk" "err = (if r = 1 then 0 else r)" "ms' = ms"
  | (idle) u p where "xeth_mux_sbrx k m (inc_counter sbrx_ticks m w) = Inr (0, u)"
      "xeth_mux_pop_sbtxb (w_mux u m) = (None, p)" "\<not> brk" "err = 0"
      "ms' = (if ms < maxms then ms * 2 else ms)" "w' = log_event (Ev_sleep ms) (upd_mux m (\<lambda>_. p) u)"
  | (busy) r u p where "xeth_mux_sbrx k m (inc_counter sbrx_ticks m w) = Inr (r, u)" "1 < r"
      "xeth_mux_pop_sbtxb (w_mux u m) = (None, p)" "\<not> brk" "err = r" "ms' = minms" "w' = upd_mux m (\<lambda>_. p) u"
  | (send) r u b p e x where "xeth_mux_sbrx k m (inc_counter sbrx_ticks m w) = Inr (r, u)" "r = 0 \<or> 1 < r"
      "xeth_mux_pop_sbtxb (w_mux u m) = (Some b, p)"
      "xeth_mux_sbtx k m b (inc_counter sbtx_ticks m (upd_mux m (\<lambda>_. p) u)) = (e, x)" "ms' = minms"
      "brk \<longleftrightarrow> e = - ECONNRESET" "err = (if e = - EAGAIN \<or> e = - ECONNRESET then 0 else e)"
      "w' = (if e = - EAGAIN then log_event (Ev_sleep minms) x else x)"
proof -
  obtain r u where r: "xeth_mux_sbrx k m (inc_counter sbrx_ticks m w) = Inr (r, u)"
    using assms by (auto simp: service_tick_def bindR_eq_Inr)
  obtain ob p where pop: "xeth_mux_pop_sbtxb (w_mux u m) = (ob, p)" by (cases "xeth_mux_pop_sbtxb (w_mux u m)")
  consider "r = 1 \<or> r < 0" | "r = 0" "ob = None" | "1 < r" "ob = None" | b where "r = 0 \<or> 1 < r" "ob = Some b"
    by (cases ob; cases "r = 1 \<or> r < 0"; cases "r = 0") auto
  then show thesis
  proof cases
    case 1
    then show thesis using assms r over by (auto simp: service_tick_def)
  next
    case 2
    then show thesis using assms r pop idle by (simp add: service_tick_def Let_def)
  next
    case 3
    then show thesis using assms r pop busy by (simp add: service_tick_def Let_def)
  next
    case (4 b)
    obtain e x where ex: "xeth_mux_sbtx k m b (inc_counter sbtx_ticks m (upd_mux m (\<lambda>_. p) u)) = (e, x)"
      by (cases "xeth_mux_sbtx k m b (inc_counter sbtx_ticks m (upd_mux m (\<lambda>_. p) u))")
    from tick_send[OF r 4(1) _ ex] pop 4(2)
    have "service_tick k m ms w = (if e = - EAGAIN then Inr (False, 0, minms, log_event (Ev_sleep minms) x)
        else if e = - ECONNRESET then Inr (True, 0, minms, x) else Inr (False, e, minms, x))" by simp
    with assms have "ms' = minms" "brk \<longleftrightarrow> e = - ECONNRESET" "err = (if e = - EAGAIN \<or> e = - ECONNRESET then 0 else e)"
      "w' = (if e = - EAGAIN then log_event (Ev_sleep minms) x else x)" by (auto split: if_splits)
    then show thesis using send[OF r 4(1) _ ex] pop 4(2) by simp
  qed
qed

lemma tick_keeps:
  assumes "service_tick k m ms w = Inr (brk, err, ms', w')"
  shows "keeps k m w w'"
  using assms
proof (cases rule: service_tickE)
  case (over r)
  show ?thesis by (rule keeps_trans[OF inc_counter_keeps sbrx_keeps[OF over(1)]]) simp_all
next
  case (idle u p)
  have "keeps k m w u" by (rule keeps_trans[OF inc_counter_keeps sbrx_keeps[OF idle(1)]]) simp_all
  with pop_keeps[of k m u] idle(2) have "keeps k m w (upd_mux m (\<lambda>_. p) u)" by (auto intro: keeps_trans)
  then show ?thesis unfolding idle(6) by (rule keeps_trans[OF _ log_event_keeps])
next
  case (busy r u p)
  have "keeps k m w u" by (rule keeps_trans[OF inc_counter_keeps sbrx_keeps[OF busy(1)]]) simp_all
  with pop_keeps[of k m u] busy(3) show ?thesis unfolding busy(7) by (auto intro: keeps_trans)
next
  case (send r u b p e x)
  have u: "keeps k m w u" by (rule keeps_trans[OF inc_counter_keeps sbrx_keeps[OF send(1)]]) simp_all
  have "keeps k m w x"
  proof (cases "sb_inv (w_mux u m)")
    case True
    then have ok: "sbtxb_ok b" using pop_sbtxb_ok send(3) by blast
    have "keeps k m u (upd_mux m (\<lambda>_. p) u)" using pop_keeps[of k m u] send(3) by simp
    from keeps_trans[OF keeps_trans[OF u this] inc_counter_keeps[of sbtx_ticks]]
    have "keeps k m w (inc_counter sbtx_ticks m (upd_mux m (\<lambda>_. p) u))" by simp
    from keeps_trans[OF this sbtx_keeps[OF ok, where k' = k]] send(4) show ?thesis by (metis snd_conv)
  next
    case False
    with u show ?thesis by (auto simp: keeps_def)
  qed
  with keeps_trans[OF this log_event_keeps] show ?thesis unfolding send(8) by simp
qed

lemma service_loop_keeps:
  "service_loop k m fuel err ms w = Some (Inr (err', w')) \<Longrightarrow> keeps k m w w'"
proof (induction k m fuel err ms w rule: service_loop.induct)
  case (2 k m fuel err ms w)
  show ?case
  proof (cases "k_should_stop k (w_trace w)")
    case False
    with 2(2) obtain brk e ms1 w1 where t: "service_tick k m ms w = Inr (brk, e, ms1, w1)"
      by (auto split: sum.splits)
    show ?thesis
      using 2 False t tick_keeps[OF t] keeps_trans by (cases brk) auto
  qed (use 2(2) in simp)
qed simp

section \<open>Progress\<close>

text \<open>The log only grows, and none but the service loop itself sleeps.\<close>

definition quiet_ext :: "world \<Rightarrow> world \<Rightarrow> bool" where
  "quiet_ext w w' \<longleftrightarrow> (\<exists>es. w_trace w' = w_trace w @ es \<and> (\<forall>n. Ev_sleep n \<notin> set es))"

lemma quiet_same: "w_trace w' = w_trace w \<Longrightarrow> quiet_ext w w'"
  by (simp add: quiet_ext_def)

lemma quiet_refl [simp]: "quiet_ext w w"
  by (simp add: quiet_same)

lemma quiet_trans: "quiet_ext u v \<Longrightarrow> quiet_ext v w \<Longrightarrow> quiet_ext u w"
  unfolding quiet_ext_def by (metis append_assoc set_append Un_iff)

lemma quiet_log: "(\<And>n. e \<noteq> Ev_sleep n) \<Longrightarrow> w_trace w' = w_trace w @ [e] \<Longrightarrow> quiet_ext w w'"
  by (auto simp: quiet_ext_def)

lemma quiet_sb_ext: "sb_ext m w w' \<Longrightarrow> quiet_ext w w'"
  using sb_ext_frame[of m w w'] by (simp add: quiet_same)

lemma quiet_counter [simp]: "quiet_ext w (inc_counter c m w)"
  by (simp add: quiet_same inc_counter_def)

lemma quiet_nb_start: "quiet_ext w (snd (xeth_nb_start k nb m w))"
  by (auto simp: xeth_nb_start_def Let_def intro: quiet_log[of "Ev_nb_register nb"])

lemma quiet_start_fib: "quiet_ext w (snd (xeth_nb_start_fib k m net w))"
  by (auto simp: xeth_nb_start_fib_def Let_def intro: quiet_log[of "Ev_fib_register net"])

lemma quiet_start_new_fib: "quiet_ext w (snd (xeth_nb_start_new_fib k m net w))"
  by (simp add: xeth_nb_start_new_fib_def quiet_start_fib)

lemma quiet_start_new_fibs: "quiet_ext w (snd (start_new_fibs k m nets w))"
proof (induction nets arbitrary: w)
  case (Cons n nets)
  show ?case
    using Cons.IH[of w] Cons.IH[of "snd (xeth_nb_start_new_fib k m n w)"] quiet_start_new_fib[of w k m n]
    by (auto simp: split_beta intro: quiet_trans)
qed simp

lemma quiet_start_all_fib: "quiet_ext w (snd (xeth_nb_start_all_fib k m w))"
  unfolding xeth_nb_start_all_fib_def Let_def by (rule quiet_trans[OF quiet_start_fib quiet_start_new_fibs])

lemma quiet_carrier: "quiet_ext w (xeth_mux_change_carrier m nd on w)"
  by (rule quiet_same) (simp add: xeth_mux_change_carrier_def carrier_loop_frame)

lemma quiet_port_updates:
  "quiet_ext w (xeth_port_speed nd mbps w)"
  "xeth_port_ethtool_stat nd i c w = Inr w' \<Longrightarrow> quiet_ext w w'"
  "xeth_proxy_link_stat nd i c w = Inr w' \<Longrightarrow> quiet_ext w w'"
  by (auto simp: xeth_port_speed_def xeth_port_ethtool_stat_def xeth_proxy_link_stat_def upd_ext_def
      bindR_eq_Inr quiet_same split: if_splits)

text \<open>A dump queues messages for the muxes of the proxies and makes no call outside the driver.\<close>

lemma ifinfo_trace: "xeth_sbtx_ifinfo k q f rs w = Inr (r, w') \<Longrightarrow> w_trace w' = w_trace w"
  using ifinfo_ext[of k q f rs w r w'] sb_ext_frame
  by (cases "px_mux (w_proxy w q)") (auto simp: xeth_sbtx_ifinfo_def Let_def)

lemma dump_ifinfo_trace: "xeth_proxy_dump_ifinfo k q w = Inr w' \<Longrightarrow> w_trace w' = w_trace w"
  using dump_ifinfo_ext[of k q w w'] sb_ext_frame
  by (cases "px_mux (w_proxy w q)") (auto simp: xeth_proxy_dump_ifinfo_def Let_def)

lemma dump_all_trace: "xeth_mux_dump_all_ifinfo k m w = Inr w' \<Longrightarrow> w_trace w' = w_trace w"
  unfolding xeth_mux_dump_all_ifinfo_def Let_def
  by (rule foldR_invariant[where I = "\<lambda>u. w_trace u = w_trace w"]) (auto dest: dump_ifinfo_trace)

lemma quiet_dumps:
  "sbrx_dump_ifinfo k m w = Inr w' \<Longrightarrow> quiet_ext w w'"
  "sbrx_dump_fibinfo k m w = Inr w' \<Longrightarrow> quiet_ext w w'"
proof -
  assume "sbrx_dump_ifinfo k m w = Inr w'"
  then obtain u v r where u: "xeth_mux_dump_all_ifinfo k m w = Inr u" "xeth_sbtx_break k m u = Inr (r, v)"
    "w' = snd (xeth_nb_start k Nb_inetaddr m (snd (xeth_nb_start k Nb_netdevice m v)))"
    by (auto simp: sbrx_dump_ifinfo_def bindR_eq_Inr ignore_err_Inr Let_def)
  from quiet_same[OF dump_all_trace[OF u(1)]] quiet_sb_ext[OF sends_ext(1)[OF u(2)]]
  show "quiet_ext w w'" unfolding u(3) by (meson quiet_trans quiet_nb_start)
next
  assume "sbrx_dump_fibinfo k m w = Inr w'"
  then obtain v r where v: "xeth_sbtx_break k m (snd (xeth_nb_start_all_fib k m w)) = Inr (r, v)"
    "w' = snd (xeth_nb_start k Nb_netevent m v)"
    by (auto simp: sbrx_dump_fibinfo_def bindR_eq_Inr ignore_err_Inr Let_def)
  from quiet_sb_ext[OF sends_ext(1)[OF v(1)]] show "quiet_ext w w'"
    unfolding v(2) by (meson quiet_trans quiet_nb_start quiet_start_all_fib)
qed

lemma quiet_sbrx_msg: "xeth_sbrx_msg k m v n w = Inr (r, w') \<Longrightarrow> quiet_ext w w'"
  using quiet_dumps quiet_port_updates quiet_carrier
  by (auto simp: xeth_sbrx_msg_def xeth_sbrx_carrier_def xeth_sbrx_et_stat_def xeth_sbrx_link_stat_def
      xeth_sbrx_speed_def bindR_eq_Inr Let_def split: if_splits option.splits)

text \<open>A receive logs at least its own call.\<close>

lemma sbrx_progress:
  assumes "xeth_mux_sbrx k m w = Inr (r, w')"
  shows "\<exists>es. w_trace w' = w_trace w @ Ev_recvmsg # es \<and> (\<forall>n. Ev_sleep n \<notin> set es)"
proof -
  obtain n bytes where rm: "k_recvmsg k (w_trace w) = (n, bytes)" by (cases "k_recvmsg k (w_trace w)")
  let ?w1 = "log_event Ev_recvmsg w"
  let ?w2 = "if n > 0 then upd_mux m (\<lambda>p. p\<lparr>mx_sb_rx := put_bytes 0 (take (nat n) bytes) (mx_sb_rx p)\<rparr>) ?w1 else ?w1"
  have tr: "w_trace ?w2 = w_trace w @ [Ev_recvmsg]" by simp
  have "quiet_ext ?w2 w'"
  proof (cases "w' = ?w2")
    case False
    with assms rm obtain e where e: "xeth_sbrx_msg k m (mx_sb_rx (w_mux (inc_counter sbrx_msgs m ?w2) m)) (nat n)
        (inc_counter sbrx_msgs m ?w2) = Inr (e, w')"
      by (auto simp: xeth_mux_sbrx_def Let_def bindR_eq_Inr split: if_splits)
    show ?thesis by (rule quiet_trans[OF quiet_counter quiet_sbrx_msg[OF e]])
  qed simp
  then show ?thesis unfolding quiet_ext_def tr by auto
qed

lemma quiet_upd_mux [simp]: "quiet_ext w (upd_mux m f w)"
  by (simp add: quiet_same)

lemma quiet_sbtx: "quiet_ext w (snd (xeth_mux_sbtx k m b w))"
proof -
  let ?w = "log_event (Ev_sendmsg (sb_msg b)) w"
  let ?u = "upd_mux m (xeth_mux_prepend_sbtxb b) ?w"
  let ?v = "upd_mux m (xeth_mux_free_sbtxb b) (sbtx_netns_add k m (sb_data b) ?w)"
  have w: "quiet_ext w ?w" by (rule quiet_log[of "Ev_sendmsg (sb_msg b)"]) simp_all
  have "quiet_ext ?w (sbtx_netns_add k m (sb_data b) ?w)"
    by (simp add: sbtx_netns_add_def quiet_start_new_fib split: option.split)
  from quiet_trans[OF w quiet_trans[OF this quiet_upd_mux]] have v: "quiet_ext w ?v" .
  have u: "quiet_ext w (inc_counter sbtx_retries m ?u)"
    by (rule quiet_trans[OF w quiet_trans[OF quiet_upd_mux quiet_counter]])
  from sbtx_cases[of k m b w] u v quiet_trans[OF v quiet_counter] show ?thesis
    by (auto simp only: Let_def insert_iff empty_iff)
qed

text \<open>
  A round logs its receive call; it sleeps at most once, at its end, for the current time when it is
  idle and for the minimum when the socket is full.
\<close>

lemma tick_progress:
  assumes "service_tick k m ms w = Inr (brk, err, ms', w')"
  shows "\<exists>es. w_trace w' = w_trace w @ Ev_recvmsg # es \<and> (\<forall>n. Ev_sleep n \<in> set es \<longrightarrow> n = ms \<or> n = minms)"
  using assms
proof (cases rule: service_tickE)
  case (over r)
  from sbrx_progress[OF over(1)] show ?thesis by (auto simp: inc_counter_def)
next
  case (idle u p)
  from sbrx_progress[OF idle(1)] obtain es where "w_trace u = w_trace w @ Ev_recvmsg # es" "\<forall>n. Ev_sleep n \<notin> set es"
    by (auto simp: inc_counter_def)
  then show ?thesis unfolding idle(6) by (intro exI[of _ "es @ [Ev_sleep ms]"]) auto
next
  case (busy r u p)
  from sbrx_progress[OF busy(1)] show ?thesis unfolding busy(7) by (auto simp: inc_counter_def)
next
  case (send r u b p e x)
  from sbrx_progress[OF send(1)] obtain es where es: "w_trace u = w_trace w @ Ev_recvmsg # es" "\<forall>n. Ev_sleep n \<notin> set es"
    by (auto simp: inc_counter_def)
  have "quiet_ext u x"
    using quiet_trans[OF quiet_upd_mux quiet_trans[OF quiet_counter quiet_sbtx]] send(4) by (metis snd_conv)
  then obtain fs where fs: "w_trace x = w_trace u @ fs" "\<forall>n. Ev_sleep n \<notin> set fs" by (auto simp: quiet_ext_def)
  show ?thesis
  proof (cases "e = - EAGAIN")
    case True
    with es fs send(8) show ?thesis by (intro exI[of _ "es @ fs @ [Ev_sleep minms]"]) auto
  next
    case False
    with es fs send(8) show ?thesis by (intro exI[of _ "es @ fs"]) auto
  qed
qed

lemma service_loop_ends:
  assumes "\<forall>tr. N \<le> length tr \<longrightarrow> k_should_stop k tr" and "N - length (w_trace w) < fuel"
  shows "service_loop k m fuel err ms w \<noteq> None"
  using assms(2)
proof (induction fuel arbitrary: err ms w)
  case (Suc fuel)
  show ?case
  proof (cases "k_should_stop k (w_trace w)")
    case False
    with assms(1) have "length (w_trace w) < N" by (auto simp: not_le[symmetric])
    show ?thesis
    proof (cases "service_tick k m ms w")
      case (Inr t)
      obtain brk e ms' w' where t: "t = (brk, e, ms', w')" by (cases t)
      have "length (w_trace w) < length (w_trace w')" using tick_progress[of k m ms w] Inr t by force
      with Suc.prems \<open>length (w_trace w) < N\<close> have "N - length (w_trace w') < fuel" by linarith
      from Suc.IH[OF this, of e ms'] False Inr t show ?thesis by simp
    qed (simp add: False)
  qed simp
qed simp

section \<open>Leaving the service\<close>

lemma nb_stop_simps:
  "xeth_mux_has f (mx_flags (w_mux (xeth_nb_stop nb m w) m)) \<longleftrightarrow>
     xeth_mux_has f (mx_flags (w_mux w m)) \<and> f \<noteq> nb_flag nb"
  "nb_fibs (mx_nb (w_mux (xeth_nb_stop nb m w) m)) = nb_fibs (mx_nb (w_mux w m))"
  "same_sb (w_mux w m) (w_mux (xeth_nb_stop nb m w) m)"
  by (auto simp: xeth_nb_stop_def same_sb_def)

lemma fib_stop_same_sb: "same_sb (w_mux w m) (w_mux (fib_stop m n w) m)"
  by (simp add: fib_stop_def same_sb_def)

lemma stop_all_fib_same_sb: "same_sb (w_mux w m) (w_mux (xeth_nb_stop_all_fib m w) m)"
proof -
  have "same_sb (w_mux w m) (w_mux (fold (fib_stop m) ns w) m)" for ns
  proof (induction ns arbitrary: w)
    case (Cons n ns)
    from same_sb_trans[OF fib_stop_same_sb Cons.IH] show ?case by simp
  qed (simp add: same_sb_def)
  then show ?thesis by (simp add: xeth_nb_stop_all_fib_def)
qed

lemma stop_all_fib_flags: "mx_flags (w_mux (xeth_nb_stop_all_fib m w) m) = mx_flags (w_mux w m)"
  "fibs_of m (xeth_nb_stop_all_fib m w) = []"
  using stop_all_fib_loop[of w m "nb_fibs (mx_nb (w_mux w m))"]
  by (simp_all add: xeth_nb_stop_all_fib_def fibs_of_def)

lemma drain_fields [simp]:
  "mx_flags (xeth_mux_drain_sbtx p) = mx_flags p" "mx_nb (xeth_mux_drain_sbtx p) = mx_nb p"
proof -
  have "mx_flags (drain_loop bs p) = mx_flags p \<and> mx_nb (drain_loop bs p) = mx_nb p" for bs
    by (induction bs arbitrary: p) simp_all
  then show "mx_flags (xeth_mux_drain_sbtx p) = mx_flags p" "mx_nb (xeth_mux_drain_sbtx p) = mx_nb p"
    by (simp_all add: xeth_mux_drain_sbtx_def)
qed

lemma service_exit_clean:
  assumes "sb_inv (w_mux w m)"
  shows "sb_inv (w_mux (service_exit m w) m)" and "mx_sb_tx (w_mux (service_exit m w) m) = []"
    and "mx_sb_free (w_mux (service_exit m w) m) = mx_sb_free (w_mux w m) @ mx_sb_tx (w_mux w m)"
    and "fibs_of m (service_exit m w) = []"
    and "nb \<noteq> Nb_inet6addr \<Longrightarrow> \<not> xeth_mux_has (nb_flag nb) (mx_flags (w_mux (service_exit m w) m))"
proof -
  let ?u = "xeth_nb_stop Nb_netdevice m (xeth_nb_stop Nb_inetaddr m (xeth_nb_stop_all_fib m (xeth_nb_stop Nb_netevent m w)))"
  have u: "same_sb (w_mux w m) (w_mux ?u m)"
    by (meson nb_stop_simps(3) stop_all_fib_same_sb same_sb_trans)
  with assms have inv: "sb_inv (w_mux ?u m)" using same_sb_inv by blast
  have ex: "service_exit m w = upd_mux m xeth_mux_drain_sbtx ?u" by (simp only: service_exit_def Let_def)
  from drain_loop_spec[OF inv refl] u
  show "sb_inv (w_mux (service_exit m w) m)" "mx_sb_tx (w_mux (service_exit m w) m) = []"
    "mx_sb_free (w_mux (service_exit m w) m) = mx_sb_free (w_mux w m) @ mx_sb_tx (w_mux w m)"
    by (simp_all add: ex xeth_mux_drain_sbtx_def same_sb_def)
  show "fibs_of m (service_exit m w) = []"
    using stop_all_fib_flags(2) by (simp add: ex fibs_of_def nb_stop_simps)
  show "\<not> xeth_mux_has (nb_flag nb) (mx_flags (w_mux (service_exit m w) m))" if "nb \<noteq> Nb_inet6addr"
    using that by (cases nb) (simp_all add: ex nb_stop_simps stop_all_fib_flags(1))
qed

lemma same_table_nb_stop: "same_table m w (xeth_nb_stop nb m w)"
  by (rule same_tableI) (simp_all add: xeth_nb_stop_def)

lemma same_table_stop_all: "same_table m w (xeth_nb_stop_all_fib m w)"
proof -
  have "same_table m w (fold (fib_stop m) ns w)" for ns
  proof (induction ns arbitrary: w)
    case (Cons n ns)
    have "same_table m w (fib_stop m n w)" by (rule same_tableI) (simp_all add: fib_stop_def)
    from same_table_trans[OF this Cons.IH] show ?case by simp
  qed simp
  then show ?thesis by (simp add: xeth_nb_stop_all_fib_def)
qed

lemma same_table_drain: "same_table m w (upd_mux m xeth_mux_drain_sbtx w)"
proof -
  have "erase_sb (drain_loop bs p) = erase_sb p" for bs p
    by (induction bs arbitrary: p) (simp_all add: erase_sb_def)
  then have "erase_sb (xeth_mux_drain_sbtx p) = erase_sb p" for p by (simp add: xeth_mux_drain_sbtx_def)
  from erase_sb_fields[OF this] show ?thesis by (intro same_tableI) simp_all
qed

lemma same_table_exit: "same_table m w (service_exit m w)"
  unfolding service_exit_def Let_def
  by (rule same_table_trans[OF same_table_nb_stop same_table_trans[OF same_table_stop_all
        same_table_trans[OF same_table_nb_stop same_table_trans[OF same_table_nb_stop same_table_drain]]]])

section \<open>Properties\<close>



text \<open>
  C15: The service returns: when the task is told to stop once \<open>N\<close> calls of the kernel have been made, fuel
  for \<open>N + 1\<close> rounds is enough, since every round makes at least the call that receives.
\<close>

theorem service_sb_returns:
  assumes "\<forall>tr. N \<le> length tr \<longrightarrow> k_should_stop k tr"
  shows "\<exists>r. xeth_mux_service_sb k m (Suc N) w = Some r"
proof -
  have "service_loop k m (Suc N) 0 minms w \<noteq> None" by (rule service_loop_ends[OF assms]) simp
  then show ?thesis by (auto simp: xeth_mux_service_sb_def)
qed

theorem service_sb_returns_witness:
  "\<exists>r. xeth_mux_service_sb sample_kapi 1 (Suc 40) sample_world = Some r"
  by (rule service_sb_returns) (simp add: sample_kapi_def)

lemma sbtx_netns_same_sb: "same_sb (w_mux w m) (w_mux (sbtx_netns_add k m d w) m)"
proof -
  have "same_sb (w_mux w m) (w_mux (snd (xeth_nb_start_new_fib k m n w)) m)" for n
    using start_fib_same_sb[of w m k n] by (simp add: xeth_nb_start_new_fib_def same_sb_def)
  then show ?thesis by (simp add: sbtx_netns_add_def same_sb_def split: option.split)
qed

lemma sbtx_queue:
  "fst (xeth_mux_sbtx k m b w) = - EAGAIN \<longleftrightarrow> k_sendmsg k (w_trace w) (sb_msg b) = - EAGAIN"
  "mx_sb_tx (w_mux (snd (xeth_mux_sbtx k m b w)) m) =
     (if k_sendmsg k (w_trace w) (sb_msg b) = - EAGAIN then b # mx_sb_tx (w_mux w m) else mx_sb_tx (w_mux w m))"
  using sbtx_netns_same_sb[of "log_event (Ev_sendmsg (sb_msg b)) w" m k "sb_data b"]
  by (auto simp: xeth_mux_sbtx_def Let_def same_sb_def xeth_mux_prepend_sbtxb_def xeth_mux_free_sbtxb_def
      inc_counter_def)

text \<open>
  A message at the head of the queue stays there, in its place before the others, as long as the
  socket has no room for it; otherwise it leaves the queue, also when the kernel reports another error,
  and it is never sent twice.
\<close>

theorem queue_head_sent_or_kept:
  assumes "fst (k_recvmsg k (w_trace w)) = - EAGAIN" and "mx_sb_tx (w_mux w m) = b # bs"
  shows "\<exists>brk err w'. service_tick k m ms w = Inr (brk, err, minms, w')
    \<and> mx_sb_tx (w_mux w' m) =
        (if k_sendmsg k (w_trace w @ [Ev_recvmsg]) (sb_msg b) = - EAGAIN then b # bs else bs)"
proof -
  let ?u = "inc_counter sbrx_ticks m w"
  let ?v = "log_event Ev_recvmsg ?u"
  let ?p = "upd_counters (xeth_mux_dec sbtx_queued) ((w_mux ?v m)\<lparr>mx_sb_tx := bs\<rparr>)"
  let ?x = "inc_counter sbtx_ticks m (upd_mux m (\<lambda>_. ?p) ?v)"
  have tr: "w_trace ?u = w_trace w" "w_trace ?x = w_trace w @ [Ev_recvmsg]" "mx_sb_tx (w_mux ?x m) = bs"
    by (simp_all add: inc_counter_def)
  have rx: "xeth_mux_sbrx k m ?u = Inr (0, ?v)"
    using assms(1) by (simp add: xeth_mux_sbrx_def split_beta Let_def tr)
  have pop: "xeth_mux_pop_sbtxb (w_mux ?v m) = (Some b, ?p)"
    using assms(2) by (simp add: xeth_mux_pop_sbtxb_def inc_counter_def)
  obtain e y where y: "xeth_mux_sbtx k m b ?x = (e, y)" by (cases "xeth_mux_sbtx k m b ?x")
  have "mx_sb_tx (w_mux y m) = (if k_sendmsg k (w_trace w @ [Ev_recvmsg]) (sb_msg b) = - EAGAIN then b # bs else bs)"
    using sbtx_queue(2)[of k m b ?x] y tr by simp
  with tick_send[OF rx _ pop y, of ms] show ?thesis by auto
qed

theorem queue_head_sent_or_kept_witness:
  "\<exists>brk err w'. service_tick (sample_kapi\<lparr>k_sendmsg := \<lambda>_ _. - EAGAIN\<rparr>) 1 80
      (upd_mux 1 (\<lambda>p. p\<lparr>mx_sb_tx := [\<lparr>sb_len = 1, sb_sz = 2, sb_data = [7, 0]\<rparr>]\<rparr>) sample_world) = Inr (brk, err, minms, w')
    \<and> mx_sb_tx (w_mux w' 1) = [\<lparr>sb_len = 1, sb_sz = 2, sb_data = [7, 0]\<rparr>]"
  using queue_head_sent_or_kept[of "sample_kapi\<lparr>k_sendmsg := \<lambda>_ _. - EAGAIN\<rparr>"
      "upd_mux 1 (\<lambda>p. p\<lparr>mx_sb_tx := [\<lparr>sb_len = 1, sb_sz = 2, sb_data = [7, 0]\<rparr>]\<rparr>) sample_world" 1
      "\<lparr>sb_len = 1, sb_sz = 2, sb_data = [7, 0]\<rparr>" "[]" 80]
  by (simp add: sample_kapi_def)

lemma tick_ms:
  assumes "service_tick k m ms w = Inr (brk, err, ms', w')" and "\<exists>i \<le> 5. ms = minms * 2 ^ i"
  shows "\<exists>i \<le> 5. ms' = minms * 2 ^ i"
proof -
  obtain i where i: "i \<le> 5" "ms = minms * 2 ^ i" using assms(2) by blast
  have min: "\<exists>i \<le> 5. minms = minms * 2 ^ i" by (intro exI[of _ 0]) simp
  have dbl: "\<exists>j \<le> 5. (if ms < maxms then ms * 2 else ms) = minms * 2 ^ j"
  proof (cases "i = 5")
    case False
    with i show ?thesis by (intro exI[of _ "if ms < maxms then Suc i else i"]) auto
  qed (use i in \<open>auto simp: minms_def maxms_def\<close>)
  from assms(1) show ?thesis using assms(2) min dbl by (cases rule: service_tickE) auto
qed

lemma loop_sleeps:
  "service_loop k m fuel err ms w = Some (Inr (err', w')) \<Longrightarrow> \<exists>i \<le> 5. ms = minms * 2 ^ i \<Longrightarrow>
   \<exists>es. w_trace w' = w_trace w @ es \<and> (\<forall>n. Ev_sleep n \<in> set es \<longrightarrow> (\<exists>i \<le> 5. n = minms * 2 ^ i))"
proof (induction k m fuel err ms w rule: service_loop.induct)
  case (2 k m fuel err ms w)
  show ?case
  proof (cases "k_should_stop k (w_trace w)")
    case False
    with 2(2) obtain brk e ms1 w1 where t: "service_tick k m ms w = Inr (brk, e, ms1, w1)"
      by (auto split: sum.splits)
    from tick_progress[OF t] obtain es where es: "w_trace w1 = w_trace w @ Ev_recvmsg # es"
      "\<forall>n. Ev_sleep n \<in> set es \<longrightarrow> n = ms \<or> n = minms" by blast
    have sl: "\<forall>n. Ev_sleep n \<in> set es \<longrightarrow> (\<exists>i \<le> 5. n = minms * 2 ^ i)"
    proof (intro allI impI)
      fix n assume "Ev_sleep n \<in> set es"
      with es(2) consider "n = ms" | "n = minms * 2 ^ 0" by auto
      then show "\<exists>i \<le> 5. n = minms * 2 ^ i" using 2(3) by cases blast+
    qed
    show ?thesis
    proof (cases brk)
      case True
      with 2(2) False t have "w' = w1" by simp
      with es(1) sl show ?thesis by (intro exI[of _ "Ev_recvmsg # es"]) simp
    next
      case brk: False
      from 2(2) False t brk have l: "service_loop k m fuel e ms1 w1 = Some (Inr (err', w'))" by simp
      have "\<exists>i \<le> 5. ms1 = minms * 2 ^ i" using tick_ms[OF t 2(3)] .
      with 2(1)[OF False t refl refl refl brk l] obtain fs where
        "w_trace w' = w_trace w1 @ fs" "\<forall>n. Ev_sleep n \<in> set fs \<longrightarrow> (\<exists>i \<le> 5. n = minms * 2 ^ i)" by blast
      with es(1) sl show ?thesis by (intro exI[of _ "Ev_recvmsg # es @ fs"]) auto
    qed
  qed (use 2(2) in auto)
qed simp

lemma service_exit_trace: "quiet_ext w (service_exit m w)"
proof -
  have stop: "quiet_ext u (xeth_nb_stop nb m u)" for nb u
    by (simp add: xeth_nb_stop_def quiet_log[of "Ev_nb_unregister nb"])
  have "quiet_ext u (fold (fib_stop m) ns u)" for ns u
  proof (induction ns arbitrary: u)
    case (Cons n ns)
    have "quiet_ext u (fib_stop m n u)" by (rule quiet_log[of "Ev_fib_unregister n"]) (simp_all add: fib_stop_def)
    from quiet_trans[OF this Cons.IH] show ?case by simp
  qed simp
  then have "quiet_ext u (xeth_nb_stop_all_fib m u)" for u by (simp add: xeth_nb_stop_all_fib_def)
  then show ?thesis unfolding service_exit_def Let_def
    by (intro quiet_trans[OF stop quiet_trans[OF _ quiet_trans[OF stop quiet_trans[OF stop quiet_upd_mux]]]])
qed

text \<open>
  The service never sleeps for long: each sleep of a connection lasts 10, 20, 40, 80, 160 or 320
  milliseconds.
\<close>

theorem service_sleeps_bounded:
  assumes "xeth_mux_service_sb k m fuel w = Some (Inr (err, w'))"
  shows "\<exists>es. w_trace w' = w_trace w @ es \<and> {n. Ev_sleep n \<in> set es} \<subseteq> {10, 20, 40, 80, 160, 320}"
proof -
  from assms obtain e u where u: "service_loop k m fuel 0 minms w = Some (Inr (e, u))" "w' = service_exit m u"
    by (auto simp: xeth_mux_service_sb_def bindR_eq_Inr)
  have "\<exists>i \<le> 5. minms = minms * 2 ^ i" by (intro exI[of _ 0]) simp
  from loop_sleeps[OF u(1) this] obtain es where es: "w_trace u = w_trace w @ es"
    "\<forall>n. Ev_sleep n \<in> set es \<longrightarrow> (\<exists>i \<le> 5. n = minms * 2 ^ i)" by blast
  from service_exit_trace[of u m] obtain fs where fs: "w_trace w' = w_trace u @ fs" "\<forall>n. Ev_sleep n \<notin> set fs"
    unfolding u(2) quiet_ext_def by blast
  have "n \<in> {10, 20, 40, 80, 160, 320}" if sl: "Ev_sleep n \<in> set (es @ fs)" for n
  proof -
    from sl es(2) fs(2) obtain i where i: "i \<le> 5" "n = minms * 2 ^ i" by auto
    then have "i \<in> {0, 1, 2, 3, 4, 5}" by auto
    with i(2) show ?thesis by (auto simp: minms_def)
  qed
  with es(1) fs(1) show ?thesis by (intro exI[of _ "es @ fs"]) auto
qed

theorem service_sleeps_bounded_witness:
  "\<exists>w' es. xeth_mux_service_sb (sample_kapi\<lparr>k_should_stop := \<lambda>tr. tr \<noteq> []\<rparr>) 1 2 sample_world = Some (Inr (0, w'))
     \<and> w_trace w' = w_trace sample_world @ es \<and> {n. Ev_sleep n \<in> set es} \<subseteq> {10, 20, 40, 80, 160, 320}"
proof -
  have "\<exists>w'. xeth_mux_service_sb (sample_kapi\<lparr>k_should_stop := \<lambda>tr. tr \<noteq> []\<rparr>) 1 2 sample_world = Some (Inr (0, w'))"
    by (simp add: xeth_mux_service_sb_def service_tick_def xeth_mux_sbrx_def Let_def sample_kapi_def sample_world_def
        inc_counter_def numeral_2_eq_2 xeth_mux_pop_sbtxb_def sample_mux_def)
  then show ?thesis using service_sleeps_bounded by blast
qed

text \<open>
  A daemon's message is not checked to hold the fields of its kind: a carrier message that is nothing
  but a header is accepted, and moves the carrier of the port whose XID is in the bytes that an earlier
  message left in the receive buffer.
\<close>

theorem runt_carrier_message_reads_old_bytes:
  assumes "k_recvmsg k (w_trace w) = (16, raw_msg XETH_MSG_KIND_CARRIER [])"
    and "21 \<le> length (mx_sb_rx (w_mux w m))"
  shows "\<exists>u. w_nd u = w_nd w \<and> w_proxy u = w_proxy w \<and> mx_hls (w_mux u m) = mx_hls (w_mux w m)
    \<and> xeth_mux_sbrx k m w = Inr (16, xeth_sbrx_carrier k m (xeth_msg_carrier_at (mx_sb_rx (w_mux w m))) u)"
proof -
  let ?rx = "mx_sb_rx (w_mux w m)"
  let ?v = "put_bytes 0 (raw_msg XETH_MSG_KIND_CARRIER []) ?rx"
  let ?u = "inc_counter sbrx_msgs m (upd_mux m (\<lambda>p. p\<lparr>mx_sb_rx := ?v\<rparr>) (log_event Ev_recvmsg w))"
  have len: "length (raw_msg XETH_MSG_KIND_CARRIER []) = 16" by (simp add: raw_msg_def)
  have sub: "get_bytes o1 n ?v = get_bytes o1 n (raw_msg XETH_MSG_KIND_CARRIER [])" if "o1 + n \<le> 16" for o1 n
    using that len assms(2) by (intro nth_equalityI) (auto simp: nth_get_bytes nth_put_bytes)
  have "xeth_msg_header_at ?v = xeth_msg_header_at (raw_msg XETH_MSG_KIND_CARRIER [])"
    by (simp add: xeth_msg_header_at_def sub)
  then have hd: "xeth_msg_header_at ?v =
      \<lparr>z64 = 0, z32 = 0, z16 = 0, version = XETH_MSG_VERSION, kind = xeth_msg_kind_code XETH_MSG_KIND_CARRIER\<rparr>"
    by (simp only: raw_msg_header)
  have pay: "xeth_msg_carrier_at ?v = xeth_msg_carrier_at ?rx" by (simp add: xeth_msg_carrier_at_def len)
  have "xeth_sbrx_msg k m ?v 16 ?u = Inr (0, xeth_sbrx_carrier k m (xeth_msg_carrier_at ?rx) ?u)"
    by (simp add: xeth_sbrx_msg_def xeth_sbrx_is_msg_def hd pay Let_def sizeof_xeth_msg_header_def)
  then have "xeth_mux_sbrx k m w = Inr (16, xeth_sbrx_carrier k m (xeth_msg_carrier_at ?rx) ?u)"
    using assms(1) by (simp add: xeth_mux_sbrx_def Let_def len inc_counter_def)
  then show ?thesis by (intro exI[of _ ?u]) (simp add: inc_counter_def)
qed

theorem runt_carrier_message_reads_old_bytes_witness:
  "\<exists>u. w_nd u = w_nd sample_world \<and> xeth_mux_sbrx (sample_kapi\<lparr>k_recvmsg := \<lambda>_. (16, raw_msg XETH_MSG_KIND_CARRIER [])\<rparr>) 1 sample_world
     = Inr (16, xeth_sbrx_carrier (sample_kapi\<lparr>k_recvmsg := \<lambda>_. (16, raw_msg XETH_MSG_KIND_CARRIER [])\<rparr>) 1
          (xeth_msg_carrier_at (mx_sb_rx (w_mux sample_world 1))) u)"
proof -
  have "21 \<le> length (mx_sb_rx (w_mux sample_world 1))" by (simp add: sample_world_def sample_mux_def)
  with runt_carrier_message_reads_old_bytes[of "sample_kapi\<lparr>k_recvmsg := \<lambda>_. (16, raw_msg XETH_MSG_KIND_CARRIER [])\<rparr>" sample_world 1]
  show ?thesis by auto
qed

end
