(* ===== verification/Xeth_Main.thy ===== *)
theory Xeth_Main
  imports Xeth_Service
begin

text \<open>
  The main task of a mux (\<^verbatim>\<open>dkms/xeth_mux.c\<close>): it listens on a local socket, accepts one daemon at a time,
  serves it and drops the carrier of every port when the daemon is gone. As in the service loop, fuel
  bounds the number of rounds.
\<close>

section \<open>The main task\<close>

definition set_flag :: "xeth_mux_flag \<Rightarrow> ndp \<Rightarrow> world \<Rightarrow> world" where
  "set_flag f m w = upd_mux m (\<lambda>p. p\<lparr>mx_flags := xeth_mux_set_flag f (mx_flags p)\<rparr>) w"

definition clear_flag :: "xeth_mux_flag \<Rightarrow> ndp \<Rightarrow> world \<Rightarrow> world" where
  "clear_flag f m w = upd_mux m (\<lambda>p. p\<lparr>mx_flags := xeth_mux_clear_flag f (mx_flags p)\<rparr>) w"

definition xeth_mux_main_exit :: "ndp \<Rightarrow> bool \<Rightarrow> int \<Rightarrow> world \<Rightarrow> int \<times> world" where
  "xeth_mux_main_exit m ln err w =
     (let w = (if ln then clear_flag sb_listen m (log_event Ev_sock_release w) else w)
      in (err, clear_flag main_task m w))"

text \<open>One accepted connection, from the set of the connection flag to the loss of carrier.\<close>

definition main_connection :: "kapi \<Rightarrow> ndp \<Rightarrow> nat \<Rightarrow> world \<Rightarrow> (int \<times> world) outcome option" where
  "main_connection k m fuel w =
     (let w = set_flag sb_connection m w;
          w = xeth_mux_reset_all_link_stats m w
      in case xeth_mux_reset_all_port_ethtool_stats m w of
           Inl e \<Rightarrow> Some (Inl e)
         | Inr w \<Rightarrow>
             map_option (\<lambda>r. bindR r (\<lambda>(err, w).
               Inr (err, xeth_mux_drop_all_port_carrier m
                      (clear_flag sb_connection m (log_event Ev_sock_release w)))))
               (xeth_mux_service_sb k m fuel w))"

fun main_loop :: "kapi \<Rightarrow> ndp \<Rightarrow> nat \<Rightarrow> nat \<Rightarrow> int \<Rightarrow> world \<Rightarrow> (int \<times> world) outcome option" where
  "main_loop k m sfuel 0 err w = None"
| "main_loop k m sfuel (Suc fuel) err w =
     (if err \<noteq> 0 \<or> k_should_stop k (w_trace w) then Some (Inr (err, w))
      else let (err, ops) = k_accept k (w_trace w); w = log_event Ev_accept w in
           if err = - EAGAIN then main_loop k m sfuel fuel 0 (log_event (Ev_sleep 100) w)
           else if err \<noteq> 0 then main_loop k m sfuel fuel err w
           else if \<not> ops then main_loop k m sfuel fuel (- EOPNOTSUPP) w
           else case main_connection k m sfuel w of
                  None \<Rightarrow> None
                | Some (Inl e) \<Rightarrow> Some (Inl e)
                | Some (Inr (err, w)) \<Rightarrow> main_loop k m sfuel fuel err w)"

definition xeth_mux_main :: "kapi \<Rightarrow> ndp \<Rightarrow> nat \<Rightarrow> nat \<Rightarrow> world \<Rightarrow> (int \<times> world) outcome option" where
  "xeth_mux_main k m sfuel fuel w =
     (let w = set_flag main_task m w;
          w = xeth_mux_drop_all_port_carrier m w;
          err = k_sock_create k (w_trace w)
      in if err \<noteq> 0 then Some (Inr (xeth_mux_main_exit m False err w))
         else let err = k_bind k (w_trace w) in
         if err \<noteq> 0 then Some (Inr (xeth_mux_main_exit m True err w))
         else let err = k_listen k (w_trace w) in
         if err \<noteq> 0 then Some (Inr (xeth_mux_main_exit m True err w))
         else map_option (\<lambda>r. bindR r (\<lambda>(err, w). Inr (xeth_mux_main_exit m True err w)))
                (main_loop k m sfuel fuel 0 (set_flag sb_listen m w)))"

section \<open>The state between connections\<close>

text \<open>No daemon is connected and no port has carrier.\<close>

definition mux_idle :: "ndp \<Rightarrow> world \<Rightarrow> bool" where
  "mux_idle m w \<longleftrightarrow> \<not> xeth_mux_has sb_connection (mx_flags (w_mux w m))
     \<and> list_all (\<lambda>q. \<not> nd_carrier (w_nd w (px_nd (w_proxy w q)))) (mx_ports (w_mux w m))"

lemma drop_all_frame:
  "w_mux (xeth_mux_drop_all_port_carrier m w) = w_mux w" "w_proxy (xeth_mux_drop_all_port_carrier m w) = w_proxy w"
  "w_trace (xeth_mux_drop_all_port_carrier m w) = w_trace w" "w_port (xeth_mux_drop_all_port_carrier m w) = w_port w"
proof -
  have "w_mux (fold (\<lambda>q w. netif_carrier False (px_nd (w_proxy w q)) w) qs w) = w_mux w
      \<and> w_proxy (fold (\<lambda>q w. netif_carrier False (px_nd (w_proxy w q)) w) qs w) = w_proxy w
      \<and> w_trace (fold (\<lambda>q w. netif_carrier False (px_nd (w_proxy w q)) w) qs w) = w_trace w
      \<and> w_port (fold (\<lambda>q w. netif_carrier False (px_nd (w_proxy w q)) w) qs w) = w_port w" for qs
    by (induction qs arbitrary: w) (simp_all add: netif_carrier_def)
  then show "w_mux (xeth_mux_drop_all_port_carrier m w) = w_mux w" "w_proxy (xeth_mux_drop_all_port_carrier m w) = w_proxy w"
    "w_trace (xeth_mux_drop_all_port_carrier m w) = w_trace w" "w_port (xeth_mux_drop_all_port_carrier m w) = w_port w"
    by (simp_all add: xeth_mux_drop_all_port_carrier_def)
qed

lemma drop_all_idle:
  "\<not> xeth_mux_has sb_connection (mx_flags (w_mux w m)) \<Longrightarrow> mux_idle m (xeth_mux_drop_all_port_carrier m w)"
proof -
  have "\<not> nd_carrier (w_nd (xeth_mux_drop_all_port_carrier m w) (px_nd (w_proxy w q)))"
    if "q \<in> set (mx_ports (w_mux w m))" for q
    using that by (auto simp: xeth_mux_drop_all_port_carrier_def drop_carrier_loop)
  then show "\<not> xeth_mux_has sb_connection (mx_flags (w_mux w m)) \<Longrightarrow> mux_idle m (xeth_mux_drop_all_port_carrier m w)"
    by (simp add: mux_idle_def drop_all_frame list_all_iff)
qed

lemma idle_frame:
  "mux_idle m (w\<lparr>w_trace := tr\<rparr>) = mux_idle m w"
  "f \<noteq> sb_connection \<Longrightarrow> mux_idle m (set_flag f m w) = mux_idle m w"
  "mux_idle m w \<Longrightarrow> mux_idle m (clear_flag f m w)"
  by (auto simp: mux_idle_def set_flag_def clear_flag_def)

section \<open>The main task ends\<close>

lemma reset_link_trace: "w_trace (xeth_mux_reset_all_link_stats m w) = w_trace w"
proof -
  have "w_trace (fold xeth_proxy_reset_link_stats qs w) = w_trace w" for qs w
    by (induction qs arbitrary: w) (simp_all add: xeth_proxy_reset_link_stats_def)
  then show ?thesis by (simp add: xeth_mux_reset_all_link_stats_def Let_def)
qed

lemma reset_link_port: "w_port (xeth_mux_reset_all_link_stats m w) = w_port w"
proof -
  have "w_port (fold xeth_proxy_reset_link_stats qs w) = w_port w" for qs w
    by (induction qs arbitrary: w) (simp_all add: xeth_proxy_reset_link_stats_def)
  then show ?thesis by (simp add: xeth_mux_reset_all_link_stats_def Let_def)
qed

lemma reset_ethtool_trace: "xeth_mux_reset_all_port_ethtool_stats m w = Inr w' \<Longrightarrow> w_trace w' = w_trace w"
  unfolding xeth_mux_reset_all_port_ethtool_stats_def
  by (rule foldR_invariant[where I = "\<lambda>u. w_trace u = w_trace w"])
    (auto simp: xeth_port_reset_ethtool_stats_def upd_ext_def bindR_eq_Inr split: if_splits)

lemma reset_ethtool_total:
  assumes "\<forall>q. pp_ext (w_port w q) \<noteq> None"
  shows "\<exists>w'. xeth_mux_reset_all_port_ethtool_stats m w = Inr w'"
proof -
  let ?I = "\<lambda>w. \<forall>q. pp_ext (w_port w q) \<noteq> None"
  have "\<exists>t. xeth_port_reset_ethtool_stats nd s = Inr t \<and> ?I t" if "?I s" for nd s
  proof -
    from that obtain e where "pp_ext (w_port s nd) = Some e" by blast
    with that show ?thesis by (simp add: xeth_port_reset_ethtool_stats_def upd_ext_def port_ext_def)
  qed
  with assms have "\<exists>t. foldR (\<lambda>q w. xeth_port_reset_ethtool_stats (px_nd (w_proxy w q)) w) (mx_ports (w_mux w m)) w = Inr t \<and> ?I t"
    by (intro foldR_total) blast+
  then show ?thesis unfolding xeth_mux_reset_all_port_ethtool_stats_def by blast
qed

lemma service_sb_trace:
  assumes "xeth_mux_service_sb k m fuel w = Some (Inr (err, w'))"
  shows "length (w_trace w) \<le> length (w_trace w')"
proof -
  from assms obtain e u where u: "service_loop k m fuel 0 minms w = Some (Inr (e, u))" "w' = service_exit m u"
    by (auto simp: xeth_mux_service_sb_def bindR_eq_Inr)
  have "\<exists>i \<le> 5. minms = minms * 2 ^ i" by (intro exI[of _ 0]) simp
  from loop_sleeps[OF u(1) this] service_exit_trace[of u m] show ?thesis
    unfolding u(2) quiet_ext_def by auto
qed

lemma connection_result:
  assumes "main_connection k m fuel w = Some (Inr (err, w'))"
  shows "mux_idle m w'" and "length (w_trace w) \<le> length (w_trace w')"
proof -
  let ?u = "xeth_mux_reset_all_link_stats m (set_flag sb_connection m w)"
  from assms obtain v x where v: "xeth_mux_reset_all_port_ethtool_stats m ?u = Inr v"
    and x: "xeth_mux_service_sb k m fuel v = Some (Inr (err, x))"
    and w': "w' = xeth_mux_drop_all_port_carrier m (clear_flag sb_connection m (log_event Ev_sock_release x))"
    by (auto simp: main_connection_def Let_def bindR_eq_Inr split: sum.splits)
  show "mux_idle m w'" unfolding w' by (rule drop_all_idle) (simp add: clear_flag_def)
  from reset_ethtool_trace[OF v] service_sb_trace[OF x] show "length (w_trace w) \<le> length (w_trace w')"
    by (simp add: w' drop_all_frame clear_flag_def reset_link_trace set_flag_def)
qed

lemma connection_ends:
  assumes "\<forall>tr. N \<le> length tr \<longrightarrow> k_should_stop k tr" and "N < fuel"
  shows "main_connection k m fuel w \<noteq> None"
  using service_loop_ends[OF assms(1), of _ fuel m 0 minms] assms(2)
  by (auto simp: main_connection_def xeth_mux_service_sb_def Let_def split: sum.split)

lemma main_loop_ends:
  assumes "\<forall>tr. N \<le> length tr \<longrightarrow> k_should_stop k tr" and "N < sfuel"
  shows "(if err \<noteq> 0 then 1 else 2 + (N - length (w_trace w))) \<le> fuel \<Longrightarrow> main_loop k m sfuel fuel err w \<noteq> None"
proof (induction fuel arbitrary: err w)
  case (Suc fuel)
  show ?case
  proof (cases "err \<noteq> 0 \<or> k_should_stop k (w_trace w)")
    case False
    with assms(1) have lt: "length (w_trace w) < N" by (auto simp: not_le[symmetric])
    obtain e ops where acc: "k_accept k (w_trace w) = (e, ops)" by (cases "k_accept k (w_trace w)")
    have step: "main_loop k m sfuel fuel e' w' \<noteq> None" if "length (w_trace w) < length (w_trace w')" for e' w'
      using that Suc.prems False lt by (intro Suc.IH) (auto split: if_splits)
    show ?thesis
    proof (cases "main_connection k m sfuel (log_event Ev_accept w)")
      case None
      with connection_ends[OF assms, of m "log_event Ev_accept w"] show ?thesis by blast
    next
      case (Some r)
      show ?thesis
        using Some False acc step connection_result(2)[of k m sfuel "log_event Ev_accept w"]
        by (auto simp: Let_def split: sum.split)
    qed
  qed auto
qed (auto split: if_splits)

lemma main_loop_idle:
  "main_loop k m sfuel fuel err w = Some (Inr (err', w')) \<Longrightarrow> mux_idle m w \<Longrightarrow> mux_idle m w'"
proof (induction k m sfuel fuel err w rule: main_loop.induct)
  case (2 k m sfuel fuel err w)
  obtain e ops where acc: "k_accept k (w_trace w) = (e, ops)" by (cases "k_accept k (w_trace w)")
  note ih = 2(1-4)[OF _ acc[symmetric] refl refl]
  show ?case
    using 2(5,6) acc ih connection_result(1)[of k m sfuel "log_event Ev_accept w"]
    by (auto simp: Let_def idle_frame split: if_splits option.splits sum.splits)
qed simp

section \<open>Properties\<close>



text \<open>
  A single message that is shorter than a header ends the main task for good: the error of the
  receive becomes the error of the accept loop, and the task returns it, so that no daemon can connect
  again.
\<close>

theorem runt_message_ends_main:
  assumes "\<forall>tr. \<not> k_should_stop k tr" and "\<forall>tr. k_sock_create k tr = 0" and "\<forall>tr. k_bind k tr = 0"
    and "\<forall>tr. k_listen k tr = 0" and "\<forall>tr. k_accept k tr = (0, True)"
    and "\<forall>tr. k_recvmsg k tr = (n, bytes)" and "0 < n" and "n < 16"
    and "\<forall>q. pp_ext (w_port w q) \<noteq> None"
  shows "\<exists>w'. xeth_mux_main k m 1 2 w = Some (Inr (- EINVAL, w'))
    \<and> \<not> xeth_mux_has main_task (mx_flags (w_mux w' m)) \<and> \<not> xeth_mux_has sb_listen (mx_flags (w_mux w' m))"
proof -
  have serve: "\<exists>u. xeth_mux_service_sb k m 1 v = Some (Inr (- EINVAL, u))" for v
  proof -
    from assms(7,8) have "nat n < 16" by linarith
    then have "\<exists>u. xeth_mux_sbrx k m v' = Inr (- EINVAL, u)" for v'
      using assms(6-8) by (simp add: xeth_mux_sbrx_def Let_def xeth_sbrx_msg_def sizeof_xeth_msg_header_def)
    then obtain u where "xeth_mux_sbrx k m (inc_counter sbrx_ticks m v) = Inr (- EINVAL, u)" by blast
    then have "service_tick k m minms v = Inr (True, - EINVAL, minms, u)" by (simp add: service_tick_def)
    then show ?thesis using assms(1) by (auto simp: xeth_mux_service_sb_def)
  qed
  have reset: "\<exists>u. xeth_mux_reset_all_port_ethtool_stats m v = Inr u" if "w_port v = w_port w" for v
    using reset_ethtool_total[of v m] assms(9) that by simp
  have conn: "\<exists>u. main_connection k m 1 v = Some (Inr (- EINVAL, u))" if v: "w_port v = w_port w" for v
  proof -
    obtain x where x: "xeth_mux_reset_all_port_ethtool_stats m (xeth_mux_reset_all_link_stats m (set_flag sb_connection m v)) = Inr x"
      using reset[of "xeth_mux_reset_all_link_stats m (set_flag sb_connection m v)"] v
      by (auto simp: reset_link_port set_flag_def)
    obtain y where "xeth_mux_service_sb k m 1 x = Some (Inr (- EINVAL, y))" using serve by blast
    with x show ?thesis by (simp add: main_connection_def Let_def)
  qed
  let ?w = "set_flag sb_listen m (xeth_mux_drop_all_port_carrier m (set_flag main_task m w))"
  obtain u where "main_connection k m 1 (log_event Ev_accept ?w) = Some (Inr (- EINVAL, u))"
    using conn[of "log_event Ev_accept ?w"] by (auto simp: set_flag_def drop_all_frame)
  then have "main_loop k m 1 2 0 ?w = Some (Inr (- EINVAL, u))"
    using assms(1,5) by (simp add: numeral_2_eq_2)
  with assms(2-4) show ?thesis
    by (auto simp: xeth_mux_main_def Let_def xeth_mux_main_exit_def clear_flag_def)
qed

theorem runt_message_ends_main_witness:
  "\<exists>w'. xeth_mux_main (sample_kapi\<lparr>k_should_stop := \<lambda>_. False, k_recvmsg := \<lambda>_. (1, [0])\<rparr>) 1 1 2 sample_world
      = Some (Inr (- EINVAL, w'))
    \<and> \<not> xeth_mux_has main_task (mx_flags (w_mux w' 1)) \<and> \<not> xeth_mux_has sb_listen (mx_flags (w_mux w' 1))"
  by (rule runt_message_ends_main[where n = 1 and bytes = "[0]"]) (simp_all add: sample_kapi_def sample_world_def sample_port_def)

end
