(* ===== verification/Xeth_Upper.thy ===== *)
theory Xeth_Upper
  imports Xeth_Sbrx
begin

text \<open>
  The members of a lag and of a bridge (\<^verbatim>\<open>dkms/xeth_lag.c\<close>, \<^verbatim>\<open>dkms/xeth_bridge.c\<close>): which devices may join,
  joining and leaving, and the release of all members when the upper device goes. The two components
  keep the same contract towards the network core, stated as the locale \<open>membership\<close> and interpreted
  for both. The callbacks that \<^verbatim>\<open>netdev_update_features\<close> may make are not followed: the call is logged.
\<close>

section \<open>Lags\<close>

definition xeth_lag_init :: "kapi \<Rightarrow> ndp \<Rightarrow> world \<Rightarrow> int \<times> world" where
  "xeth_lag_init k lag w =
     (let (err, w) = xeth_proxy_init k lag w in
      if err \<noteq> 0 then (err, w)
      else (0, upd_nd lag (\<lambda>d. d\<lparr>nd_features := nd_features d OR k_NETIF_F_NETNS_LOCAL k,
                                 nd_flags := nd_flags d OR IFF_MASTER\<rparr>) w))"

definition xeth_lag_del_lower :: "kapi \<Rightarrow> ndp \<Rightarrow> ndp \<Rightarrow> world \<Rightarrow> (int \<times> world) outcome" where
  "xeth_lag_del_lower k lag nd w =
     (let w = upd_nd nd (\<lambda>d. d\<lparr>nd_priv_flags := nd_priv_flags d AND NOT IFF_TEAM_PORT\<rparr>) w;
          w = netdev_upper_dev_unlink nd lag w;
          w = log_event (Ev_update_features lag) w
      in bindR (proxy_mux lag w) (\<lambda>m.
         bindR (ignore_err (xeth_sbtx_change_upper k m (px_xid (w_proxy w lag)) (px_xid (w_proxy w nd)) False w)) (\<lambda>w.
         bindR (xeth_proxy_dump_ifa k nd w) (\<lambda>w.
         bindR (xeth_proxy_dump_ifa6 k nd w) (\<lambda>w. Inr (0, w))))))"

definition xeth_lag_uninit :: "kapi \<Rightarrow> ndp \<Rightarrow> world \<Rightarrow> world outcome" where
  "xeth_lag_uninit k lag w =
     bindR (foldR (\<lambda>lower w. ignore_err (xeth_lag_del_lower k lag (px_nd (w_proxy w lower)) w))
              (nd_lowers (w_nd w lag)) w)
       (xeth_proxy_uninit k lag)"

definition xeth_lag_n_lowers :: "ndp \<Rightarrow> world \<Rightarrow> nat" where
  "xeth_lag_n_lowers lag w = length (nd_lowers (w_nd w lag))"

definition xeth_lag_ok_lower :: "ndp \<Rightarrow> world \<Rightarrow> int" where
  "xeth_lag_ok_lower nd w =
     (if \<not> is_xeth_port (w_nd w nd) then - EINVAL
      else if nd_flags (w_nd w nd) AND IFF_SLAVE \<noteq> 0 then - EBUSY
      else if nd_priv_flags (w_nd w nd) AND IFF_TEAM_PORT \<noteq> 0 then - EBUSY
      else if nd_master (w_nd w nd) \<noteq> None then - EBUSY
      else 0)"

definition xeth_lag_add_lower :: "kapi \<Rightarrow> ndp \<Rightarrow> ndp \<Rightarrow> world \<Rightarrow> (int \<times> world) outcome" where
  "xeth_lag_add_lower k lag nd w =
     (let err = xeth_lag_ok_lower nd w in
      if err \<noteq> 0 then Inr (err, w)
      else if xeth_lag_n_lowers lag w \<ge> 8 then Inr (- ERANGE, w)
      else let (err, w) = netdev_master_upper_dev_link k nd lag w in
      if err \<noteq> 0 then Inr (err, w)
      else let w = upd_nd nd (\<lambda>d. d\<lparr>nd_flags := nd_flags d OR IFF_TEAM_PORT\<rparr>) w in
           bindR (proxy_mux lag w) (\<lambda>m.
           bindR (ignore_err (xeth_sbtx_change_upper k m (px_xid (w_proxy w lag)) (px_xid (w_proxy w nd)) True w)) (\<lambda>w.
           Inr (0, w))))"

definition xeth_lag_open :: "kapi \<Rightarrow> ndp \<Rightarrow> world \<Rightarrow> (int \<times> world) outcome" where
  "xeth_lag_open k nd w = xeth_proxy_open k nd (netif_carrier True nd w)"

definition xeth_lag_stop :: "kapi \<Rightarrow> ndp \<Rightarrow> world \<Rightarrow> (int \<times> world) outcome" where
  "xeth_lag_stop k nd w = xeth_proxy_stop k nd (netif_carrier False nd w)"

section \<open>Bridges\<close>

definition xeth_bridge_init :: "kapi \<Rightarrow> ndp \<Rightarrow> world \<Rightarrow> int \<times> world" where
  "xeth_bridge_init k br w =
     (let (err, w) = xeth_proxy_init k br w in
      if err \<noteq> 0 then (err, w)
      else (0, upd_nd br (\<lambda>d. d\<lparr>nd_features := nd_features d OR k_NETIF_F_NETNS_LOCAL k,
                                nd_flags := nd_flags d OR IFF_MASTER\<rparr>) w))"

definition xeth_bridge_del_lower :: "kapi \<Rightarrow> ndp \<Rightarrow> ndp \<Rightarrow> world \<Rightarrow> (int \<times> world) outcome" where
  "xeth_bridge_del_lower k br nd w =
     (let w = upd_nd nd (\<lambda>d. d\<lparr>nd_flags := nd_flags d AND NOT IFF_SLAVE\<rparr>) w;
          w = netdev_upper_dev_unlink nd br w;
          w = log_event (Ev_update_features br) w
      in bindR (proxy_mux br w) (\<lambda>m.
         bindR (ignore_err (xeth_sbtx_change_upper k m (px_xid (w_proxy w br)) (px_xid (w_proxy w nd)) False w)) (\<lambda>w.
         bindR (xeth_proxy_dump_ifa k nd w) (\<lambda>w.
         bindR (xeth_proxy_dump_ifa6 k nd w) (\<lambda>w. Inr (0, w))))))"

definition xeth_bridge_uninit :: "kapi \<Rightarrow> ndp \<Rightarrow> world \<Rightarrow> world outcome" where
  "xeth_bridge_uninit k br w =
     bindR (foldR (\<lambda>lower w. ignore_err (xeth_bridge_del_lower k br (px_nd (w_proxy w lower)) w))
              (nd_lowers (w_nd w br)) w)
       (xeth_proxy_uninit k br)"

definition xeth_bridge_ok_lower :: "ndp \<Rightarrow> world \<Rightarrow> int" where
  "xeth_bridge_ok_lower nd w =
     (if \<not> is_xeth_port (w_nd w nd) \<and> \<not> is_xeth_vlan (w_nd w nd) \<and> \<not> is_xeth_lag (w_nd w nd) then - EINVAL
      else if nd_flags (w_nd w nd) AND IFF_SLAVE \<noteq> 0 then - EBUSY
      else if nd_priv_flags (w_nd w nd) AND IFF_TEAM_PORT \<noteq> 0 then - EBUSY
      else if nd_master (w_nd w nd) \<noteq> None then - EBUSY
      else 0)"

definition xeth_bridge_add_lower :: "kapi \<Rightarrow> ndp \<Rightarrow> ndp \<Rightarrow> world \<Rightarrow> (int \<times> world) outcome" where
  "xeth_bridge_add_lower k br nd w =
     (let err = xeth_bridge_ok_lower nd w in
      if err \<noteq> 0 then Inr (err, w)
      else let (err, w) = netdev_master_upper_dev_link k nd br w in
      if err \<noteq> 0 then Inr (err, w)
      else let w = upd_nd nd (\<lambda>d. d\<lparr>nd_flags := nd_flags d OR IFF_SLAVE\<rparr>) w in
           bindR (proxy_mux br w) (\<lambda>m.
           bindR (ignore_err (xeth_sbtx_change_upper k m (px_xid (w_proxy w br)) (px_xid (w_proxy w nd)) True w)) (\<lambda>w.
           Inr (0, w))))"

definition xeth_bridge_open :: "kapi \<Rightarrow> ndp \<Rightarrow> world \<Rightarrow> (int \<times> world) outcome" where
  "xeth_bridge_open k nd w = xeth_proxy_open k nd (netif_carrier True nd w)"

definition xeth_bridge_stop :: "kapi \<Rightarrow> ndp \<Rightarrow> world \<Rightarrow> (int \<times> world) outcome" where
  "xeth_bridge_stop k nd w = xeth_proxy_stop k nd (netif_carrier False nd w)"

section \<open>What the reports leave alone\<close>

lemma sb_tx_upd_kin [simp]: "mx_sb_tx (upd_kin kd f p) = mx_sb_tx p"
  by (cases kd) simp_all

lemma ifinfo_frame:
  assumes "xeth_sbtx_ifinfo k q f rs w = Inr (r, w')"
  shows "w_nd w' = w_nd w \<and> w_proxy w' = w_proxy w"
  using assms ifinfo_ext[of k q f rs w r w'] sb_ext_frame
  by (cases "px_mux (w_proxy w q)") (auto simp: xeth_sbtx_ifinfo_def Let_def)

lemma proxy_uninit_nd: "xeth_proxy_uninit k u w = Inr w' \<Longrightarrow> w_nd w' = w_nd w"
  by (auto simp: xeth_proxy_uninit_def bindR_eq_Inr ignore_err_Inr xeth_mux_del_proxy_def Let_def
      split: option.splits if_splits dest!: ifinfo_frame)

section \<open>The contract of an upper device\<close>

text \<open>
  Both ends of a link agree: a device is in the list of lowers of its master, and of no other device,
  and no list has a device twice.
\<close>

definition link_inv :: "world \<Rightarrow> bool" where
  "link_inv w \<longleftrightarrow> (\<forall>u. distinct (nd_lowers (w_nd w u)) \<and> set (nd_lowers (w_nd w u)) = {l. nd_master (w_nd w l) = Some u})"

lemma link_invD:
  "link_inv w \<Longrightarrow> distinct (nd_lowers (w_nd w u))"
  "link_inv w \<Longrightarrow> l \<in> set (nd_lowers (w_nd w u)) \<longleftrightarrow> nd_master (w_nd w l) = Some u"
  by (auto simp: link_inv_def)

text \<open>What an operation may change of the links of the devices.\<close>

definition links_upd :: "world \<Rightarrow> world \<Rightarrow> ndp \<Rightarrow> ndp list \<Rightarrow> ndp \<Rightarrow> ndp option \<Rightarrow> bool" where
  "links_upd w w' u ls nd mst \<longleftrightarrow>
     (\<forall>n. nd_lowers (w_nd w' n) = (if n = u then ls else nd_lowers (w_nd w n))
        \<and> nd_master (w_nd w' n) = (if n = nd then mst else nd_master (w_nd w n)))"

text \<open>
  The contract: a device that has a master is refused and nothing changes; joining appends the device
  to the list of lowers and makes the upper its master, or changes no link; leaving takes it out again.
\<close>

locale membership =
  fixes ok_lower :: "ndp \<Rightarrow> world \<Rightarrow> int"
    and add_lower :: "kapi \<Rightarrow> ndp \<Rightarrow> ndp \<Rightarrow> world \<Rightarrow> (int \<times> world) outcome"
    and del_lower :: "kapi \<Rightarrow> ndp \<Rightarrow> ndp \<Rightarrow> world \<Rightarrow> (int \<times> world) outcome"
  assumes refused: "ok_lower nd w \<noteq> 0 \<Longrightarrow> add_lower k u nd w = Inr (ok_lower nd w, w)"
    and busy: "nd_master (w_nd w nd) \<noteq> None \<Longrightarrow> ok_lower nd w \<noteq> 0"
    and joined: "add_lower k u nd w = Inr (0, w') \<Longrightarrow> ok_lower nd w = 0 \<Longrightarrow>
      links_upd w w' u (nd_lowers (w_nd w u) @ [nd]) nd (Some u) \<and> w_proxy w' = w_proxy w"
    and failed: "add_lower k u nd w = Inr (e, w') \<Longrightarrow> e \<noteq> 0 \<Longrightarrow> w_nd w' = w_nd w \<and> w_proxy w' = w_proxy w"
    and left: "del_lower k u nd w = Inr (e, w') \<Longrightarrow> e = 0
      \<and> links_upd w w' u (removeAll nd (nd_lowers (w_nd w u))) nd None \<and> w_proxy w' = w_proxy w"
begin

lemma add_keeps_links:
  assumes "link_inv w" and "add_lower k u nd w = Inr (e, w')"
  shows "link_inv w'"
proof (cases "e = 0")
  case True
  show ?thesis
  proof (cases "ok_lower nd w = 0")
    case ok: True
    with busy have free: "nd_master (w_nd w nd) = None" by blast
    from joined[of k u nd w w'] assms(2) ok True have "links_upd w w' u (nd_lowers (w_nd w u) @ [nd]) nd (Some u)" by simp
    with assms(1) free show ?thesis by (auto simp: link_inv_def links_upd_def)
  next
    case False
    with refused[of nd w k u] assms True show ?thesis by simp
  qed
next
  case False
  with failed[OF assms(2)] assms(1) show ?thesis by (simp add: link_inv_def)
qed

lemma del_keeps_links:
  assumes "link_inv w" and "nd_master (w_nd w nd) = Some u" and "del_lower k u nd w = Inr (e, w')"
  shows "link_inv w'"
proof -
  from left[OF assms(3)] have "links_upd w w' u (removeAll nd (nd_lowers (w_nd w u))) nd None" by simp
  with assms(1,2) show ?thesis by (auto simp: link_inv_def links_upd_def distinct_removeAll)
qed

lemma del_all_members:
  "foldR (\<lambda>l w. ignore_err (del_lower k u (px_nd (w_proxy w l)) w)) ls w = Inr w' \<Longrightarrow>
   link_inv w \<Longrightarrow> nd_lowers (w_nd w u) = ls \<Longrightarrow> \<forall>l. px_nd (w_proxy w l) = l \<Longrightarrow>
   link_inv w' \<and> nd_lowers (w_nd w' u) = [] \<and> w_proxy w' = w_proxy w
   \<and> (\<forall>n. n \<noteq> u \<longrightarrow> nd_lowers (w_nd w' n) = nd_lowers (w_nd w n))"
proof (induction ls arbitrary: w)
  case (Cons l ls)
  from Cons.prems(1,4) obtain e v where v: "del_lower k u l w = Inr (e, v)"
    "foldR (\<lambda>l w. ignore_err (del_lower k u (px_nd (w_proxy w l)) w)) ls v = Inr w'"
    by (auto simp: bindR_eq_Inr ignore_err_Inr)
  from left[OF v(1)] have d: "links_upd w v u (removeAll l (nd_lowers (w_nd w u))) l None" "w_proxy v = w_proxy w"
    by simp_all
  from Cons.prems(2,3) have m: "nd_master (w_nd w l) = Some u" "l \<notin> set ls"
    using link_invD(1)[OF Cons.prems(2), of u] link_invD(2)[OF Cons.prems(2), of l u] by auto
  from d(1) Cons.prems(3) m(2) have ls: "nd_lowers (w_nd v u) = ls"
    by (simp add: links_upd_def)
  have px: "\<forall>l. px_nd (w_proxy v l) = l" using d(2) Cons.prems(4) by simp
  from Cons.IH[OF v(2) del_keeps_links[OF Cons.prems(2) m(1) v(1)] ls px] d show ?case
    by (simp add: links_upd_def)
qed simp

lemma all_members_released:
  assumes "bindR (foldR (\<lambda>l w. ignore_err (del_lower k u (px_nd (w_proxy w l)) w)) (nd_lowers (w_nd w u)) w)
      (xeth_proxy_uninit k u) = Inr w'"
    and "link_inv w" and "\<forall>l. px_nd (w_proxy w l) = l"
  shows "nd_lowers (w_nd w' u) = [] \<and> (\<forall>l. nd_master (w_nd w' l) \<noteq> Some u)
    \<and> (\<forall>n. n \<noteq> u \<longrightarrow> nd_lowers (w_nd w' n) = nd_lowers (w_nd w n))"
proof -
  from assms(1) obtain v where
    v: "foldR (\<lambda>l w. ignore_err (del_lower k u (px_nd (w_proxy w l)) w)) (nd_lowers (w_nd w u)) w = Inr v"
    and w': "xeth_proxy_uninit k u v = Inr w'"
    by (auto simp only: bindR_eq_Inr)
  from del_all_members[OF v assms(2) refl assms(3)] link_invD(2)[of v _ u] proxy_uninit_nd[OF w'] show ?thesis
    by simp
qed

end

section \<open>Both kinds of upper device keep the contract\<close>

lemma send_frame:
  "ignore_err (xeth_sbtx_change_upper k m u l b w) = Inr w' \<Longrightarrow> w_nd w' = w_nd w \<and> w_proxy w' = w_proxy w"
  by (auto simp: ignore_err_Inr dest!: sends_ext(2) sb_ext_frame)

lemma dump_ifa_frame:
  "xeth_proxy_dump_ifa k q w = Inr w' \<Longrightarrow> w_nd w' = w_nd w \<and> w_proxy w' = w_proxy w"
  "xeth_proxy_dump_ifa6 k q w = Inr w' \<Longrightarrow> w_nd w' = w_nd w \<and> w_proxy w' = w_proxy w"
proof -
  assume *: "xeth_proxy_dump_ifa k q w = Inr w'"
  show "w_nd w' = w_nd w \<and> w_proxy w' = w_proxy w"
  proof (cases "px_mux (w_proxy w q)")
    case (Some m)
    from sb_ext_frame[OF dump_ifa_ext(1)[OF * Some]] show ?thesis by simp
  next
    case None
    with * show ?thesis by (cases "nd_ifas (w_nd w (px_nd (w_proxy w q)))"; cases "the (nd_ifas (w_nd w (px_nd (w_proxy w q))))")
        (auto simp: xeth_proxy_dump_ifa_def proxy_mux_def)
  qed
next
  assume *: "xeth_proxy_dump_ifa6 k q w = Inr w'"
  show "w_nd w' = w_nd w \<and> w_proxy w' = w_proxy w"
  proof (cases "px_mux (w_proxy w q)")
    case (Some m)
    from sb_ext_frame[OF dump_ifa_ext(2)[OF * Some]] show ?thesis by simp
  next
    case None
    with * show ?thesis by (cases "nd_ifa6s (w_nd w (px_nd (w_proxy w q)))"; cases "the (nd_ifa6s (w_nd w (px_nd (w_proxy w q))))")
        (auto simp: xeth_proxy_dump_ifa6_def proxy_mux_def)
  qed
qed

lemma unlink_links:
  assumes "\<And>d. nd_lowers (f d) = nd_lowers d" "\<And>d. nd_master (f d) = nd_master d"
    and "w_nd w' = w_nd (netdev_upper_dev_unlink nd u (upd_nd nd f w))"
  shows "links_upd w w' u (removeAll nd (nd_lowers (w_nd w u))) nd None"
  using assms by (auto simp: links_upd_def netdev_upper_dev_unlink_def)

lemma link_links:
  assumes "netdev_master_upper_dev_link k nd u w = (e, w')"
  shows "w_proxy w' = w_proxy w" and "e \<noteq> 0 \<Longrightarrow> w_nd w' = w_nd w"
    and "e = 0 \<Longrightarrow> links_upd w w' u (nd_lowers (w_nd w u) @ [nd]) nd (Some u)"
  using assms by (auto simp: netdev_master_upper_dev_link_def Let_def links_upd_def split: if_splits)

lemma links_upd_frame:
  assumes "links_upd w v u ls nd mst" and "w_nd w' = w_nd v"
  shows "links_upd w w' u ls nd mst"
  using assms by (simp add: links_upd_def)

lemma leave_result:
  assumes "bindR (proxy_mux u v) (\<lambda>m.
      bindR (ignore_err (xeth_sbtx_change_upper k m x y False v)) (\<lambda>w.
      bindR (xeth_proxy_dump_ifa k nd w) (\<lambda>w. bindR (xeth_proxy_dump_ifa6 k nd w) (\<lambda>w. Inr (0, w))))) = Inr (e, w')"
  shows "e = 0 \<and> w_nd w' = w_nd v \<and> w_proxy w' = w_proxy v"
  using assms by (auto simp: bindR_eq_Inr dest!: send_frame dump_ifa_frame)

lemma lag_membership: "membership xeth_lag_ok_lower xeth_lag_add_lower xeth_lag_del_lower"
proof
  show "nd_master (w_nd w nd) \<noteq> None \<Longrightarrow> xeth_lag_ok_lower nd w \<noteq> 0" for w nd by (simp add: xeth_lag_ok_lower_def)
  show "xeth_lag_ok_lower nd w \<noteq> 0 \<Longrightarrow> xeth_lag_add_lower k u nd w = Inr (xeth_lag_ok_lower nd w, w)" for k u nd w
    by (simp add: xeth_lag_add_lower_def)
next
  fix k u nd w e w'
  assume d: "xeth_lag_del_lower k u nd w = Inr (e, w')"
  let ?v = "log_event (Ev_update_features u) (netdev_upper_dev_unlink nd u
              (upd_nd nd (\<lambda>d. d\<lparr>nd_priv_flags := nd_priv_flags d AND NOT IFF_TEAM_PORT\<rparr>) w))"
  from leave_result[OF d[unfolded xeth_lag_del_lower_def Let_def]]
  have "e = 0" "w_nd w' = w_nd ?v" "w_proxy w' = w_proxy ?v" by blast+
  with unlink_links[of "\<lambda>d. d\<lparr>nd_priv_flags := nd_priv_flags d AND NOT IFF_TEAM_PORT\<rparr>" w' nd u w]
  show "e = 0 \<and> links_upd w w' u (removeAll nd (nd_lowers (w_nd w u))) nd None \<and> w_proxy w' = w_proxy w"
    by (simp add: netdev_upper_dev_unlink_def)
next
  fix k u nd w e w'
  assume a: "xeth_lag_add_lower k u nd w = Inr (e, w')" "e \<noteq> 0"
  then show "w_nd w' = w_nd w \<and> w_proxy w' = w_proxy w"
    by (auto simp: xeth_lag_add_lower_def Let_def bindR_eq_Inr link_links split: if_splits prod.splits)
next
  fix k u nd w w'
  assume a: "xeth_lag_add_lower k u nd w = Inr (0, w')" "xeth_lag_ok_lower nd w = 0"
  obtain e v where v: "netdev_master_upper_dev_link k nd u w = (e, v)" by (cases "netdev_master_upper_dev_link k nd u w")
  let ?v = "upd_nd nd (\<lambda>d. d\<lparr>nd_flags := nd_flags d OR IFF_TEAM_PORT\<rparr>) v"
  from a v have e: "e = 0" and w': "w_nd w' = w_nd ?v" "w_proxy w' = w_proxy ?v"
    by (auto simp: xeth_lag_add_lower_def Let_def bindR_eq_Inr split: if_splits dest!: send_frame)
  from link_links(3)[OF v e] have "links_upd w ?v u (nd_lowers (w_nd w u) @ [nd]) nd (Some u)"
    by (simp add: links_upd_def)
  from links_upd_frame[OF this w'(1)] w'(2) link_links(1)[OF v]
  show "links_upd w w' u (nd_lowers (w_nd w u) @ [nd]) nd (Some u) \<and> w_proxy w' = w_proxy w" by simp
qed

lemma bridge_membership: "membership xeth_bridge_ok_lower xeth_bridge_add_lower xeth_bridge_del_lower"
proof
  show "nd_master (w_nd w nd) \<noteq> None \<Longrightarrow> xeth_bridge_ok_lower nd w \<noteq> 0" for w nd by (simp add: xeth_bridge_ok_lower_def)
  show "xeth_bridge_ok_lower nd w \<noteq> 0 \<Longrightarrow> xeth_bridge_add_lower k u nd w = Inr (xeth_bridge_ok_lower nd w, w)" for k u nd w
    by (simp add: xeth_bridge_add_lower_def)
next
  fix k u nd w e w'
  assume d: "xeth_bridge_del_lower k u nd w = Inr (e, w')"
  let ?v = "log_event (Ev_update_features u) (netdev_upper_dev_unlink nd u
              (upd_nd nd (\<lambda>d. d\<lparr>nd_flags := nd_flags d AND NOT IFF_SLAVE\<rparr>) w))"
  from leave_result[OF d[unfolded xeth_bridge_del_lower_def Let_def]]
  have "e = 0" "w_nd w' = w_nd ?v" "w_proxy w' = w_proxy ?v" by blast+
  with unlink_links[of "\<lambda>d. d\<lparr>nd_flags := nd_flags d AND NOT IFF_SLAVE\<rparr>" w' nd u w]
  show "e = 0 \<and> links_upd w w' u (removeAll nd (nd_lowers (w_nd w u))) nd None \<and> w_proxy w' = w_proxy w"
    by (simp add: netdev_upper_dev_unlink_def)
next
  fix k u nd w e w'
  assume a: "xeth_bridge_add_lower k u nd w = Inr (e, w')" "e \<noteq> 0"
  then show "w_nd w' = w_nd w \<and> w_proxy w' = w_proxy w"
    by (auto simp: xeth_bridge_add_lower_def Let_def bindR_eq_Inr link_links split: if_splits prod.splits)
next
  fix k u nd w w'
  assume a: "xeth_bridge_add_lower k u nd w = Inr (0, w')" "xeth_bridge_ok_lower nd w = 0"
  obtain e v where v: "netdev_master_upper_dev_link k nd u w = (e, v)" by (cases "netdev_master_upper_dev_link k nd u w")
  let ?v = "upd_nd nd (\<lambda>d. d\<lparr>nd_flags := nd_flags d OR IFF_SLAVE\<rparr>) v"
  from a v have e: "e = 0" and w': "w_nd w' = w_nd ?v" "w_proxy w' = w_proxy ?v"
    by (auto simp: xeth_bridge_add_lower_def Let_def bindR_eq_Inr split: if_splits dest!: send_frame)
  from link_links(3)[OF v e] have "links_upd w ?v u (nd_lowers (w_nd w u) @ [nd]) nd (Some u)"
    by (simp add: links_upd_def)
  from links_upd_frame[OF this w'(1)] w'(2) link_links(1)[OF v]
  show "links_upd w w' u (nd_lowers (w_nd w u) @ [nd]) nd (Some u) \<and> w_proxy w' = w_proxy w" by simp
qed

interpretation lag: membership xeth_lag_ok_lower xeth_lag_add_lower xeth_lag_del_lower
  by (rule lag_membership)

interpretation bridge: membership xeth_bridge_ok_lower xeth_bridge_add_lower xeth_bridge_del_lower
  by (rule bridge_membership)

section \<open>Sequences of joins and leaves\<close>

text \<open>A leave is asked for a device by its master: the network core looks the master up.\<close>

inductive member_step :: "kapi \<Rightarrow> world \<Rightarrow> world \<Rightarrow> bool" for k where
  lag_join: "xeth_lag_add_lower k u nd w = Inr (e, w') \<Longrightarrow> member_step k w w'"
| lag_leave: "nd_master (w_nd w nd) = Some u \<Longrightarrow> xeth_lag_del_lower k u nd w = Inr (e, w') \<Longrightarrow> member_step k w w'"
| bridge_join: "xeth_bridge_add_lower k u nd w = Inr (e, w') \<Longrightarrow> member_step k w w'"
| bridge_leave: "nd_master (w_nd w nd) = Some u \<Longrightarrow> xeth_bridge_del_lower k u nd w = Inr (e, w') \<Longrightarrow> member_step k w w'"

lemma member_step_links: "member_step k w w' \<Longrightarrow> link_inv w \<Longrightarrow> link_inv w'"
  by (induction rule: member_step.induct)
    (blast intro: lag.add_keeps_links bridge.add_keeps_links lag.del_keeps_links bridge.del_keeps_links)+

section \<open>Properties\<close>

text \<open>
  C8: However joins and leaves of lags and bridges follow each other, and whether or not they succeed,
  both ends of every link agree, so that no device is ever a member of two upper devices or twice of
  one.
\<close>

theorem members_exclusive:
  assumes "(member_step k)\<^sup>*\<^sup>* w w'" and "link_inv w"
  shows "link_inv w' \<and> (\<forall>u v. u \<noteq> v \<longrightarrow> set (nd_lowers (w_nd w' u)) \<inter> set (nd_lowers (w_nd w' v)) = {})"
proof -
  from assms have "link_inv w'" by (induction rule: rtranclp_induct) (auto dest: member_step_links)
  then show ?thesis by (auto simp: link_inv_def)
qed

lemma sample_link_inv: "link_inv sample_world"
  by (auto simp: link_inv_def sample_defs)

lemma change_upper_sent:
  assumes "sb_ready k m w"
  shows "\<exists>w' d. ignore_err (xeth_sbtx_change_upper k m x y b w) = Inr w' \<and> sent_msgs m w [d] w'
    \<and> xeth_msg_kind_at d = xeth_msg_kind_code XETH_MSG_KIND_CHANGE_UPPER_XID
    \<and> xeth_msg_change_upper_xid_at d = \<lparr>cu_upper = x, cu_lower = y, cu_linking = if b then 1 else 0\<rparr>"
proof -
  have b: "in_bounds 32 (change_upper_fields x y b)"
    using msg_upper.bounds[where a = "(x, y, b)"] by (simp add: xeth_sizeofs)
  from sent_one[OF assms _ b, of XETH_MSG_KIND_CHANGE_UPPER_XID] msg_upper.view[where a = "(x, y, b)"]
  show ?thesis
    by (fastforce simp: xeth_sbtx_change_upper_def ignore_err_Inr xeth_sizeofs)
qed

lemma sb_ready_cong: "w_mux w' m = w_mux w m \<Longrightarrow> sb_ready k m w' = sb_ready k m w"
  by (simp add: sb_ready_def connected_def)

lemma link_dev_mux: "netdev_master_upper_dev_link k nd u w = (e, v) \<Longrightarrow> w_mux v = w_mux w \<and> w_proxy v = w_proxy w"
  by (auto simp: netdev_master_upper_dev_link_def Let_def split: if_splits)

lemma link_dev_err: "fst (netdev_master_upper_dev_link k nd u w) = k_master_upper_dev_link k (w_trace w) nd u"
  by (simp add: netdev_master_upper_dev_link_def Let_def)

lemma sent_msgs_table: "sent_msgs m w ds w' \<Longrightarrow> same_table m w w'"
  by (simp add: sent_msgs_def sb_ext_same_table)

text \<open>The end of a proxy: the daemon is told, and the proxy leaves the table.\<close>

lemma proxy_uninit_ok:
  assumes "table_inv k m w" and "sb_ready k m w" and "q \<in> set (proxies m w)" and "px_mux (w_proxy w q) = Some m"
    and "px_xid (w_proxy w q) \<noteq> 0" and "addrs_ok (w_nd w (px_nd (w_proxy w q)))"
  shows "\<exists>w' d. xeth_proxy_uninit k q w = Inr w' \<and> queued_msgs m w' = queued_msgs m w @ [d]
    \<and> xeth_msg_kind_at d = xeth_msg_kind_code XETH_MSG_KIND_IFINFO
    \<and> table_inv k m w' \<and> set (proxies m w') = set (proxies m w) - {q} \<and> w_proxy w' = w_proxy w"
proof -
  from ifinfo_sent[OF assms(2,4-6)] obtain u d where u: "xeth_sbtx_ifinfo k q 0 XETH_IFINFO_REASON_DEL w = Inr (0, u)"
    "sent_msgs m w [d] u" "xeth_msg_kind_at d = xeth_msg_kind_code XETH_MSG_KIND_IFINFO" by blast
  have "table_inv k m u" "proxies m u = proxies m w"
    using same_table_inv[OF sent_msgs_table[OF u(2)], of k] sent_msgs_table[OF u(2)] assms(1)
    by (simp_all add: proxies_def same_table_def)
  with assms(3) have t: "table_inv k m u" "q \<in> set (proxies m u)" "proxies m u = proxies m w" by simp_all
  from del_proxy_spec[OF t(1,2)] obtain w' where w': "xeth_mux_del_proxy q u = Inr w'" "table_inv k m w'"
    "set (proxies m w') = set (proxies m u) - {q}" "w_proxy w' = w_proxy u" by blast
  have "queued_msgs m w' = queued_msgs m u"
    using w'(1) by (auto simp: xeth_mux_del_proxy_def Let_def queued_msgs_def sb_tx_upd_kin split: option.splits if_splits)
  with u w' t(3) sent_msgs_frame[OF u(2)] show ?thesis
    by (auto simp: xeth_proxy_uninit_def ignore_err_def sent_msgs_def)
qed

lemma leave_total:
  assumes "sb_ready k m v" and "px_mux (w_proxy v u) = Some m" and "px_mux (w_proxy v nd) = Some m"
    and "addrs_ok (w_nd v (px_nd (w_proxy v nd)))"
  shows "\<exists>w'. bindR (proxy_mux u v) (\<lambda>m.
      bindR (ignore_err (xeth_sbtx_change_upper k m x y False v)) (\<lambda>w.
      bindR (xeth_proxy_dump_ifa k nd w) (\<lambda>w. bindR (xeth_proxy_dump_ifa6 k nd w) (\<lambda>w. Inr (0, w))))) = Inr (0, w')
    \<and> (\<exists>ds. sent_msgs m v ds w')"
proof -
  from change_upper_sent[OF assms(1), of x y False] obtain a d where
    a: "ignore_err (xeth_sbtx_change_upper k m x y False v) = Inr a" "sent_msgs m v [d] a" by blast
  note fa = sent_msgs_frame[OF a(2)] and ra = sent_msgs_ready[OF assms(1) a(2)]
  obtain b db where b: "xeth_proxy_dump_ifa k nd a = Inr b" "sent_msgs m a db b"
    using dump_ifa_sent[OF ra, of nd] assms(3,4) fa by auto
  note fb = sent_msgs_frame[OF b(2)] and rb = sent_msgs_ready[OF ra b(2)]
  obtain c dc where c: "xeth_proxy_dump_ifa6 k nd b = Inr c" "sent_msgs m b dc c"
    using dump_ifa6_sent[OF rb, of nd] assms(3,4) fa fb by auto
  from a b c assms(2) sent_msgs_trans[OF sent_msgs_trans[OF a(2) b(2)] c(2)] show ?thesis
    by (auto simp: proxy_mux_def)
qed

lemma lag_del_total:
  assumes "sb_ready k m w" and "px_mux (w_proxy w lag) = Some m" and "px_mux (w_proxy w nd) = Some m"
    and "addrs_ok (w_nd w (px_nd (w_proxy w nd)))"
  shows "\<exists>w'. xeth_lag_del_lower k lag nd w = Inr (0, w') \<and> sb_ready k m w' \<and> same_table m w w'
    \<and> (\<forall>n. addrs_ok (w_nd w' n) = addrs_ok (w_nd w n))"
proof -
  let ?v = "log_event (Ev_update_features lag) (netdev_upper_dev_unlink nd lag
              (upd_nd nd (\<lambda>d. d\<lparr>nd_priv_flags := nd_priv_flags d AND NOT IFF_TEAM_PORT\<rparr>) w))"
  have mux: "w_mux ?v = w_mux w" and px: "w_proxy ?v = w_proxy w" by (simp_all add: netdev_upper_dev_unlink_def)
  have ad: "addrs_ok (w_nd ?v n) = addrs_ok (w_nd w n)" for n
    by (simp add: netdev_upper_dev_unlink_def addrs_ok_def)
  have rdy: "sb_ready k m ?v" using assms(1) sb_ready_cong[of ?v m w k] mux by simp
  have lm: "px_mux (w_proxy ?v lag) = Some m" "px_mux (w_proxy ?v nd) = Some m" using assms(2,3) px by simp_all
  have ok: "addrs_ok (w_nd ?v (px_nd (w_proxy ?v nd)))" using assms(4) px ad[of "px_nd (w_proxy w nd)"] by simp
  from leave_total[OF rdy lm ok, of "px_xid (w_proxy ?v lag)" "px_xid (w_proxy ?v nd)"]
  obtain w' ds where w': "xeth_lag_del_lower k lag nd w = Inr (0, w')" "sent_msgs m ?v ds w'"
    unfolding xeth_lag_del_lower_def Let_def by blast
  have "same_table m w ?v" by (rule same_tableI) (simp_all add: mux px)
  from same_table_trans[OF this sent_msgs_table[OF w'(2)]] w'(1) sent_msgs_ready[OF rdy w'(2)]
    sent_msgs_frame(2)[OF w'(2)] ad show ?thesis by (intro exI[of _ w'] conjI allI) (simp_all only:)
qed

lemma sample_joins: "\<exists>w'. xeth_lag_add_lower sample_kapi 6 3 sample_world = Inr (0, w') \<and> sb_ready sample_kapi 1 w'
    \<and> same_table 1 sample_world w' \<and> addrs_ok (w_nd w' 3) \<and> addrs_ok (w_nd w' 6) \<and> w_proxy w' = w_proxy sample_world"
proof -
  let ?u = "upd_nd 3 (\<lambda>d. d\<lparr>nd_flags := nd_flags d OR IFF_TEAM_PORT\<rparr>) (snd (netdev_master_upper_dev_link sample_kapi 3 6 sample_world))"
  have u: "w_mux ?u = w_mux sample_world" "w_proxy ?u = w_proxy sample_world" "addrs_ok (w_nd ?u 3)" "addrs_ok (w_nd ?u 6)"
    by (simp_all add: netdev_master_upper_dev_link_def Let_def sample_defs addrs_ok_def)
  have r: "sb_ready sample_kapi 1 ?u" using sample_ready sb_ready_cong[of ?u 1 sample_world] u(1) by simp
  from change_upper_sent[OF this, of 3003 3001 True] obtain x d where
    x: "ignore_err (xeth_sbtx_change_upper sample_kapi 1 3003 3001 True ?u) = Inr x" "sent_msgs 1 ?u [d] x" by blast
  then have "xeth_lag_add_lower sample_kapi 6 3 sample_world = Inr (0, x)"
    by (auto simp: xeth_lag_add_lower_def xeth_lag_ok_lower_def xeth_lag_n_lowers_def is_xeth_port_def sample_defs
        IFF_SLAVE_def IFF_TEAM_PORT_def netdev_master_upper_dev_link_def proxy_mux_def Let_def)
  moreover have "same_table 1 sample_world ?u" by (rule same_tableI) (simp_all add: u)
  ultimately show ?thesis
    using same_table_trans[OF _ sent_msgs_table[OF x(2)], of sample_world] sent_msgs_ready[OF r x(2)] sent_msgs_frame[OF x(2)] u
    by (intro exI[of _ x]) simp
qed

lemma lag_admits:
  assumes "sb_ready k m w" and "px_mux (w_proxy w lag) = Some m" and "xeth_lag_ok_lower nd w = 0"
    and "length (nd_lowers (w_nd w lag)) < 8" and "k_master_upper_dev_link k (w_trace w) nd lag = 0"
  shows "\<exists>w' d. xeth_lag_add_lower k lag nd w = Inr (0, w') \<and> queued_msgs m w' = queued_msgs m w @ [d] \<and> same_table m w w'
    \<and> nd_lowers (w_nd w' lag) = nd_lowers (w_nd w lag) @ [nd] \<and> nd_master (w_nd w' nd) = Some lag
    \<and> xeth_msg_change_upper_xid_at d = \<lparr>cu_upper = px_xid (w_proxy w lag), cu_lower = px_xid (w_proxy w nd), cu_linking = 1\<rparr>"
proof -
  obtain v where v: "netdev_master_upper_dev_link k nd lag w = (0, v)"
    using assms(5) link_dev_err[of k nd lag w] by (cases "netdev_master_upper_dev_link k nd lag w") simp
  note vf = link_dev_mux[OF v]
  let ?u = "upd_nd nd (\<lambda>d. d\<lparr>nd_flags := nd_flags d OR IFF_TEAM_PORT\<rparr>) v"
  have "sb_ready k m ?u" using assms(1) vf sb_ready_cong[of ?u m w] by simp
  from change_upper_sent[OF this, of "px_xid (w_proxy w lag)" "px_xid (w_proxy w nd)" True] obtain x d where x:
    "ignore_err (xeth_sbtx_change_upper k m (px_xid (w_proxy w lag)) (px_xid (w_proxy w nd)) True ?u) = Inr x"
    "sent_msgs m ?u [d] x" "xeth_msg_change_upper_xid_at d =
       \<lparr>cu_upper = px_xid (w_proxy w lag), cu_lower = px_xid (w_proxy w nd), cu_linking = 1\<rparr>"
    by auto
  have r: "xeth_lag_add_lower k lag nd w = Inr (0, x)"
    using assms(2-4) v vf x(1) by (simp add: xeth_lag_add_lower_def xeth_lag_n_lowers_def proxy_mux_def)
  have "same_table m w ?u" using vf by (intro same_tableI) simp_all
  moreover have "queued_msgs m x = queued_msgs m w @ [d]" using x(2) vf by (simp add: sent_msgs_def queued_msgs_def)
  ultimately show ?thesis
    using r x(3) lag.joined[OF r assms(3)] same_table_trans[OF _ sent_msgs_table[OF x(2)]]
    by (intro exI[of _ x] exI[of _ d]) (simp add: links_upd_def)
qed



theorem members_exclusive_witness:
  "\<exists>w'. (member_step sample_kapi)\<^sup>*\<^sup>* sample_world w' \<and> link_inv w' \<and> nd_lowers (w_nd w' 6) = [3]"
proof -
  have "length (nd_lowers (w_nd sample_world 6)) = 0" "xeth_lag_ok_lower 3 sample_world = 0" "nd_lowers (w_nd sample_world 6) = []"
    "k_master_upper_dev_link sample_kapi (w_trace sample_world) 3 6 = 0" "px_mux (w_proxy sample_world 6) = Some 1"
    by (simp_all add: xeth_lag_ok_lower_def is_xeth_port_def sample_defs IFF_SLAVE_def IFF_TEAM_PORT_def)
  with sample_joins obtain w' where w': "xeth_lag_add_lower sample_kapi 6 3 sample_world = Inr (0, w')" by blast
  from lag.joined[OF w'] this have "nd_lowers (w_nd w' 6) = [3]" by (simp add: links_upd_def xeth_lag_ok_lower_def is_xeth_port_def sample_defs IFF_SLAVE_def IFF_TEAM_PORT_def)
  moreover have "(member_step sample_kapi)\<^sup>*\<^sup>* sample_world w'" using lag_join[OF w'] by blast
  ultimately show ?thesis using members_exclusive[OF _ sample_link_inv] by blast
qed

text \<open>
  The mark of a lag member is set and tested in different words: joining sets \<^verbatim>\<open>IFF_TEAM_PORT\<close> in the
  flags of the device, while the test of a candidate and the release of a member use the private flags.
  So the private flag is never set by a lag, and the flag outlives the membership.
\<close>

theorem lag_member_mark_misplaced:
  assumes "xeth_lag_add_lower k lag nd w = Inr (0, w1)" and "xeth_lag_del_lower k lag nd w1 = Inr (e, w2)"
    and "nd \<noteq> lag"
  shows "nd_priv_flags (w_nd w1 nd) = nd_priv_flags (w_nd w nd)
    \<and> nd_flags (w_nd w2 nd) = nd_flags (w_nd w nd) OR IFF_TEAM_PORT"
proof -
  obtain r v where v: "netdev_master_upper_dev_link k nd lag w = (r, v)" by (cases "netdev_master_upper_dev_link k nd lag w")
  have ok: "xeth_lag_ok_lower nd w = 0" using assms(1) by (auto simp: xeth_lag_add_lower_def Let_def split: if_splits)
  with assms(1) v have r: "r = 0" and w1: "w_nd w1 = w_nd (upd_nd nd (\<lambda>d. d\<lparr>nd_flags := nd_flags d OR IFF_TEAM_PORT\<rparr>) v)"
    by (auto simp: xeth_lag_add_lower_def Let_def bindR_eq_Inr split: if_splits dest!: send_frame)
  from v r assms(3) have "w_nd v nd = (w_nd w nd)\<lparr>nd_master := Some lag\<rparr>"
    by (auto simp: netdev_master_upper_dev_link_def Let_def split: if_splits)
  with w1 have n1: "w_nd w1 nd = (w_nd w nd)\<lparr>nd_master := Some lag, nd_flags := nd_flags (w_nd w nd) OR IFF_TEAM_PORT\<rparr>" by simp
  from leave_result[OF assms(2)[unfolded xeth_lag_del_lower_def Let_def]] assms(3)
  have "nd_flags (w_nd w2 nd) = nd_flags (w_nd w1 nd)" by (simp add: netdev_upper_dev_unlink_def)
  with n1 show ?thesis by simp
qed

theorem lag_member_mark_misplaced_witness:
  "\<exists>w1 w2. xeth_lag_add_lower sample_kapi 6 3 sample_world = Inr (0, w1)
     \<and> xeth_lag_del_lower sample_kapi 6 3 w1 = Inr (0, w2) \<and> nd_flags (w_nd w2 3) = 0x2001"
proof -
  from sample_joins obtain w1 where w1: "xeth_lag_add_lower sample_kapi 6 3 sample_world = Inr (0, w1)"
    "sb_ready sample_kapi 1 w1" "addrs_ok (w_nd w1 3)" "w_proxy w1 = w_proxy sample_world" by blast
  have "px_mux (w_proxy w1 6) = Some 1" "px_mux (w_proxy w1 3) = Some 1" "px_nd (w_proxy w1 3) = 3"
    by (simp_all add: w1(4) sample_defs)
  with lag_del_total[OF w1(2), of 6 3] w1(3) obtain w2 where w2: "xeth_lag_del_lower sample_kapi 6 3 w1 = Inr (0, w2)" by auto
  from lag_member_mark_misplaced[OF w1(1) w2] have "nd_flags (w_nd w2 3) = nd_flags (w_nd sample_world 3) OR IFF_TEAM_PORT" by simp
  also have "\<dots> = 0x2001" by (simp add: sample_defs IFF_TEAM_PORT_def)
  finally show ?thesis using w1(1) w2 by blast
qed

text \<open>
  C25: When a lag or a bridge goes, all its members are released: none keeps it as its master, the links of
  other devices stay as they are, and the daemon's table entry is removed through the same proxy.
\<close>

theorem uninit_releases_members:
  assumes "link_inv w" and "\<forall>l. px_nd (w_proxy w l) = l"
    and "xeth_lag_uninit k u w = Inr w' \<or> xeth_bridge_uninit k u w = Inr w'"
  shows "nd_lowers (w_nd w' u) = [] \<and> (\<forall>l. nd_master (w_nd w' l) \<noteq> Some u)
    \<and> (\<forall>n. n \<noteq> u \<longrightarrow> nd_lowers (w_nd w' n) = nd_lowers (w_nd w n))"
  using assms(3) lag.all_members_released[OF _ assms(1,2)] bridge.all_members_released[OF _ assms(1,2)]
  unfolding xeth_lag_uninit_def xeth_bridge_uninit_def by blast

theorem uninit_releases_members_witness:
  "\<exists>w w'. xeth_lag_add_lower sample_kapi 6 3 sample_world = Inr (0, w) \<and> xeth_lag_uninit sample_kapi 6 w = Inr w'
     \<and> nd_lowers (w_nd w 6) = [3] \<and> nd_lowers (w_nd w' 6) = [] \<and> (\<forall>l. nd_master (w_nd w' l) \<noteq> Some 6)"
proof -
  from sample_joins obtain w where w: "xeth_lag_add_lower sample_kapi 6 3 sample_world = Inr (0, w)"
    "sb_ready sample_kapi 1 w" "same_table 1 sample_world w" "addrs_ok (w_nd w 3)" "addrs_ok (w_nd w 6)"
    "w_proxy w = w_proxy sample_world" by blast
  have "xeth_lag_ok_lower 3 sample_world = 0" "nd_lowers (w_nd sample_world 6) = []"
    by (simp_all add: xeth_lag_ok_lower_def is_xeth_port_def sample_defs IFF_SLAVE_def IFF_TEAM_PORT_def)
  with lag.joined[OF w(1)] have low: "nd_lowers (w_nd w 6) = [3]" by (simp add: links_upd_def)
  have px: "px_mux (w_proxy w 6) = Some 1" "px_mux (w_proxy w 3) = Some 1" "\<forall>l. px_nd (w_proxy w l) = l" "px_xid (w_proxy w 6) = 3003"
    by (simp_all add: w(6) sample_defs)
  with lag_del_total[OF w(2), of 6 3] w(4) obtain v where v: "xeth_lag_del_lower sample_kapi 6 3 w = Inr (0, v)"
    "sb_ready sample_kapi 1 v" "same_table 1 w v" "\<forall>n. addrs_ok (w_nd v n) = addrs_ok (w_nd w n)" by auto
  have pv: "w_proxy v = w_proxy w" using lag.left[OF v(1)] by simp
  have st: "same_table 1 sample_world v" by (rule same_table_trans[OF w(3) v(3)])
  have "table_inv sample_kapi 1 v" using same_table_inv[OF st] sample_table_inv by simp
  moreover have "6 \<in> set (proxies 1 v)" using st by (simp add: proxies_def same_table_def sample_defs)
  ultimately obtain w' where "xeth_proxy_uninit sample_kapi 6 v = Inr w'"
    using proxy_uninit_ok[OF _ v(2), of 6] px pv v(4) w(5) by auto
  then have "xeth_lag_uninit sample_kapi 6 w = Inr w'"
    using v(1) px(3) low by (simp add: xeth_lag_uninit_def ignore_err_def)
  with uninit_releases_members[OF lag.add_keeps_links[OF sample_link_inv w(1)] px(3)] low w(1) show ?thesis by blast
qed

end
