(* ===== verification/Xeth_Dev.thy ===== *)
theory Xeth_Dev
  imports Xeth_Upper
begin

text \<open>
  The life of a device: the setup functions of every kind, the net device operations that the network
  core calls on registration, opening, closing and unregistration, and the search for a free XID
  (\<^verbatim>\<open>dkms/xeth_port.c\<close>, \<^verbatim>\<open>xeth_vlan.c\<close>, \<^verbatim>\<open>xeth_lb.c\<close>, \<^verbatim>\<open>xeth_lag.c\<close>, \<^verbatim>\<open>xeth_bridge.c\<close> and \<^verbatim>\<open>xeth_mux.c\<close>).
  Of \<^verbatim>\<open>register_netdevice\<close> and \<^verbatim>\<open>unregister_netdevice\<close> the calls back into the driver are modelled and the
  registration state; the interface index of a device is taken as given from its allocation on.
\<close>

section \<open>Setup\<close>

definition ether_setup :: "net_device \<Rightarrow> net_device" where
  "ether_setup d = d\<lparr>nd_mtu := ETH_DATA_LEN, nd_min_mtu := ETH_MIN_MTU, nd_max_mtu := ETH_DATA_LEN,
     nd_flags := IFF_BROADCAST OR IFF_MULTICAST, nd_priv_flags := nd_priv_flags d OR IFF_TX_SKB_SHARING\<rparr>"

definition proxy_priv_flags :: "u32 \<Rightarrow> u32" where
  "proxy_priv_flags f = (f AND NOT IFF_TX_SKB_SHARING)
     OR IFF_LIVE_ADDR_CHANGE OR IFF_NO_QUEUE OR IFF_PHONY_HEADROOM OR IFF_DONT_BRIDGE"

definition xeth_proxy_setup :: "ndp \<Rightarrow> world \<Rightarrow> world" where
  "xeth_proxy_setup nd w = upd_proxy nd (\<lambda>px. px\<lparr>px_link_stats := xeth_link_stat_init (px_link_stats px)\<rparr>) w"

definition set_kind :: "ndp \<Rightarrow> xeth_dev_kind \<Rightarrow> world \<Rightarrow> world" where
  "set_kind nd kd w = upd_proxy nd (\<lambda>px. px\<lparr>px_kind := kd\<rparr>) w"

definition eth_hw_addr_random :: "kapi \<Rightarrow> ndp \<Rightarrow> world \<Rightarrow> world" where
  "eth_hw_addr_random k nd w = upd_nd nd (\<lambda>d. d\<lparr>nd_dev_addr := k_random_addr k (w_trace w)\<rparr>) w"

definition xeth_port_setup :: "ndp \<Rightarrow> world \<Rightarrow> world" where
  "xeth_port_setup nd w =
     (let w = netif_carrier False nd (xeth_proxy_setup nd w);
          w = set_kind nd XETH_DEV_KIND_PORT w
      in upd_nd nd (\<lambda>d. let d = ether_setup (d\<lparr>nd_netdev_ops := xeth_port_ndo\<rparr>)
                        in d\<lparr>nd_priv_flags := proxy_priv_flags (nd_priv_flags d)\<rparr>) w)"

definition xeth_vlan_setup :: "kapi \<Rightarrow> ndp \<Rightarrow> world \<Rightarrow> world" where
  "xeth_vlan_setup k nd w =
     (let w = set_kind nd XETH_DEV_KIND_VLAN (xeth_proxy_setup nd w);
          w = upd_nd nd (\<lambda>d. ether_setup (d\<lparr>nd_netdev_ops := xeth_vlan_ndo, nd_rtnl_link_ops := xeth_vlan_lnko\<rparr>)) w;
          w = eth_hw_addr_random k nd w
      in upd_nd nd (\<lambda>d. d\<lparr>nd_priv_flags := proxy_priv_flags (nd_priv_flags d)\<rparr>) w)"

text \<open>The setup of a loopback device gives it the kind of a vlan.\<close>

definition xeth_lb_setup :: "kapi \<Rightarrow> ndp \<Rightarrow> world \<Rightarrow> world" where
  "xeth_lb_setup k nd w =
     (let w = set_kind nd XETH_DEV_KIND_VLAN (xeth_proxy_setup nd w);
          w = upd_nd nd (\<lambda>d. ether_setup (d\<lparr>nd_netdev_ops := xeth_lb_ndo, nd_rtnl_link_ops := xeth_lb_lnko\<rparr>)) w;
          w = eth_hw_addr_random k nd w
      in upd_nd nd (\<lambda>d. d\<lparr>nd_priv_flags := proxy_priv_flags (nd_priv_flags d)\<rparr>) w)"

definition xeth_lag_setup :: "ndp \<Rightarrow> world \<Rightarrow> world" where
  "xeth_lag_setup lag w =
     (let w = set_kind lag XETH_DEV_KIND_LAG (xeth_proxy_setup lag w);
          w = upd_nd lag (\<lambda>d. ether_setup (d\<lparr>nd_netdev_ops := xeth_lag_ndo, nd_rtnl_link_ops := xeth_lag_lnko\<rparr>)) w
      in upd_nd lag (\<lambda>d. d\<lparr>nd_priv_flags := proxy_priv_flags (nd_priv_flags d)\<rparr>) w)"

definition xeth_bridge_setup :: "ndp \<Rightarrow> world \<Rightarrow> world" where
  "xeth_bridge_setup br w =
     (let w = set_kind br XETH_DEV_KIND_BRIDGE (xeth_proxy_setup br w);
          w = upd_nd br (\<lambda>d. ether_setup (d\<lparr>nd_netdev_ops := xeth_bridge_ndo, nd_rtnl_link_ops := xeth_bridge_lnko\<rparr>)) w
      in upd_nd br (\<lambda>d. d\<lparr>nd_priv_flags := proxy_priv_flags (nd_priv_flags d)\<rparr>) w)"

definition xeth_mux_priv_init :: "xeth_mux_priv \<Rightarrow> xeth_mux_priv" where
  "xeth_mux_priv_init p = p\<lparr>
     mx_hls := fold (\<lambda>i hls. hls[i := []]) [0..<xeth_mux_proxy_hash_bkts] (mx_hls p),
     mx_ports := [], mx_vlans := [], mx_bridges := [], mx_lags := [], mx_lbs := [],
     mx_sb_free := [], mx_sb_tx := [], mx_nb := (mx_nb p)\<lparr>nb_fibs := []\<rparr>\<rparr>"

definition xeth_mux_setup :: "ndp \<Rightarrow> world \<Rightarrow> world" where
  "xeth_mux_setup m w =
     (let w = upd_nd m (\<lambda>d. ether_setup (d\<lparr>nd_netdev_ops := xeth_mux_ndo\<rparr>)) w;
          w = upd_nd m (\<lambda>d. d\<lparr>nd_flags := nd_flags d OR IFF_MASTER,
                nd_priv_flags := (nd_priv_flags d OR IFF_DONT_BRIDGE OR IFF_NO_QUEUE) AND NOT IFF_TX_SKB_SHARING,
                nd_min_mtu := ETH_MIN_MTU, nd_max_mtu := ETH_MAX_MTU - of_nat VLAN_HLEN,
                nd_mtu := of_nat XETH_SIZEOF_JUMBO_FRAME - of_nat VLAN_HLEN\<rparr>) w
      in upd_mux m (\<lambda>p. upd_stats xeth_link_stat_init (upd_counters xeth_mux_counter_init (xeth_mux_priv_init p))) w)"

section \<open>Opening and closing\<close>

definition gpio_at :: "nat list option \<Rightarrow> int \<Rightarrow> nat option" where
  "gpio_at descs port =
     (case descs of None \<Rightarrow> None
      | Some ds \<Rightarrow> if 0 \<le> port \<and> nat port < length ds then Some (ds ! nat port) else None)"

definition xeth_mux_qsfp_absent_gpio :: "ndp \<Rightarrow> int \<Rightarrow> world \<Rightarrow> nat option" where
  "xeth_mux_qsfp_absent_gpio m port w = gpio_at (mx_absent_gpios (w_mux w m)) port"
definition xeth_mux_qsfp_lpmode_gpio :: "ndp \<Rightarrow> int \<Rightarrow> world \<Rightarrow> nat option" where
  "xeth_mux_qsfp_lpmode_gpio m port w = gpio_at (mx_lpmode_gpios (w_mux w m)) port"
definition xeth_mux_qsfp_reset_gpio :: "ndp \<Rightarrow> int \<Rightarrow> world \<Rightarrow> nat option" where
  "xeth_mux_qsfp_reset_gpio m port w = gpio_at (mx_reset_gpios (w_mux w m)) port"

definition gpio_set :: "nat option \<Rightarrow> nat \<Rightarrow> world \<Rightarrow> world" where
  "gpio_set g v w = (case g of None \<Rightarrow> w | Some n \<Rightarrow> log_event (Ev_gpio_set n v) w)"

text \<open>\<^verbatim>\<open>dev_open\<close> of the mux calls \<^verbatim>\<open>xeth_mux_open\<close>.\<close>

definition dev_open_mux :: "kapi \<Rightarrow> ndp \<Rightarrow> world \<Rightarrow> world" where
  "dev_open_mux k m w =
     (let err = k_dev_open k (w_trace w) m; w = log_event (Ev_dev_open m) w
      in if err = 0 then upd_nd m (\<lambda>d. d\<lparr>nd_flags := nd_flags d OR IFF_UP\<rparr>) (snd (xeth_mux_open k m w)) else w)"

definition xeth_port_open :: "kapi \<Rightarrow> ndp \<Rightarrow> world \<Rightarrow> (int \<times> world) outcome" where
  "xeth_port_open k nd w =
     bindR (proxy_mux nd w) (\<lambda>m.
       let w = (if nd_flags (w_nd w m) AND IFF_UP = 0 then dev_open_mux k m w else w);
           w = gpio_set (xeth_mux_qsfp_lpmode_gpio m (pp_port (w_port w nd)) w) 0 w
       in xeth_proxy_open k nd w)"

definition xeth_port_stop :: "kapi \<Rightarrow> ndp \<Rightarrow> world \<Rightarrow> (int \<times> world) outcome" where
  "xeth_port_stop k nd w =
     bindR (proxy_mux nd w) (\<lambda>m.
       xeth_proxy_stop k nd (gpio_set (xeth_mux_qsfp_lpmode_gpio m (pp_port (w_port w nd)) w) 1 w))"

definition xeth_vlan_open :: "kapi \<Rightarrow> ndp \<Rightarrow> world \<Rightarrow> (int \<times> world) outcome" where
  "xeth_vlan_open k nd w =
     (case w_vlan_link w nd of
        None \<Rightarrow> Inl Null_deref
      | Some link \<Rightarrow> xeth_proxy_open k nd (if nd_carrier (w_nd w link) then netif_carrier True nd w else w))"

definition xeth_vlan_stop :: "kapi \<Rightarrow> ndp \<Rightarrow> world \<Rightarrow> (int \<times> world) outcome" where
  "xeth_vlan_stop k nd w = xeth_proxy_stop k nd (netif_carrier False nd w)"

definition xeth_vlan_get_iflink :: "ndp \<Rightarrow> world \<Rightarrow> u32" where
  "xeth_vlan_get_iflink nd w =
     (case w_vlan_link w nd of Some link \<Rightarrow> nd_ifindex (w_nd w link) | None \<Rightarrow> nd_ifindex (w_nd w nd))"

definition xeth_lb_open :: "kapi \<Rightarrow> ndp \<Rightarrow> world \<Rightarrow> (int \<times> world) outcome" where
  "xeth_lb_open k nd w = xeth_proxy_open k nd (netif_carrier True nd w)"

definition xeth_lb_stop :: "kapi \<Rightarrow> ndp \<Rightarrow> world \<Rightarrow> (int \<times> world) outcome" where
  "xeth_lb_stop k nd w = xeth_proxy_stop k nd (netif_carrier False nd w)"

definition xeth_lb_get_iflink :: "ndp \<Rightarrow> world \<Rightarrow> u32 outcome" where
  "xeth_lb_get_iflink nd w = bindR (proxy_mux nd w) (\<lambda>m. Inr (nd_ifindex (w_nd w m)))"

definition xeth_port_uninit :: "kapi \<Rightarrow> ndp \<Rightarrow> world \<Rightarrow> world outcome" where
  "xeth_port_uninit k nd w =
     bindR (if pp_subport (w_port w nd) \<le> 0
            then bindR (port_ext nd w) (\<lambda>e.
                   case ext_qsfp e of
                     None \<Rightarrow> Inr w
                   | Some c \<Rightarrow> Inr (upd_ext nd (\<lambda>e. e\<lparr>ext_qsfp := None\<rparr>) (log_event (Ev_i2c_unregister c) w)))
            else Inr w)
       (xeth_proxy_uninit k nd)"

section \<open>The operation tables\<close>

fun ndo_init :: "kapi \<Rightarrow> netdev_ops \<Rightarrow> ndp \<Rightarrow> world \<Rightarrow> int \<times> world" where
  "ndo_init k xeth_port_ndo nd w = xeth_proxy_init k nd w"
| "ndo_init k xeth_vlan_ndo nd w = xeth_proxy_init k nd w"
| "ndo_init k xeth_lb_ndo nd w = xeth_proxy_init k nd w"
| "ndo_init k xeth_lag_ndo nd w = xeth_lag_init k nd w"
| "ndo_init k xeth_bridge_ndo nd w = xeth_bridge_init k nd w"
| "ndo_init k xeth_mux_ndo nd w = (0, w)"
| "ndo_init k other_ndo nd w = (0, w)"

fun ndo_uninit :: "kapi \<Rightarrow> netdev_ops \<Rightarrow> ndp \<Rightarrow> world \<Rightarrow> world outcome" where
  "ndo_uninit k xeth_port_ndo nd w = xeth_port_uninit k nd w"
| "ndo_uninit k xeth_vlan_ndo nd w = xeth_proxy_uninit k nd w"
| "ndo_uninit k xeth_lb_ndo nd w = xeth_proxy_uninit k nd w"
| "ndo_uninit k xeth_lag_ndo nd w = xeth_lag_uninit k nd w"
| "ndo_uninit k xeth_bridge_ndo nd w = xeth_bridge_uninit k nd w"
| "ndo_uninit k xeth_mux_ndo nd w = Inr (xeth_mux_uninit nd w)"
| "ndo_uninit k other_ndo nd w = Inr w"

fun ndo_stop :: "kapi \<Rightarrow> netdev_ops \<Rightarrow> ndp \<Rightarrow> world \<Rightarrow> (int \<times> world) outcome" where
  "ndo_stop k xeth_port_ndo nd w = xeth_port_stop k nd w"
| "ndo_stop k xeth_vlan_ndo nd w = xeth_vlan_stop k nd w"
| "ndo_stop k xeth_lb_ndo nd w = xeth_lb_stop k nd w"
| "ndo_stop k xeth_lag_ndo nd w = xeth_lag_stop k nd w"
| "ndo_stop k xeth_bridge_ndo nd w = xeth_bridge_stop k nd w"
| "ndo_stop k xeth_mux_ndo nd w = Inr (xeth_mux_stop nd w)"
| "ndo_stop k other_ndo nd w = Inr (0, w)"

fun ndo_del_slave :: "kapi \<Rightarrow> netdev_ops \<Rightarrow> ndp \<Rightarrow> ndp \<Rightarrow> world \<Rightarrow> world outcome" where
  "ndo_del_slave k xeth_lag_ndo upper nd w = ignore_err (xeth_lag_del_lower k upper nd w)"
| "ndo_del_slave k xeth_bridge_ndo upper nd w = ignore_err (xeth_bridge_del_lower k upper nd w)"
| "ndo_del_slave k _ upper nd w = Inr w"

section \<open>Registration\<close>

definition register_netdevice :: "kapi \<Rightarrow> ndp \<Rightarrow> world \<Rightarrow> (int \<times> world) outcome" where
  "register_netdevice k nd w =
     (let ops = nd_netdev_ops (w_nd w nd); (err, inited) = k_register_netdevice k (w_trace w) nd;
          w = log_event (Ev_register_netdevice nd) w
      in if err = 0 then Inr (0, upd_nd nd (\<lambda>d. d\<lparr>nd_registered := True\<rparr>) (snd (ndo_init k ops nd w)))
         else if inited then bindR (ndo_uninit k ops nd (snd (ndo_init k ops nd w))) (\<lambda>w. Inr (err, w))
         else Inr (err, w))"

definition unregister_netdevice :: "kapi \<Rightarrow> ndp \<Rightarrow> world \<Rightarrow> world outcome" where
  "unregister_netdevice k nd w =
     (let ops = nd_netdev_ops (w_nd w nd); w = log_event (Ev_unregister_netdevice nd) w in
      bindR (if nd_flags (w_nd w nd) AND IFF_UP \<noteq> 0
             then bindR (ignore_err (ndo_stop k ops nd w)) (\<lambda>w. Inr (upd_nd nd (\<lambda>d. d\<lparr>nd_flags := nd_flags d AND NOT IFF_UP\<rparr>) w))
             else Inr w) (\<lambda>w.
      bindR (ndo_uninit k ops nd w) (\<lambda>w. Inr (upd_nd nd (\<lambda>d. d\<lparr>nd_registered := False\<rparr>) w))))"

definition unregister_netdevice_queue :: "ndp \<Rightarrow> world \<Rightarrow> world" where
  "unregister_netdevice_queue nd w = log_event (Ev_unregister_queue nd) w"

section \<open>The search for a free XID\<close>

definition xeth_port_top_vid :: u32 where "xeth_port_top_vid = 3999"

text \<open>The loop of lags, bridges and loopback devices: from 3000 up to 4095, \<open>None\<close> for \<^verbatim>\<open>-ENODEV\<close>.\<close>

function find_xid_up :: "kapi \<Rightarrow> ndp \<Rightarrow> world \<Rightarrow> u32 \<Rightarrow> u32 option" where
  "find_xid_up k m w xid =
     (if xeth_mux_proxy_of_xid k m w xid = None then Some xid
      else if xid = 4095 then None
      else find_xid_up k m w (xid + 1))"
  by pat_completeness auto
termination
proof (relation "measure (\<lambda>(k, m, w, xid). unat (4095 - xid))")
  fix k :: kapi and m and w :: world and xid :: u32
  assume "xid \<noteq> 4095"
  then have nz: "4095 - xid \<noteq> 0" by simp
  have less: "unat (y - 1) < unat y" if "y \<noteq> 0" for y :: u32
    using that unat_gt_0[of y] by (simp add: unat_minus_one)
  have eq: "4095 - (xid + 1) = 4095 - xid - 1" by simp
  show "((k, m, w, xid + 1), k, m, w, xid) \<in> measure (\<lambda>(k, m, w, xid). unat (4095 - xid))"
    using less[OF nz] by (simp only: in_measure split eq)
qed simp

declare find_xid_up.simps [simp del]

text \<open>The loop of ports: from 3999 down, with no end of its own, so that it takes fuel.\<close>

fun find_xid_down :: "nat \<Rightarrow> kapi \<Rightarrow> ndp \<Rightarrow> world \<Rightarrow> u32 \<Rightarrow> u32 option" where
  "find_xid_down 0 k m w xid = None"
| "find_xid_down (Suc fuel) k m w xid =
     (if xeth_mux_proxy_of_xid k m w xid = None then Some xid else find_xid_down fuel k m w (xid - 1))"

section \<open>What the searches find\<close>

abbreviation xid_used :: "kapi \<Rightarrow> ndp \<Rightarrow> world \<Rightarrow> u32 \<Rightarrow> bool" where
  "xid_used k m w x \<equiv> xeth_mux_proxy_of_xid k m w x \<noteq> None"

lemma find_xid_up_find:
  "n \<le> 4095 \<Longrightarrow> find_xid_up k m w (of_nat n) = find (\<lambda>x. \<not> xid_used k m w x) (map of_nat [n..<4096])"
proof (induction rule: inc_induct)
  case base
  have "[4095..<4096] = [4095 :: nat]" by (simp add: upt_rec)
  then show ?case by (subst find_xid_up.simps) simp
next
  case (step n)
  then have ne: "(of_nat n :: u32) \<noteq> 4095" by (simp add: word_unat_eq_iff unat_of_nat)
  from step have "[n..<4096] = n # [Suc n..<4096]" by (simp add: upt_conv_Cons)
  with step ne show ?case by (subst find_xid_up.simps) (simp add: add.commute)
qed

text \<open>
  C26: The XID that lags, bridges and loopback devices get is the first one from 3000 to 4095 that no proxy
  of the mux has; the search fails exactly when all of them are taken, however the table looks.
\<close>

theorem find_xid_up_is_first_free:
  "find_xid_up k m w 3000 = find (\<lambda>x. xeth_mux_proxy_of_xid k m w x = None) (map of_nat [3000..<4096])"
  using find_xid_up_find[of 3000 k m w] by (simp del: upt_rec_numeral)

text \<open>While the search downwards has not ended, all the XIDs it has seen are taken.\<close>

lemma find_xid_down_None: "find_xid_down n k m w x = None \<longleftrightarrow> (\<forall>i < n. xid_used k m w (x - of_nat i))"
proof (induction n arbitrary: x)
  case (Suc n)
  have "(\<forall>i < Suc n. xid_used k m w (x - of_nat i)) \<longleftrightarrow>
      xid_used k m w x \<and> (\<forall>i < n. xid_used k m w (x - of_nat (Suc i)))"
    by (simp add: All_less_Suc2 del: of_nat_Suc)
  then show ?case by (simp add: Suc.IH algebra_simps)
qed simp

lemma find_xid_down_free: "find_xid_down n k m w x = Some y \<Longrightarrow> \<not> xid_used k m w y"
  by (induction n k m w x rule: find_xid_down.induct) (auto split: if_splits)

lemma used_xids_bounded:
  assumes "table_inv k m w" and "finite X" and "\<forall>x \<in> X. xid_used k m w x"
  shows "card X \<le> length (proxies m w)"
proof -
  have "X \<subseteq> (\<lambda>q. px_xid (w_proxy w q)) ` set (proxies m w)"
    using assms(1,3) by (fastforce dest: lookup_sound)
  then have "card X \<le> card (set (proxies m w))" by (rule surj_card_le[OF finite_set])
  also have "\<dots> \<le> length (proxies m w)" by (rule card_length)
  finally show ?thesis .
qed

text \<open>
  C27: The search for the XID of a new port ends: one round more than there are proxies is enough, and the
  XID it finds is free.
\<close>

theorem port_xid_search_ends:
  assumes "table_inv k m w" and "length (proxies m w) < fuel" and "length (proxies m w) < 2 ^ 32"
  shows "\<exists>x. find_xid_down fuel k m w xeth_port_top_vid = Some x \<and> xeth_mux_proxy_of_xid k m w x = None"
proof (cases "find_xid_down fuel k m w xeth_port_top_vid")
  case (Some x)
  then show ?thesis using find_xid_down_free[OF Some] by simp
next
  case None
  let ?f = "\<lambda>i. xeth_port_top_vid - of_nat i :: u32" and ?n = "Suc (length (proxies m w))"
  have "inj_on ?f {..<?n}"
  proof (rule inj_onI)
    fix i j assume "i \<in> {..<?n}" "j \<in> {..<?n}" "?f i = ?f j"
    then have "(of_nat i :: u32) = of_nat j" "i < 2 ^ 32" "j < 2 ^ 32" using assms(3) by simp_all
    then show "i = j" by (simp add: word_unat_eq_iff unat_of_nat)
  qed
  then have "card (?f ` {..<?n}) = ?n" by (simp add: card_image)
  moreover have "\<forall>x \<in> ?f ` {..<?n}. xid_used k m w x"
    using None assms(2) by (auto simp: find_xid_down_None)
  ultimately show ?thesis using used_xids_bounded[OF assms(1), of "?f ` {..<?n}"] by simp
qed

theorem port_xid_search_ends_witness:
  "\<exists>x. find_xid_down 6 sample_kapi 1 sample_world xeth_port_top_vid = Some x
     \<and> xeth_mux_proxy_of_xid sample_kapi 1 sample_world x = None"
  by (rule port_xid_search_ends[OF sample_table_inv]) (simp_all add: proxies_def sample_defs)

end
