(* ===== verification/Xeth_Qsfp.thy ===== *)
theory Xeth_Qsfp
  imports Xeth_Sample
begin

text \<open>
  Access to the memory of a transceiver over the I2C bus (\<^verbatim>\<open>dkms/xeth_qsfp.c\<close>) and the ethtool operations of a
  port that use it. The I2C core is a parameter. A buffer is a list of bytes that may not have been
  written yet: reading such a byte is a fault.
\<close>

section \<open>Operations\<close>

definition I2C_CLIENT_END :: u16 where "I2C_CLIENT_END = 0xfffe"
definition ETH_MODULE_SFF_8472 :: u32 where "ETH_MODULE_SFF_8472 = 2"
definition ETH_MODULE_SFF_8636 :: u32 where "ETH_MODULE_SFF_8636 = 3"
definition ETH_MODULE_SFF_8436 :: u32 where "ETH_MODULE_SFF_8436 = 4"
definition ETH_MODULE_SFF_8472_LEN :: u32 where "ETH_MODULE_SFF_8472_LEN = 512"
definition ETH_MODULE_SFF_8636_LEN :: u32 where "ETH_MODULE_SFF_8636_LEN = 256"
definition ETH_MODULE_SFF_8436_LEN :: u32 where "ETH_MODULE_SFF_8436_LEN = 256"
definition ETHTOOL_GMODULEEEPROM :: u32 where "ETHTOOL_GMODULEEEPROM = 0x43"

type_synonym buffer = "u8 option list"

definition qsfp_id :: "u8 \<Rightarrow> bool" where
  "qsfp_id b \<longleftrightarrow> b = 0x03 \<or> b = 0x0C \<or> b = 0x0D \<or> b = 0x11"

definition xeth_qsfp_peek :: "i2c \<Rightarrow> nat option \<Rightarrow> u16 \<Rightarrow> int outcome" where
  "xeth_qsfp_peek ic adapter addr =
     (case adapter of
        None \<Rightarrow> Inl Null_deref
      | Some a \<Rightarrow>
          if \<not> i2c_check_functionality ic a then Inr (- ENXIO)
          else let (err, b) = i2c_smbus_xfer ic a addr in
               if err < 0 then Inr (- ENXIO)
               else if qsfp_id b then Inr (uint b) else Inr (- ENXIO))"

text \<open>The loop of byte reads; the command is a byte, so that the offset wraps at 256.\<close>

fun bload_loop :: "i2c \<Rightarrow> nat \<Rightarrow> u32 \<Rightarrow> nat \<Rightarrow> nat \<Rightarrow> buffer \<Rightarrow> (nat \<times> buffer) outcome" where
  "bload_loop ic qsfp ofs i 0 data = Inr (i, data)"
| "bload_loop ic qsfp ofs i (Suc n) data =
     (let r = i2c_smbus_read_byte_data ic qsfp i (ucast (ofs + of_nat i)) in
      if r < 0 then Inr (i, data)
      else if i < length data then bload_loop ic qsfp ofs (Suc i) n (data[i := Some (of_int r)])
      else Inl Out_of_bounds)"

definition xeth_qsfp_bload :: "i2c \<Rightarrow> nat \<Rightarrow> buffer \<Rightarrow> u32 \<Rightarrow> nat \<Rightarrow> (int \<times> buffer) outcome" where
  "xeth_qsfp_bload ic qsfp data ofs n = bindR (bload_loop ic qsfp ofs 0 n data) (\<lambda>(i, data). Inr (int i, data))"

text \<open>One combined transfer of two messages, the offset and the data.\<close>

definition xeth_qsfp_xload :: "i2c \<Rightarrow> nat \<Rightarrow> buffer \<Rightarrow> u32 \<Rightarrow> nat \<Rightarrow> (int \<times> buffer) outcome" where
  "xeth_qsfp_xload ic qsfp data ofs n =
     (let (err, bytes) = i2c_transfer ic qsfp (ucast ofs) n
      in if length data < length bytes then Inl Out_of_bounds
         else Inr (if err < 0 then err else if err = 2 then int n else 0,
                   map Some bytes @ drop (length bytes) data))"

definition xeth_qsfp_load :: "i2c \<Rightarrow> nat \<Rightarrow> buffer \<Rightarrow> u32 \<Rightarrow> nat \<Rightarrow> (int \<times> buffer) outcome" where
  "xeth_qsfp_load ic qsfp data ofs n =
     (if i2c_master_xfer ic qsfp then xeth_qsfp_xload ic qsfp data ofs n else xeth_qsfp_bload ic qsfp data ofs n)"

definition read_buf :: "buffer \<Rightarrow> nat \<Rightarrow> u8 outcome" where
  "read_buf b i = (if i < length b then (case b ! i of Some x \<Rightarrow> Inr x | None \<Rightarrow> Inl Uninitialized) else Inl Out_of_bounds)"

text \<open>The type and the length of the memory of a module, by its identifier and revision.\<close>

definition module_type :: "u8 \<Rightarrow> u8 outcome \<Rightarrow> (int \<times> (u32 \<times> u32) option) outcome" where
  "module_type ident revision =
     (if ident = 0x03 then Inr (0, Some (ETH_MODULE_SFF_8472, ETH_MODULE_SFF_8472_LEN))
      else if ident = 0x0C then Inr (0, Some (ETH_MODULE_SFF_8436, ETH_MODULE_SFF_8436_LEN))
      else if ident = 0x0D
      then bindR revision (\<lambda>r. if 3 \<le> r then Inr (0, Some (ETH_MODULE_SFF_8636, ETH_MODULE_SFF_8636_LEN))
                          else Inr (0, Some (ETH_MODULE_SFF_8436, ETH_MODULE_SFF_8436_LEN)))
      else if ident = 0x11 then Inr (0, Some (ETH_MODULE_SFF_8636, ETH_MODULE_SFF_8636_LEN))
      else Inr (- EINVAL, None))"

definition xeth_qsfp_get_module_info :: "i2c \<Rightarrow> nat \<Rightarrow> (int \<times> (u32 \<times> u32) option) outcome" where
  "xeth_qsfp_get_module_info ic qsfp =
     bindR (xeth_qsfp_load ic qsfp [None, None] 0 2) (\<lambda>(err, b).
       if err < 0 then Inr (err, None)
       else bindR (read_buf b 0) (\<lambda>ident. module_type ident (read_buf b 1)))"

record ethtool_eeprom =
  ee_cmd :: u32
  ee_offset :: u32
  ee_len :: nat

definition xeth_qsfp_get_module_eeprom :: "i2c \<Rightarrow> nat \<Rightarrow> ethtool_eeprom \<Rightarrow> buffer \<Rightarrow> (int \<times> buffer) outcome" where
  "xeth_qsfp_get_module_eeprom ic qsfp ee data =
     (if ee_cmd ee \<noteq> ETHTOOL_GMODULEEEPROM then Inr (- EOPNOTSUPP, data)
      else if ee_len ee = 0 then Inr (- EINVAL, data)
      else bindR (xeth_qsfp_load ic qsfp data (ee_offset ee) (ee_len ee)) (\<lambda>(err, data).
             Inr (if err < 0 then err else 0, data)))"

text \<open>The first address, before the end mark, that answers with a known identifier and gets a client.\<close>

fun client_loop :: "i2c \<Rightarrow> nat option \<Rightarrow> u16 list \<Rightarrow> nat option outcome" where
  "client_loop ic adapter [] = Inl Out_of_bounds"
| "client_loop ic adapter (addr # addrs) =
     (if addr = I2C_CLIENT_END then Inr None
      else bindR (xeth_qsfp_peek ic adapter addr) (\<lambda>ident.
        case (if ident > 0 then i2c_new_client_device ic (the adapter) addr else None) of
          Some cl \<Rightarrow> Inr (Some cl)
        | None \<Rightarrow> client_loop ic adapter addrs))"

definition xeth_qsfp_client :: "i2c \<Rightarrow> int \<Rightarrow> u16 list \<Rightarrow> nat option outcome" where
  "xeth_qsfp_client ic nr addrs = client_loop ic (i2c_get_adapter ic nr) addrs"

definition xeth_mux_qsfp_i2c_addrs :: "ndp \<Rightarrow> world \<Rightarrow> u16 list" where
  "xeth_mux_qsfp_i2c_addrs m w = mx_qsfp_i2c_addrs (w_mux w m)"

section \<open>The operations of a port\<close>

definition port_qsfp :: "ndp \<Rightarrow> world \<Rightarrow> nat option outcome" where
  "port_qsfp nd w = (case pp_ext (w_port w nd) of None \<Rightarrow> Inl Out_of_bounds | Some e \<Rightarrow> Inr (ext_qsfp e))"

definition xeth_port_get_module_info :: "kapi \<Rightarrow> ndp \<Rightarrow> world \<Rightarrow> (int \<times> (u32 \<times> u32) option) outcome" where
  "xeth_port_get_module_info k nd w =
     bindR (port_qsfp nd w) (\<lambda>q. case q of
         Some c \<Rightarrow> xeth_qsfp_get_module_info (k_i2c k (w_trace w)) c | None \<Rightarrow> Inr (- ENXIO, None))"

definition xeth_port_get_module_eeprom :: "kapi \<Rightarrow> ndp \<Rightarrow> ethtool_eeprom \<Rightarrow> buffer \<Rightarrow> world \<Rightarrow> (int \<times> buffer) outcome" where
  "xeth_port_get_module_eeprom k nd ee data w =
     bindR (port_qsfp nd w) (\<lambda>q. case q of
         Some c \<Rightarrow> xeth_qsfp_get_module_eeprom (k_i2c k (w_trace w)) c ee data | None \<Rightarrow> Inr (- ENXIO, data))"

section \<open>Properties\<close>

text \<open>The byte that the i-th read of a load asks for.\<close>

abbreviation qsfp_byte :: "i2c \<Rightarrow> nat \<Rightarrow> u32 \<Rightarrow> nat \<Rightarrow> int" where
  "qsfp_byte ic c ofs i \<equiv> i2c_smbus_read_byte_data ic c i (ucast (ofs + of_nat i))"

lemma bload_loop_spec:
  assumes "i + n \<le> length data"
  shows "\<exists>r data'. bload_loop ic c ofs i n data = Inr (r, data') \<and> i \<le> r \<and> r \<le> i + n \<and> length data' = length data
    \<and> (\<forall>j. i \<le> j \<and> j < r \<longrightarrow> 0 \<le> qsfp_byte ic c ofs j \<and> data' ! j = Some (of_int (qsfp_byte ic c ofs j)))
    \<and> (\<forall>j. j < i \<or> r \<le> j \<longrightarrow> data' ! j = data ! j)
    \<and> (r < i + n \<longrightarrow> qsfp_byte ic c ofs r < 0)"
  using assms
proof (induction n arbitrary: i data)
  case (Suc n)
  show ?case
  proof (cases "qsfp_byte ic c ofs i < 0")
    case True
    then show ?thesis by (intro exI[of _ i] exI[of _ data]) (auto simp: Let_def)
  next
    case False
    let ?d = "data[i := Some (of_int (qsfp_byte ic c ofs i))]"
    from Suc.IH[of "Suc i" ?d] Suc.prems obtain r d' where
      d': "bload_loop ic c ofs (Suc i) n ?d = Inr (r, d')" "Suc i \<le> r" "r \<le> i + Suc n" "length d' = length data"
        "\<And>j. Suc i \<le> j \<Longrightarrow> j < r \<Longrightarrow> 0 \<le> qsfp_byte ic c ofs j \<and> d' ! j = Some (of_int (qsfp_byte ic c ofs j))"
        "\<And>j. j < Suc i \<or> r \<le> j \<Longrightarrow> d' ! j = ?d ! j" "r < i + Suc n \<Longrightarrow> qsfp_byte ic c ofs r < 0" by auto
    have "0 \<le> qsfp_byte ic c ofs j \<and> d' ! j = Some (of_int (qsfp_byte ic c ofs j))" if "i \<le> j" "j < r" for j
      using d'(5)[of j] d'(6)[of i] that False Suc.prems by (cases "j = i") simp_all
    moreover have "d' ! j = data ! j" if "j < i \<or> r \<le> j" for j using d'(2) d'(6)[of j] that by auto
    ultimately show ?thesis
      using d' False Suc.prems by (intro exI[of _ r] exI[of _ d']) (simp add: Let_def)
  qed
qed auto

text \<open>
  C33: Reading the memory of a module byte by byte, into a buffer that is large enough, stays in the
  buffer and returns zero in every case: the bytes before the first failing read are those of the
  module at the offset modulo 256, the others are left as they were, and the failure is not reported.
\<close>

theorem eeprom_bytes_correct:
  assumes "\<not> i2c_master_xfer ic c" and "ee_cmd ee = ETHTOOL_GMODULEEEPROM" and "0 < ee_len ee" and "ee_len ee \<le> length data"
  shows "\<exists>r data'. xeth_qsfp_get_module_eeprom ic c ee data = Inr (0, data') \<and> r \<le> ee_len ee \<and> length data' = length data
    \<and> (\<forall>j < r. 0 \<le> qsfp_byte ic c (ee_offset ee) j \<and> data' ! j = Some (of_int (qsfp_byte ic c (ee_offset ee) j)))
    \<and> (\<forall>j \<ge> r. data' ! j = data ! j) \<and> (r < ee_len ee \<longrightarrow> qsfp_byte ic c (ee_offset ee) r < 0)"
proof -
  from bload_loop_spec[of 0 "ee_len ee" data ic c "ee_offset ee"] assms(4) obtain r d' where
    d': "bload_loop ic c (ee_offset ee) 0 (ee_len ee) data = Inr (r, d')" "r \<le> ee_len ee" "length d' = length data"
      "\<forall>j < r. 0 \<le> qsfp_byte ic c (ee_offset ee) j \<and> d' ! j = Some (of_int (qsfp_byte ic c (ee_offset ee) j))"
      "\<forall>j \<ge> r. d' ! j = data ! j" "r < ee_len ee \<longrightarrow> qsfp_byte ic c (ee_offset ee) r < 0" by auto
  from d'(1) assms have "xeth_qsfp_get_module_eeprom ic c ee data = Inr (0, d')"
    by (simp add: xeth_qsfp_get_module_eeprom_def xeth_qsfp_load_def xeth_qsfp_bload_def)
  with d' show ?thesis by blast
qed

theorem eeprom_bytes_correct_witness:
  "\<exists>data'. xeth_qsfp_get_module_eeprom sample_i2c 7 \<lparr>ee_cmd = 0x43, ee_offset = 254, ee_len = 3\<rparr> [None, None, None] = Inr (0, data')
     \<and> data' ! 0 = Some 254 \<and> data' ! 2 = Some 0"
proof -
  let ?ee = "\<lparr>ee_cmd = 0x43, ee_offset = 254, ee_len = 3\<rparr>"
  have b: "qsfp_byte sample_i2c 7 254 j = uint (ucast (254 + of_nat j :: u32) :: u8)" for j by (simp add: sample_i2c_def)
  have c: "0 \<le> qsfp_byte sample_i2c 7 254 j" for j unfolding b by simp
  have "\<not> i2c_master_xfer sample_i2c 7" by (simp add: sample_i2c_def)
  with eeprom_bytes_correct[of sample_i2c 7 ?ee "[None, None, None]"] obtain r data' where
    d: "xeth_qsfp_get_module_eeprom sample_i2c 7 ?ee [None, None, None] = Inr (0, data')" "r \<le> 3"
      "\<forall>j < r. data' ! j = Some (of_int (qsfp_byte sample_i2c 7 254 j))" "r < 3 \<longrightarrow> qsfp_byte sample_i2c 7 254 r < 0"
    by (auto simp: ETHTOOL_GMODULEEEPROM_def)
  with c[of r] have "r = 3" by (cases "r < 3") auto
  with d b show ?thesis by (intro exI[of _ data']) auto
qed

text \<open>
  The type of a module whose first byte cannot be read is taken from an uninitialised variable: the
  byte wise load reports the number of bytes that it got and never an error, which is all that the
  caller tests for.
\<close>

theorem module_info_of_dead_module:
  assumes "\<not> i2c_master_xfer ic c" and "i2c_smbus_read_byte_data ic c 0 0 < 0"
  shows "xeth_qsfp_get_module_info ic c = Inl Uninitialized"
  using assms by (simp add: xeth_qsfp_get_module_info_def xeth_qsfp_load_def xeth_qsfp_bload_def eval_nat_numeral read_buf_def)

theorem module_info_of_dead_module_witness:
  "xeth_qsfp_get_module_info (sample_i2c\<lparr>i2c_smbus_read_byte_data := \<lambda>c i cmd. - 5\<rparr>) 7 = Inl Uninitialized"
  by (rule module_info_of_dead_module) (simp_all add: sample_i2c_def)

text \<open>The address at which a module answers with a known identifier.\<close>

definition answers :: "i2c \<Rightarrow> nat \<Rightarrow> u16 \<Rightarrow> bool" where
  "answers ic a addr \<longleftrightarrow> i2c_check_functionality ic a \<and> 0 \<le> fst (i2c_smbus_xfer ic a addr) \<and> qsfp_id (snd (i2c_smbus_xfer ic a addr))
     \<and> i2c_new_client_device ic a addr \<noteq> None"

lemma client_loop_spec:
  assumes "I2C_CLIENT_END \<notin> set as"
  shows "client_loop ic (Some a) (as @ I2C_CLIENT_END # bs) =
    Inr (case find (answers ic a) as of None \<Rightarrow> None | Some addr \<Rightarrow> i2c_new_client_device ic a addr)"
  using assms
proof (induction as)
  case (Cons x as)
  have "\<exists>e. xeth_qsfp_peek ic (Some a) x = Inr e \<and>
      (0 < e \<longleftrightarrow> i2c_check_functionality ic a \<and> 0 \<le> fst (i2c_smbus_xfer ic a x) \<and> qsfp_id (snd (i2c_smbus_xfer ic a x)))"
    by (cases "i2c_smbus_xfer ic a x") (auto simp: xeth_qsfp_peek_def qsfp_id_def)
  with Cons show ?case by (auto simp: answers_def split: option.splits)
qed simp

text \<open>
  C34: The client of a transceiver is the one of the first configured address that answers with a known
  identifier, the rest of the list beyond the end mark is never read, and without an adapter for the
  bus the search goes through NULL.
\<close>

theorem qsfp_client_first_answer:
  assumes "I2C_CLIENT_END \<notin> set as"
  shows "case i2c_get_adapter ic nr of
      Some a \<Rightarrow> xeth_qsfp_client ic nr (as @ I2C_CLIENT_END # bs) =
        Inr (case find (answers ic a) as of None \<Rightarrow> None | Some addr \<Rightarrow> i2c_new_client_device ic a addr)
    | None \<Rightarrow> as \<noteq> [] \<longrightarrow> xeth_qsfp_client ic nr (as @ I2C_CLIENT_END # bs) = Inl Null_deref"
  using assms client_loop_spec[OF assms]
  by (cases as) (auto simp: xeth_qsfp_client_def xeth_qsfp_peek_def split: option.split)

theorem qsfp_client_first_answer_witness:
  "xeth_qsfp_client sample_i2c 3 ([0x50, 0x51] @ I2C_CLIENT_END # []) = Inr (Some 181)"
  using qsfp_client_first_answer[of "[0x50, 0x51]" sample_i2c 3 "[]"]
  by (simp add: sample_i2c_def I2C_CLIENT_END_def answers_def qsfp_id_def)

end
