(* ===== verification/Xeth_Newlink.thy ===== *)
theory Xeth_Newlink
  imports Xeth_Dev Xeth_Qsfp
begin

text \<open>
  Creation and deletion of links through rtnetlink, for every kind of device, and of the ports that the
  platform driver makes (\<^verbatim>\<open>dkms/xeth_port.c\<close>, \<^verbatim>\<open>xeth_vlan.c\<close>, \<^verbatim>\<open>xeth_lb.c\<close>, \<^verbatim>\<open>xeth_lag.c\<close>, \<^verbatim>\<open>xeth_bridge.c\<close> and
  \<^verbatim>\<open>xeth_mux.c\<close>). A failed lookup of a link returns a NULL pointer, whose \<^verbatim>\<open>PTR_ERR\<close> is zero.
\<close>

section \<open>Validation of a request\<close>

definition has_link :: "nl_tb option \<Rightarrow> bool" where
  "has_link tb = (case tb of None \<Rightarrow> False | Some t \<Rightarrow> IFLA_LINK t \<noteq> None)"

definition has_address :: "nl_tb option \<Rightarrow> bool" where
  "has_address tb = (case tb of None \<Rightarrow> False | Some t \<Rightarrow> IFLA_ADDRESS t \<noteq> None)"

definition has_ifname :: "nl_tb option \<Rightarrow> bool" where
  "has_ifname tb = (case tb of None \<Rightarrow> False | Some t \<Rightarrow> IFLA_IFNAME t \<noteq> None)"

definition attr :: "nl_data option \<Rightarrow> (nl_data \<Rightarrow> 'a option) \<Rightarrow> 'a option" where
  "attr data f = (case data of None \<Rightarrow> None | Some d \<Rightarrow> f d)"

definition nla_link :: "nl_tb option \<Rightarrow> u32 outcome" where
  "nla_link tb = (case tb of None \<Rightarrow> Inl Null_deref
     | Some t \<Rightarrow> (case IFLA_LINK t of None \<Rightarrow> Inl Null_deref | Some l \<Rightarrow> Inr l))"

definition xeth_port_validate :: "nl_tb option \<Rightarrow> nl_data option \<Rightarrow> int" where
  "xeth_port_validate tb data =
     (if \<not> has_link tb then - EINVAL
      else if attr data XETH_PORT_IFLA_XID = Some 0 then - ERANGE else 0)"

definition vid_ok :: "u16 \<Rightarrow> bool" where
  "vid_ok vid \<longleftrightarrow> 1 \<le> unat vid \<and> unat vid < VLAN_N_VID"

definition xeth_vlan_validate :: "nl_tb option \<Rightarrow> nl_data option \<Rightarrow> int" where
  "xeth_vlan_validate tb data =
     (if \<not> has_link tb then - EINVAL
      else if \<not> has_ifname tb then - EINVAL
      else if has_address tb then - EOPNOTSUPP
      else case attr data XETH_VLAN_IFLA_VID of
             Some vid \<Rightarrow> if \<not> vid_ok vid then - ERANGE else 0
           | None \<Rightarrow> 0)"

definition xeth_lb_validate :: "nl_tb option \<Rightarrow> nl_data option \<Rightarrow> int" where
  "xeth_lb_validate tb data =
     (if \<not> has_link tb then - EINVAL else if has_address tb then - EOPNOTSUPP else 0)"

definition xeth_lag_validate :: "nl_tb option \<Rightarrow> nl_data option \<Rightarrow> int" where
  "xeth_lag_validate tb data =
     (if \<not> has_link tb then - EINVAL else if has_address tb then - EOPNOTSUPP else 0)"

definition xeth_bridge_validate :: "nl_tb option \<Rightarrow> nl_data option \<Rightarrow> int" where
  "xeth_bridge_validate tb data =
     (if \<not> has_link tb then - EINVAL else if has_address tb then - EOPNOTSUPP else 0)"

section \<open>Ports\<close>

text \<open>\<^verbatim>\<open>%u\<close> of \<^verbatim>\<open>scnprintf\<close>.\<close>

fun dec_digits :: "nat \<Rightarrow> string" where
  "dec_digits n = (if n < 10 then [char_of (48 + n)] else dec_digits (n div 10) @ [char_of (48 + n mod 10)])"

declare dec_digits.simps [simp del]

definition inherit_mtu :: "ndp \<Rightarrow> ndp \<Rightarrow> world \<Rightarrow> world" where
  "inherit_mtu nd from w =
     upd_nd nd (\<lambda>d. d\<lparr>nd_min_mtu := nd_min_mtu (w_nd w from), nd_max_mtu := nd_max_mtu (w_nd w from)\<rparr>) w"

definition set_xid :: "ndp \<Rightarrow> u32 \<Rightarrow> world \<Rightarrow> world" where
  "set_xid nd xid w = upd_proxy nd (\<lambda>px. px\<lparr>px_xid := xid\<rparr>) w"

definition set_proxy :: "ndp \<Rightarrow> ndp option \<Rightarrow> world \<Rightarrow> world" where
  "set_proxy nd m w = upd_proxy nd (\<lambda>px. px\<lparr>px_nd := nd, px_mux := m\<rparr>) w"

text \<open>What follows the choice of the XID: the name, the table and the registration.\<close>

definition port_newlink_with :: "kapi \<Rightarrow> ndp \<Rightarrow> nl_tb option \<Rightarrow> u32 \<Rightarrow> world \<Rightarrow> (int \<times> world) outcome" where
  "port_newlink_with k nd tb xid w =
     (let w = set_xid nd xid w;
          w = (if has_ifname tb then w
               else upd_nd nd (\<lambda>d. d\<lparr>nd_name := take (IFNAMSIZ - 1) (''xeth-port'' @ dec_digits (unat xid))\<rparr>) w)
      in bindR (xeth_mux_add_proxy k nd w) (\<lambda>w.
         bindR (register_netdevice k nd w) (\<lambda>(err, w).
           if err \<noteq> 0 then bindR (xeth_mux_del_proxy nd w) (\<lambda>w. Inr (err, w))
           else xeth_sbtx_ifinfo k nd 0 XETH_IFINFO_REASON_NEW w)))"

text \<open>The device found by its index is used as the mux with no test of the pointer.\<close>

definition xeth_port_newlink ::
    "nat \<Rightarrow> kapi \<Rightarrow> ndp \<Rightarrow> nl_tb option \<Rightarrow> nl_data option \<Rightarrow> world \<Rightarrow> (int \<times> world) outcome option" where
  "xeth_port_newlink fuel k nd tb data w =
     (case nla_link tb of
        Inl e \<Rightarrow> Some (Inl e)
      | Inr link \<Rightarrow>
          (case k_dev_get_by_index k (nd_net (w_nd w nd)) link of
             None \<Rightarrow> Some (Inl Null_deref)
           | Some m \<Rightarrow>
               (let w = inherit_mtu nd m (set_proxy nd (Some m) w);
                    w = upd_port nd (\<lambda>pp. pp\<lparr>pp_port := - 1, pp_subport := - 1\<rparr>) w
                in case attr data XETH_PORT_IFLA_XID of
                     Some x \<Rightarrow> Some (port_newlink_with k nd tb (ucast x) w)
                   | None \<Rightarrow> map_option (\<lambda>xid. port_newlink_with k nd tb xid w)
                               (find_xid_down fuel k m w xeth_port_top_vid))))"

text \<open>The part of \<^verbatim>\<open>dellink\<close> that ports, vlans and lags share: leaving the master.\<close>

definition leave_master :: "kapi \<Rightarrow> ndp \<Rightarrow> world \<Rightarrow> world outcome" where
  "leave_master k nd w =
     (case nd_master (w_nd w nd) of
        None \<Rightarrow> Inr w
      | Some upper \<Rightarrow> ndo_del_slave k (nd_netdev_ops (w_nd w upper)) upper nd w)"

definition xeth_port_dellink :: "kapi \<Rightarrow> ndp \<Rightarrow> world \<Rightarrow> world outcome" where
  "xeth_port_dellink k nd w =
     bindR (proxy_mux nd w) (\<lambda>m.
     bindR (leave_master k nd (xeth_mux_del_vlans m nd w)) (\<lambda>w.
     Inr (unregister_netdevice_queue nd w)))"

section \<open>Ports of the platform driver\<close>

record platform_device =
  pd_id :: int
  pd_id_auto :: bool
  pd_index :: "u32 option"
  pd_mac_address :: "u8 list option"
  pd_qsfp_bus :: "u8 option"

definition xeth_port_index_prop :: "platform_device \<Rightarrow> int" where
  "xeth_port_index_prop pd =
     (if pd_id pd \<ge> 0 \<and> \<not> pd_id_auto pd then pd_id pd
      else case pd_index pd of None \<Rightarrow> - EINVAL | Some v \<Rightarrow> sint v)"

definition xeth_port_addr_prop :: "platform_device \<Rightarrow> u8 list" where
  "xeth_port_addr_prop pd = (case pd_mac_address pd of Some a \<Rightarrow> a | None \<Rightarrow> replicate 6 0)"

definition xeth_port_qsfp_bus_prop :: "platform_device \<Rightarrow> u8" where
  "xeth_port_qsfp_bus_prop pd = (case pd_qsfp_bus pd of None \<Rightarrow> 0 | Some v \<Rightarrow> v)"

definition xeth_port_qsfp :: "kapi \<Rightarrow> ndp \<Rightarrow> ndp \<Rightarrow> u8 \<Rightarrow> world \<Rightarrow> world outcome" where
  "xeth_port_qsfp k nd m bus w =
     (let port = pp_port (w_port w nd) in
      case (xeth_mux_qsfp_absent_gpio m port w, xeth_mux_qsfp_reset_gpio m port w) of
        (Some absent, Some reset) \<Rightarrow>
          if k_gpio_get k (w_trace w) absent then Inr w
          else let w = gpio_set (Some reset) 0 w
               in bindR (xeth_qsfp_client (k_i2c k (w_trace w)) (uint bus) (xeth_mux_qsfp_i2c_addrs m w)) (\<lambda>cl.
                  Inr (upd_ext nd (\<lambda>e. e\<lparr>ext_qsfp := cl\<rparr>) w))
      | _ \<Rightarrow> Inr w)"

text \<open>
  \<^verbatim>\<open>alloc_netdev_mqs\<close> returns zeroed memory after it has called the setup function; the extension of the
  private data is allocated for ports without subports and for the first subport.
\<close>

definition blank_nd :: "string \<Rightarrow> netp \<Rightarrow> u32 \<Rightarrow> net_device" where
  "blank_nd name net ifindex = \<lparr>nd_name = name, nd_ifindex = ifindex, nd_flags = 0, nd_priv_flags = 0, nd_features = 0,
     nd_hw_features = 0, nd_mtu = 0, nd_min_mtu = 0, nd_max_mtu = 0, nd_dev_addr = replicate 6 0, nd_carrier = False,
     nd_netdev_ops = other_ndo, nd_rtnl_link_ops = other_lnko, nd_net = net, nd_master = None, nd_lowers = [],
     nd_rx_handler_data = None, nd_promiscuity = 0, nd_registered = False, nd_ifas = None, nd_ifa6s = None\<rparr>"

definition blank_ksettings :: ethtool_link_ksettings where
  "blank_ksettings = \<lparr>ks_speed = 0, ks_duplex = 0, ks_port = 0, ks_phy_address = 0, ks_autoneg = 0, ks_mdio_support = 0,
     ks_eth_tp_mdix = 0, ks_eth_tp_mdix_ctrl = 0, ks_supported = {}, ks_advertising = {}\<rparr>"

definition alloc_port :: "ndp \<Rightarrow> string \<Rightarrow> bool \<Rightarrow> world \<Rightarrow> world" where
  "alloc_port nd name ext w =
     xeth_port_setup nd (w\<lparr>w_nd := (w_nd w)(nd := blank_nd name init_net (nd_ifindex (w_nd w nd))),
       w_proxy := (w_proxy w)(nd := \<lparr>px_nd = 0, px_mux = None, px_link_stats = replicate XETH_N_LINK_STAT 0,
         px_kind = XETH_DEV_KIND_UNSPEC, px_xid = 0\<rparr>),
       w_port := (w_port w)(nd := \<lparr>pp_port = 0, pp_subport = 0, pp_ksettings = blank_ksettings,
         pp_ext = (if ext then Some \<lparr>ext_qsfp = None, ext_priv_flags = 0, ext_stats = replicate xeth_mux_max_stats 0\<rparr>
                   else None)\<rparr>)\<rparr>)"

definition port_xid :: "u16 \<Rightarrow> int \<Rightarrow> int \<Rightarrow> u32" where
  "port_xid ports port subport =
     (let xid = xeth_port_top_vid - of_int port
      in if subport \<ge> 0 then xid - of_int (subport * int (unat ports)) else xid)"

text \<open>\<open>nd\<close> is the device that \<^verbatim>\<open>alloc_netdev_mqs\<close> returns, if any.\<close>

definition xeth_port ::
    "kapi \<Rightarrow> ndp option \<Rightarrow> platform_device \<Rightarrow> ndp \<Rightarrow> string \<Rightarrow> int \<Rightarrow> int \<Rightarrow> u8 list \<Rightarrow> world \<Rightarrow> (int \<times> world) outcome" where
  "xeth_port k alloc pd m ifname port subport addr w =
     (case alloc of
        None \<Rightarrow> Inr (- ENOMEM, w)
      | Some nd \<Rightarrow>
          (let w = alloc_port nd ifname (subport \<le> 0) w;
               w = set_proxy nd (Some m) w;
               w = set_xid nd (port_xid (mx_n_ports (w_mux w m)) port subport) w;
               w = inherit_mtu nd m w;
               w = (if addr \<noteq> replicate 6 0 then upd_nd nd (\<lambda>d. d\<lparr>nd_dev_addr := addr\<rparr>) w else eth_hw_addr_random k nd w);
               w = upd_port nd (\<lambda>pp. pp\<lparr>pp_port := port, pp_subport := subport\<rparr>) w;
               bus = xeth_port_qsfp_bus_prop pd
           in bindR (if subport \<le> 0 \<and> bus \<noteq> 0 then xeth_port_qsfp k nd m bus w else Inr w) (\<lambda>w.
              let w = upd_port nd (\<lambda>pp. pp\<lparr>pp_ksettings :=
                     (if subport < 0 then xeth_port_ksettings else xeth_subport_ksettings) (pp_ksettings pp)\<rparr>) w
              in bindR (xeth_mux_add_proxy k nd w) (\<lambda>w.
              bindR (register_netdevice k nd w) (\<lambda>(err, w).
                if err \<noteq> 0 then bindR (xeth_mux_del_proxy nd w) (\<lambda>w. Inr (err, log_event (Ev_free_netdev nd) w)) else Inr (err, w))))))"

section \<open>Vlans\<close>

text \<open>The number after the first dot of the name, narrowed to 16 bits; without a dot it is not set.\<close>

definition vid_of_name :: "kapi \<Rightarrow> string \<Rightarrow> (int \<times> u16) outcome" where
  "vid_of_name k name =
     (case dropWhile (\<lambda>c. c \<noteq> CHR ''.'') (take IFNAMSIZ name) of
        [] \<Rightarrow> Inl Uninitialized
      | dot # rest \<Rightarrow> (let (err, ull) = k_kstrtoull k rest in Inr (err, ucast ull)))"

definition vlan_xid :: "xeth_encap \<Rightarrow> u32 \<Rightarrow> u16 \<Rightarrow> u32" where
  "vlan_xid encap xid vid =
     (case encap of
        XETH_ENCAP_VLAN \<Rightarrow> xid OR push_bit XETH_ENCAP_VLAN_VID_BIT (ucast vid)
      | XETH_ENCAP_VPLS \<Rightarrow> xid OR push_bit XETH_ENCAP_VPLS_VID_BIT (ucast vid))"

definition eth_hw_addr_inherit :: "ndp \<Rightarrow> ndp \<Rightarrow> world \<Rightarrow> world" where
  "eth_hw_addr_inherit nd link w = upd_nd nd (\<lambda>d. d\<lparr>nd_dev_addr := nd_dev_addr (w_nd w link)\<rparr>) w"

text \<open>The end that vlans and loopback devices share: table, registration, report.\<close>

definition add_and_register :: "kapi \<Rightarrow> ndp \<Rightarrow> world \<Rightarrow> (int \<times> world) outcome" where
  "add_and_register k nd w =
     bindR (xeth_mux_add_proxy k nd w) (\<lambda>w.
     bindR (register_netdevice k nd w) (\<lambda>(err, w).
     bindR (if err = 0 then xeth_sbtx_ifinfo k nd 0 XETH_IFINFO_REASON_NEW w else Inr (err, w)) (\<lambda>(err, w).
       if err \<noteq> 0 then bindR (xeth_mux_del_proxy nd w) (\<lambda>w. Inr (err, w)) else Inr (err, w))))"

definition vlan_newlink_with :: "kapi \<Rightarrow> ndp \<Rightarrow> ndp \<Rightarrow> u16 \<Rightarrow> world \<Rightarrow> (int \<times> world) outcome" where
  "vlan_newlink_with k nd link vid w =
     (if \<not> vid_ok vid then Inr (- ERANGE, w)
      else let w = eth_hw_addr_inherit nd link w; lpx = w_proxy w link in
      case px_mux lpx of
        None \<Rightarrow> Inl Null_deref
      | Some m \<Rightarrow>
          (let w = upd_proxy nd (\<lambda>px. px\<lparr>px_mux := Some m,
                     px_xid := vlan_xid (mx_encap (w_mux w m)) (px_xid lpx) vid\<rparr>) w
           in add_and_register k nd (inherit_mtu nd link w)))"

definition xeth_vlan_newlink :: "kapi \<Rightarrow> ndp \<Rightarrow> nl_tb option \<Rightarrow> nl_data option \<Rightarrow> world \<Rightarrow> (int \<times> world) outcome" where
  "xeth_vlan_newlink k nd tb data w =
     (let w = upd_proxy nd (\<lambda>px. px\<lparr>px_nd := nd\<rparr>) w in
      bindR (nla_link tb) (\<lambda>ifx.
      let lnk = k_dev_get_by_index k (nd_net (w_nd w nd)) ifx;
          w = w\<lparr>w_vlan_link := (w_vlan_link w)(nd := lnk)\<rparr>
      in case lnk of
        None \<Rightarrow> Inr (0, w)
      | Some link \<Rightarrow>
          if \<not> is_xeth_port (w_nd w link) \<and> \<not> is_xeth_lag (w_nd w link) then Inr (- EINVAL, w)
          else case attr data XETH_VLAN_IFLA_VID of
                 Some vid \<Rightarrow> vlan_newlink_with k nd link vid w
               | None \<Rightarrow>
                   bindR (vid_of_name k (nd_name (w_nd w nd))) (\<lambda>(err, vid).
                     if err \<noteq> 0 then Inr (err, w) else vlan_newlink_with k nd link vid w)))"

definition xeth_vlan_dellink :: "kapi \<Rightarrow> ndp \<Rightarrow> world \<Rightarrow> world outcome" where
  "xeth_vlan_dellink k nd w =
     bindR (leave_master k nd w) (\<lambda>w. Inr (unregister_netdevice_queue nd w))"

text \<open>The XID of the link and the vlan number, as \<^verbatim>\<open>xeth_vlan_get_drvinfo\<close> takes them from the XID.\<close>

definition vlan_xid_vid :: "xeth_encap \<Rightarrow> u32 \<Rightarrow> u32 \<times> u16" where
  "vlan_xid_vid encap xid =
     (case encap of
        XETH_ENCAP_VLAN \<Rightarrow> (xid AND XETH_ENCAP_VLAN_VID_MASK, ucast (drop_bit XETH_ENCAP_VLAN_VID_BIT xid))
      | XETH_ENCAP_VPLS \<Rightarrow> (xid AND XETH_ENCAP_VPLS_VID_MASK, ucast (drop_bit XETH_ENCAP_VPLS_VID_BIT xid)))"

section \<open>Loopback devices\<close>

definition xeth_lb_newlink :: "kapi \<Rightarrow> ndp \<Rightarrow> nl_tb option \<Rightarrow> nl_data option \<Rightarrow> world \<Rightarrow> (int \<times> world) outcome" where
  "xeth_lb_newlink k nd tb data w =
     bindR (nla_link tb) (\<lambda>ifx.
       let mux = k_dev_get_by_index k (nd_net (w_nd w nd)) ifx; w = set_proxy nd mux w in
       case mux of
         None \<Rightarrow> Inr (0, w)
       | Some m \<Rightarrow>
           if \<not> is_xeth_mux (w_nd w m) then Inr (- EINVAL, w)
           else let w = inherit_mtu nd m w;
                    w = (case attr data XETH_LB_IFLA_CHANNEL of
                           Some c \<Rightarrow> w\<lparr>w_lb_chan := (w_lb_chan w)(nd := ucast c)\<rparr> | None \<Rightarrow> w)
                in case find_xid_up k m w 3000 of
                     None \<Rightarrow> Inr (- ENODEV, set_xid nd 4095 w)
                   | Some xid \<Rightarrow> add_and_register k nd (set_xid nd xid w))"

definition xeth_lb_dellink :: "ndp \<Rightarrow> world \<Rightarrow> world" where
  "xeth_lb_dellink nd w = unregister_netdevice_queue nd w"

section \<open>Lags and bridges\<close>

definition upper_prepare :: "ndp \<Rightarrow> ndp \<Rightarrow> world \<Rightarrow> world" where
  "upper_prepare nd link w =
     inherit_mtu nd link (eth_hw_addr_inherit nd link (set_proxy nd (px_mux (w_proxy w link)) w))"

definition xeth_lag_newlink :: "kapi \<Rightarrow> ndp \<Rightarrow> nl_tb option \<Rightarrow> nl_data option \<Rightarrow> world \<Rightarrow> (int \<times> world) outcome" where
  "xeth_lag_newlink k lag tb data w =
     bindR (nla_link tb) (\<lambda>ifx.
       case k_dev_get_by_index k (nd_net (w_nd w lag)) ifx of
         None \<Rightarrow> Inr (0, w)
       | Some link \<Rightarrow>
           let err = xeth_lag_ok_lower link w in
           if err \<noteq> 0 then Inr (err, w)
           else let w = upper_prepare lag link w in
           bindR (proxy_mux lag w) (\<lambda>m.
           case find_xid_up k m w 3000 of
             None \<Rightarrow> Inr (- ENODEV, set_xid lag 4095 w)
           | Some xid \<Rightarrow>
               bindR (xeth_mux_add_proxy k lag (set_xid lag xid w)) (\<lambda>w.
               bindR (register_netdevice k lag w) (\<lambda>(err, w).
               if err < 0 then bindR (xeth_mux_del_proxy lag w) (\<lambda>w. Inr (err, w))
               else
                 bindR (ignore_err (xeth_sbtx_ifinfo k lag 0 XETH_IFINFO_REASON_NEW w)) (\<lambda>w.
                 bindR (xeth_lag_add_lower k lag link w) (\<lambda>(err, w).
                 if err < 0
                 then bindR (xeth_mux_del_proxy lag w) (\<lambda>w.
                      bindR (ignore_err (xeth_sbtx_ifinfo k lag 0 XETH_IFINFO_REASON_DEL w)) (\<lambda>w.
                      bindR (unregister_netdevice k lag w) (\<lambda>w. Inr (err, w))))
                 else Inr (0, w)))))))"

definition xeth_lag_dellink :: "kapi \<Rightarrow> ndp \<Rightarrow> world \<Rightarrow> world outcome" where
  "xeth_lag_dellink k nd w =
     bindR (proxy_mux nd w) (\<lambda>m.
     bindR (leave_master k nd (xeth_mux_del_vlans m nd w)) (\<lambda>w.
     Inr (unregister_netdevice_queue nd w)))"

definition xeth_bridge_newlink :: "kapi \<Rightarrow> ndp \<Rightarrow> nl_tb option \<Rightarrow> nl_data option \<Rightarrow> world \<Rightarrow> (int \<times> world) outcome" where
  "xeth_bridge_newlink k br tb data w =
     bindR (nla_link tb) (\<lambda>ifx.
       case k_dev_get_by_index k (nd_net (w_nd w br)) ifx of
         None \<Rightarrow> Inr (0, w)
       | Some link \<Rightarrow>
           let err = xeth_bridge_ok_lower link w in
           if err \<noteq> 0 then Inr (err, w)
           else let w = upper_prepare br link w in
           bindR (proxy_mux br w) (\<lambda>m.
           case find_xid_up k m w 3000 of
             None \<Rightarrow> Inr (- ENODEV, set_xid br 4095 w)
           | Some xid \<Rightarrow>
               bindR (xeth_mux_add_proxy k br (set_xid br xid w)) (\<lambda>w.
               bindR (register_netdevice k br w) (\<lambda>(err, w).
               if err \<noteq> 0 then bindR (xeth_mux_del_proxy br w) (\<lambda>w. Inr (err, w))
               else
                 bindR (ignore_err (xeth_sbtx_ifinfo k br 0 XETH_IFINFO_REASON_NEW w)) (\<lambda>w.
                 bindR (xeth_bridge_add_lower k br link w) (\<lambda>(err, w).
                 if err \<noteq> 0
                 then bindR (xeth_mux_del_proxy br w) (\<lambda>w.
                      bindR (ignore_err (xeth_sbtx_ifinfo k br 0 XETH_IFINFO_REASON_DEL w)) (\<lambda>w.
                      bindR (unregister_netdevice k br w) (\<lambda>w. Inr (err, w))))
                 else Inr (0, w)))))))"

definition xeth_bridge_dellink :: "ndp \<Rightarrow> world \<Rightarrow> world" where
  "xeth_bridge_dellink br w = unregister_netdevice_queue br w"

section \<open>The mux\<close>

text \<open>
  When the link is not found the error returned is the address of the link table of the mux, of which
  \<open>link_addr\<close> stands for the low bits. \<^verbatim>\<open>dev_put\<close> goes through the pointer it is given.
\<close>

definition xeth_mux_newlink ::
    "kapi \<Rightarrow> int \<Rightarrow> ndp \<Rightarrow> nl_tb option \<Rightarrow> nl_data option \<Rightarrow> world \<Rightarrow> (int \<times> world) outcome" where
  "xeth_mux_newlink k link_addr m tb data w =
     (let w = upd_mux m (\<lambda>p. p\<lparr>mx_nd := m,
                mx_encap := (if map_option ucast (attr data XETH_MUX_IFLA_ENCAP) = Some (xeth_encap_code XETH_ENCAP_VPLS)
                             then XETH_ENCAP_VPLS else XETH_ENCAP_VLAN)\<rparr>) w;
          lnk = (if has_link tb
                 then (case nla_link tb of Inr ifx \<Rightarrow> k_dev_get_by_index k (nd_net (w_nd w m)) ifx | Inl _ \<Rightarrow> None)
                 else None)
      in if has_link tb \<and> lnk = None then Inr (link_addr, w)
         else
           let w = (case lnk of Some link \<Rightarrow> inherit_mtu m link (eth_hw_addr_inherit m link (log_event (Ev_dev_hold link) w))
                    | None \<Rightarrow> eth_hw_addr_random k m w)
           in bindR (register_netdevice k m w) (\<lambda>(err, w).
              let (err, w) = (case lnk of Some link \<Rightarrow> if err = 0 then xeth_mux_add_lower k m link w else (err, w)
                              | None \<Rightarrow> (err, w));
                  (err, w) = (if err = 0 then (k_kthread_run k (w_trace w), log_event (Ev_kthread_run m) w) else (err, w))
              in if err \<noteq> 0
                 then (case lnk of Some link \<Rightarrow> Inr (err, log_event (Ev_dev_put link) w) | None \<Rightarrow> Inl Null_deref)
                 else Inr (err, w)))"

definition gpiod_put_array :: "nat list option \<Rightarrow> world \<Rightarrow> world" where
  "gpiod_put_array g w = (case g of Some ds \<Rightarrow> log_event (Ev_gpio_put ds) w | None \<Rightarrow> w)"

definition xeth_mux_dellink :: "ndp \<Rightarrow> world \<Rightarrow> world" where
  "xeth_mux_dellink m w =
     (if \<not> nd_registered (w_nd w m) then w
      else let p = w_mux w m;
               w = gpiod_put_array (mx_absent_gpios p) w;
               w = gpiod_put_array (mx_intr_gpios p) w;
               w = gpiod_put_array (mx_lpmode_gpios p) w;
               w = gpiod_put_array (mx_reset_gpios p) w;
               w = upd_mux m (\<lambda>p. p\<lparr>mx_absent_gpios := None, mx_intr_gpios := None, mx_lpmode_gpios := None,
                                    mx_reset_gpios := None\<rparr>) w;
               w = (if mx_stat_name_sysfs p then log_event (Ev_remove_file m) w else w);
               w = fold (\<lambda>q w. unregister_netdevice_queue (px_nd (w_proxy w q)) w)
                     (mx_bridges p @ mx_vlans p @ mx_lags p @ mx_ports p @ mx_lbs p) w
           in unregister_netdevice_queue m w)"

end
