(* ===== verification/Xeth_Probe.thy ===== *)
theory Xeth_Probe
  imports Xeth_Newlink
begin

text \<open>
  The platform drivers of the mux and of its ports (\<^verbatim>\<open>dkms/xeth_mux.c\<close>, \<^verbatim>\<open>dkms/xeth_port.c\<close>): device properties,
  the search for the lower links, probe and remove. A property that is absent or cannot be read is
  \<open>None\<close>. The devices of the initial name space in order, the look up of a device by name and the answers
  to the registration of platform devices and sysfs files are the parameters of the record \<open>platform\<close>.
\<close>

section \<open>Device properties\<close>

record device =
  dv_compatible :: "string option"
  dv_name :: "string option"
  dv_encap_vpls :: bool
  dv_base_port :: "u32 option"
  dv_ports :: "u16 option"
  dv_link_macs :: "u8 list option list"
  dv_link_akas :: "string list option"
  dv_flags :: "string list option"
  dv_stats :: "string list option"
  dv_qsfp_i2c_addrs :: "(int + u16 list) option"
  dv_absent_gpios :: "nat list option"
  dv_int_gpios :: "nat list option"
  dv_lpmode_gpios :: "nat list option"
  dv_reset_gpios :: "nat list option"

record platform =
  pl_netdevs :: "ndp list"
  pl_dev_get_by_name :: "string \<Rightarrow> ndp option"
  pl_register_device :: "nat \<Rightarrow> bool"
  pl_create_file :: int

definition xeth_mux_compatible_prop :: "device \<Rightarrow> string" where
  "xeth_mux_compatible_prop d = (case dv_compatible d of None \<Rightarrow> ''xeth,mux'' | Some v \<Rightarrow> v)"

definition xeth_mux_is_platina_mk1 :: "device \<Rightarrow> bool" where
  "xeth_mux_is_platina_mk1 d \<longleftrightarrow> xeth_mux_compatible_prop d = ''platina,mk1''"

definition xeth_mux_ifname_prop :: "device \<Rightarrow> string option" where
  "xeth_mux_ifname_prop d = dv_name d"

definition xeth_mux_ifname :: "device \<Rightarrow> string" where
  "xeth_mux_ifname d =
     (let s = (case xeth_mux_ifname_prop d of None \<Rightarrow> xeth_mux_compatible_prop d | Some s \<Rightarrow> s)
      in map (\<lambda>c. if c = CHR '','' then CHR ''-'' else c) (take IFNAMSIZ s))"

definition xeth_mux_encap_prop :: "device \<Rightarrow> xeth_encap" where
  "xeth_mux_encap_prop d = (if dv_encap_vpls d then XETH_ENCAP_VPLS else XETH_ENCAP_VLAN)"

definition xeth_mux_base_port_prop :: "device \<Rightarrow> u8" where
  "xeth_mux_base_port_prop d = (case dv_base_port d of None \<Rightarrow> 1 | Some v \<Rightarrow> ucast (v AND 1))"

definition xeth_mux_ports_prop :: "device \<Rightarrow> u16" where
  "xeth_mux_ports_prop d = (case dv_ports d of None \<Rightarrow> 32 | Some v \<Rightarrow> v)"

text \<open>\<^verbatim>\<open>strncpy\<close> into an array of \<^verbatim>\<open>ETH_GSTRING_LEN\<close> bytes.\<close>

definition gstring :: "string \<Rightarrow> u8 list" where
  "gstring s = take ETH_GSTRING_LEN (map of_char s @ replicate ETH_GSTRING_LEN 0)"

definition xeth_mux_flags_prop :: "device \<Rightarrow> u8 list list" where
  "xeth_mux_flags_prop d =
     (case dv_flags d of
        Some (v # vs) \<Rightarrow> map gstring (take xeth_mux_max_flags (v # vs))
      | _ \<Rightarrow> if xeth_mux_is_platina_mk1 d then map gstring [''copper'', ''fec74'', ''fec91''] else [])"

definition xeth_mux_stats_prop :: "device \<Rightarrow> u8 list list" where
  "xeth_mux_stats_prop d =
     (case dv_stats d of None \<Rightarrow> [] | Some vs \<Rightarrow> map gstring (take xeth_mux_max_stats vs))"

text \<open>The count of a property that cannot be read is negative, and is then used as an index.\<close>

definition xeth_mux_qsfp_i2c_addrs_prop :: "device \<Rightarrow> u16 list outcome" where
  "xeth_mux_qsfp_i2c_addrs_prop d =
     (let addrs = [0x50, 0x51, I2C_CLIENT_END] in
      case dv_qsfp_i2c_addrs d of
        None \<Rightarrow> Inr addrs
      | Some (Inl err) \<Rightarrow> Inl Out_of_bounds
      | Some (Inr vs) \<Rightarrow>
          if length vs \<ge> xeth_mux_max_qsfp_i2c_addrs then Inr addrs
          else Inr ((vs @ drop (length vs) addrs)[length vs := I2C_CLIENT_END]))"

section \<open>Lower links\<close>

definition dev_put_all :: "ndp list \<Rightarrow> world \<Rightarrow> world" where
  "dev_put_all ds w = fold (\<lambda>d w. log_event (Ev_dev_put d) w) ds w"

definition link_macs :: "device \<Rightarrow> u8 list list" where
  "link_macs d = map the (takeWhile (\<lambda>a. case a of Some b \<Rightarrow> length b = 6 | None \<Rightarrow> False)
     (take xeth_mux_max_links (dv_link_macs d)))"

text \<open>One device of the name space against the addresses that have no device yet.\<close>

fun match_dev :: "u8 list list \<Rightarrow> ndp \<Rightarrow> nat list \<Rightarrow> ndp option list \<times> world \<Rightarrow> ndp option list \<times> world" where
  "match_dev addrs nd [] s = s"
| "match_dev addrs nd (l # ls) (links, w) =
     match_dev addrs nd ls
       (if links ! l = None \<and> nd_dev_addr (w_nd w nd) = addrs ! l
        then (links[l := Some nd], log_event (Ev_dev_hold nd) w) else (links, w))"

definition match_all :: "u8 list list \<Rightarrow> ndp list \<Rightarrow> world \<Rightarrow> ndp option list \<times> world" where
  "match_all addrs devs w =
     fold (\<lambda>nd. match_dev addrs nd [0..<length addrs]) devs (replicate (length addrs) None, w)"

definition xeth_mux_link_addrs :: "platform \<Rightarrow> device \<Rightarrow> world \<Rightarrow> int \<times> ndp list \<times> world" where
  "xeth_mux_link_addrs pl d w =
     (let addrs = link_macs d in
      if addrs = [] then (0, [], w)
      else let (links, w) = match_all addrs (pl_netdevs pl) w in
           if None \<in> set links then (- EPROBE_DEFER, [], dev_put_all (map the (filter (\<lambda>l. l \<noteq> None) links)) w)
           else (int (length addrs), map the links, w))"

text \<open>The next name of a list with commas, cut to what fits, and what follows the comma.\<close>

definition next_aka :: "string \<Rightarrow> string \<times> string" where
  "next_aka aka = (take (IFNAMSIZ - 1) (takeWhile (\<lambda>c. c \<noteq> CHR '','') aka), drop 1 (dropWhile (\<lambda>c. c \<noteq> CHR '','') aka))"

lemma next_aka_shorter:
  assumes "aka \<noteq> []"
  shows "length (snd (next_aka aka)) < length aka"
proof -
  have "length (dropWhile (\<lambda>c. c \<noteq> CHR '','') aka) \<le> length aka" by (rule length_dropWhile_le)
  moreover have "0 < length aka" using assms by simp
  ultimately show ?thesis unfolding next_aka_def snd_conv length_drop by linarith
qed

function find_aka :: "(string \<Rightarrow> ndp option) \<Rightarrow> string \<Rightarrow> ndp option" where
  "find_aka byname aka =
     (if aka = [] then None
      else let (ifname, rest) = next_aka aka
           in case byname ifname of Some d \<Rightarrow> Some d | None \<Rightarrow> find_aka byname rest)"
  by pat_completeness auto
termination
proof (relation "measure (\<lambda>(byname, aka). length aka)")
  fix byname :: "string \<Rightarrow> ndp option" and aka r ifname rest
  assume "aka \<noteq> []" "r = next_aka aka" "(ifname, rest) = r"
  then show "((byname, rest), byname, aka) \<in> measure (\<lambda>(byname, aka). length aka)"
    using next_aka_shorter[of aka] by (metis (no_types, lifting) case_prod_conv in_measure snd_conv)
qed simp

declare find_aka.simps [simp del]

fun akas_loop :: "(string \<Rightarrow> ndp option) \<Rightarrow> string list \<Rightarrow> ndp list \<Rightarrow> world \<Rightarrow> int \<times> ndp list \<times> world" where
  "akas_loop byname [] links w = (int (length links), links, w)"
| "akas_loop byname (aka # akas) links w =
     (case find_aka byname aka of
        None \<Rightarrow> (- EPROBE_DEFER, [], dev_put_all (rev links) w)
      | Some d \<Rightarrow> akas_loop byname akas (links @ [d]) (log_event (Ev_dev_hold d) w))"

definition xeth_mux_link_akas :: "platform \<Rightarrow> device \<Rightarrow> world \<Rightarrow> int \<times> ndp list \<times> world" where
  "xeth_mux_link_akas pl d w =
     (case dv_link_akas d of
        None \<Rightarrow> (0, [], w)
      | Some akas \<Rightarrow> akas_loop (pl_dev_get_by_name pl) (take xeth_mux_max_links akas) [] w)"

section \<open>The ports that a mux makes\<close>

definition ether_addr_to_u64 :: "u8 list \<Rightarrow> u64" where
  "ether_addr_to_u64 addr = le_word (rev (take 6 addr))"

definition u64_to_ether_addr :: "u64 \<Rightarrow> u8 list" where
  "u64_to_ether_addr u = rev (take 6 (le64 u))"

definition mk1_qsfp_bus :: "u8 list" where
  "mk1_qsfp_bus = [3, 2, 5, 4, 7, 6, 9, 8, 12, 11, 14, 13, 16, 15, 18, 17,
     21, 20, 23, 22, 25, 24, 27, 26, 30, 29, 32, 31, 34, 33, 36, 35]"

definition alpha_qsfp_bus :: "u8 list" where
  "alpha_qsfp_bus = [2, 3, 4, 5, 6, 7, 8, 9, 11, 12, 13, 14, 15, 16, 17, 18,
     20, 21, 22, 23, 24, 25, 26, 27, 29, 30, 31, 32, 33, 34, 35, 36]"

definition mk1_ppd :: "u8 \<Rightarrow> u8 list \<Rightarrow> nat \<Rightarrow> platform_device" where
  "mk1_ppd base_port addr port =
     \<lparr>pd_id = int port, pd_id_auto = False, pd_index = None,
      pd_mac_address = Some (u64_to_ether_addr (2 + ether_addr_to_u64 addr + of_nat port)),
      pd_qsfp_bus = Some ((if base_port \<noteq> 0 then mk1_qsfp_bus else alpha_qsfp_bus) ! port)\<rparr>"

text \<open>The first platform device that cannot be registered ends the loop.\<close>

definition xeth_mux_platina_mk1_ppds :: "platform \<Rightarrow> ndp \<Rightarrow> world \<Rightarrow> platform_device list" where
  "xeth_mux_platina_mk1_ppds pl m w =
     map (mk1_ppd (mx_base_port (w_mux w m)) (nd_dev_addr (w_nd w m))) (takeWhile (pl_register_device pl) [0..<32])"

section \<open>Probe and remove of the mux\<close>

text \<open>What \<^verbatim>\<open>alloc_netdev_mqs\<close> makes of the private data of a mux before the setup function runs.\<close>

definition blank_mux :: xeth_mux_priv where
  "blank_mux = \<lparr>mx_nd = 0,
     mx_nb = \<lparr>nb_fibs = [], nb_inetaddr = False, nb_inet6addr = False, nb_netdevice = False, nb_netevent = False\<rparr>,
     mx_link = replicate xeth_mux_link_hash_bkts None, mx_hls = replicate xeth_mux_proxy_hash_bkts [],
     mx_ports = [], mx_vlans = [], mx_bridges = [], mx_lags = [], mx_lbs = [],
     mx_counters = replicate xeth_mux_n_counters 0, mx_link_stats = replicate XETH_N_LINK_STAT 0, mx_flags = 0,
     mx_sb_free = [], mx_sb_tx = [], mx_sb_rx = replicate XETH_SIZEOF_JUMBO_FRAME 0, mx_priv_flag_names = [],
     mx_stat_names = replicate xeth_mux_max_stats (replicate ETH_GSTRING_LEN 0), mx_stat_named = 0,
     mx_encap = XETH_ENCAP_VLAN, mx_base_port = 0, mx_n_ports = 0, mx_absent_gpios = None, mx_intr_gpios = None,
     mx_lpmode_gpios = None, mx_reset_gpios = None, mx_stat_name_sysfs = False,
     mx_qsfp_i2c_addrs = replicate xeth_mux_max_qsfp_i2c_addrs 0\<rparr>"

definition alloc_mux :: "ndp \<Rightarrow> string \<Rightarrow> world \<Rightarrow> world" where
  "alloc_mux m name w =
     xeth_mux_setup m (w\<lparr>w_nd := (w_nd w)(m := blank_nd name init_net (nd_ifindex (w_nd w m))), w_mux := (w_mux w)(m := blank_mux)\<rparr>)"

definition mux_props :: "device \<Rightarrow> u16 list \<Rightarrow> ndp \<Rightarrow> xeth_mux_priv \<Rightarrow> xeth_mux_priv" where
  "mux_props d addrs m p =
     (let stats = xeth_mux_stats_prop d in
      p\<lparr>mx_nd := m, mx_encap := xeth_mux_encap_prop d, mx_base_port := xeth_mux_base_port_prop d,
        mx_n_ports := xeth_mux_ports_prop d, mx_priv_flag_names := xeth_mux_flags_prop d,
        mx_stat_names := stats @ drop (length stats) (mx_stat_names p), mx_stat_named := length stats,
        mx_qsfp_i2c_addrs := addrs\<rparr>)"

text \<open>What follows a successful registration.\<close>

definition mux_start :: "kapi \<Rightarrow> platform \<Rightarrow> device \<Rightarrow> ndp \<Rightarrow> ndp list \<Rightarrow> world \<Rightarrow> world" where
  "mux_start k pl d m links w =
     (let w = (if mx_stat_named (w_mux w m) = 0 \<and> pl_create_file pl = 0
               then upd_mux m (\<lambda>p. p\<lparr>mx_stat_name_sysfs := True\<rparr>) w else w);
          w = fold (\<lambda>l w. snd (xeth_mux_add_lower k m l w)) links w;
          w = log_event (Ev_kthread_run m) w
      in upd_mux m (\<lambda>p. p\<lparr>mx_absent_gpios := dv_absent_gpios d, mx_intr_gpios := dv_int_gpios d,
                          mx_lpmode_gpios := dv_lpmode_gpios d, mx_reset_gpios := dv_reset_gpios d\<rparr>) w)"

text \<open>The links, by address or else by name, and the mux as it is registered.\<close>

definition probe_links :: "platform \<Rightarrow> device \<Rightarrow> world \<Rightarrow> int \<times> ndp list \<times> world" where
  "probe_links pl d w =
     (case xeth_mux_link_addrs pl d w of (n, links, w) \<Rightarrow> if n = 0 then xeth_mux_link_akas pl d w else (n, links, w))"

definition probe_prepare :: "kapi \<Rightarrow> device \<Rightarrow> ndp \<Rightarrow> ndp list \<Rightarrow> u16 list \<Rightarrow> world \<Rightarrow> world" where
  "probe_prepare k d m links addrs w =
     (let w = upd_mux m (mux_props d addrs m) (alloc_mux m (xeth_mux_ifname d) w)
      in case links of link # _ \<Rightarrow> eth_hw_addr_inherit m link w | [] \<Rightarrow> eth_hw_addr_random k m w)"

text \<open>
  The driver data of the platform device is the mux with the port devices that were made for it. For a
  device that is not a Platina mark one the pointer to the function that makes them is NULL, and is called.
\<close>

definition xeth_mux_probe ::
    "kapi \<Rightarrow> platform \<Rightarrow> ndp option \<Rightarrow> device \<Rightarrow> world \<Rightarrow> (int \<times> (ndp \<times> platform_device list) option \<times> world) outcome" where
  "xeth_mux_probe k pl alloc d w =
     (let (n, links, w) = probe_links pl d w
      in if n < 0 then Inr (n, None, w)
         else case alloc of
           None \<Rightarrow> Inr (- ENOMEM, None, dev_put_all (rev links) w)
         | Some m \<Rightarrow>
             bindR (xeth_mux_qsfp_i2c_addrs_prop d) (\<lambda>addrs.
             bindR (register_netdevice k m (probe_prepare k d m links addrs w)) (\<lambda>(err, w).
               if err < 0 then Inr (err, None, log_event (Ev_free_netdev m) (dev_put_all (rev links) w))
               else let w = mux_start k pl d m links w in
                    if xeth_mux_is_platina_mk1 d
                    then Inr (0, Some (m, xeth_mux_platina_mk1_ppds pl m w), w)
                    else Inl Null_call)))"

text \<open>\<^verbatim>\<open>unregister_netdevice_many\<close>: all devices are closed, and then each is taken down in turn.\<close>

definition close_one :: "kapi \<Rightarrow> ndp \<Rightarrow> world \<Rightarrow> world outcome" where
  "close_one k nd w =
     (if nd_flags (w_nd w nd) AND IFF_UP \<noteq> 0
      then bindR (ignore_err (ndo_stop k (nd_netdev_ops (w_nd w nd)) nd w)) (\<lambda>w.
             Inr (upd_nd nd (\<lambda>d. d\<lparr>nd_flags := nd_flags d AND NOT IFF_UP\<rparr>) w))
      else Inr w)"

definition uninit_one :: "kapi \<Rightarrow> ndp \<Rightarrow> world \<Rightarrow> world outcome" where
  "uninit_one k nd w =
     bindR (ndo_uninit k (nd_netdev_ops (w_nd w nd)) nd w) (\<lambda>w. Inr (upd_nd nd (\<lambda>d. d\<lparr>nd_registered := False\<rparr>) w))"

definition unregister_netdevice_many :: "kapi \<Rightarrow> ndp list \<Rightarrow> world \<Rightarrow> world outcome" where
  "unregister_netdevice_many k q w = bindR (foldR (close_one k) q w) (foldR (uninit_one k) q)"

definition queued_devs :: "kevent list \<Rightarrow> ndp list" where
  "queued_devs tr = concat (map (\<lambda>e. case e of Ev_unregister_queue n \<Rightarrow> [n] | _ \<Rightarrow> []) tr)"

definition xeth_mux_remove :: "kapi \<Rightarrow> (ndp \<times> platform_device list) option \<Rightarrow> world \<Rightarrow> (int \<times> world) outcome" where
  "xeth_mux_remove k drvdata w =
     (case drvdata of
        None \<Rightarrow> Inr (0, w)
      | Some (m, ppds) \<Rightarrow>
          let w = fold (\<lambda>ppd. log_event (Ev_platform_unregister (pd_id ppd))) ppds w;
              w' = xeth_mux_dellink m w; q = queued_devs (drop (length (w_trace w)) (w_trace w'))
          in bindR (unregister_netdevice_many k q w') (\<lambda>w. Inr (0, w)))"

section \<open>Probe of a port\<close>

text \<open>The module parameter \<^verbatim>\<open>provision\<close> is an array of 512 numbers.\<close>

definition xeth_port_subports :: "int list \<Rightarrow> int \<Rightarrow> int" where
  "xeth_port_subports provision port = (if 0 \<le> port \<and> port < 512 then provision ! nat port else - EINVAL)"

definition provisioned_show :: "int list \<Rightarrow> int \<times> u8 list" where
  "provisioned_show provision =
     (let ps = takeWhile (\<lambda>p. p \<noteq> 0) (take 512 provision) in (int (length ps), map (\<lambda>p. of_int (p + 48)) ps))"

definition u32_digits :: "int \<Rightarrow> string" where
  "u32_digits i = dec_digits (unat (of_int i :: u32))"

definition next_addr :: "u16 \<Rightarrow> u8 list \<Rightarrow> u8 list" where
  "next_addr ports addr = u64_to_ether_addr (ether_addr_to_u64 (u64_to_ether_addr (ether_addr_to_u64 addr + 1)) + ucast ports)"

fun subports_loop ::
    "kapi \<Rightarrow> (nat \<Rightarrow> ndp option) \<Rightarrow> platform_device \<Rightarrow> ndp \<Rightarrow> int \<Rightarrow> nat \<Rightarrow> nat \<Rightarrow> u8 list \<Rightarrow> world \<Rightarrow> (int \<times> world) outcome" where
  "subports_loop k alloc pd m port sp 0 addr w = Inr (0, w)"
| "subports_loop k alloc pd m port sp (Suc n) addr w =
     (let base = int (unat (mx_base_port (w_mux w m)));
          name = take (IFNAMSIZ - 1) (''xeth'' @ u32_digits (port + base) @ ''-'' @ u32_digits (int sp + base))
      in bindR (xeth_port k (alloc sp) pd m name port (int sp) addr w) (\<lambda>(err, w').
           if err \<noteq> 0 then Inr (err, w')
           else subports_loop k alloc pd m port (Suc sp) n (next_addr (mx_n_ports (w_mux w m)) addr) w'))"

definition xeth_port_probe ::
    "kapi \<Rightarrow> platform \<Rightarrow> int list \<Rightarrow> (nat \<Rightarrow> ndp option) \<Rightarrow> device \<Rightarrow> platform_device \<Rightarrow> world \<Rightarrow> (int \<times> world) outcome" where
  "xeth_port_probe k pl provision alloc parent pd w =
     (case pl_dev_get_by_name pl (xeth_mux_ifname parent) of
        None \<Rightarrow> Inr (- EPROBE_DEFER, w)
      | Some m \<Rightarrow>
          let w = log_event (Ev_dev_hold m) w; port = xeth_port_index_prop pd; addr = xeth_port_addr_prop pd;
              subports = xeth_port_subports provision port
          in bindR (if subports > 1 then subports_loop k alloc pd m port 0 (nat subports) addr w
                    else xeth_port k (alloc 0) pd m
                           (take (IFNAMSIZ - 1) (''xeth'' @ u32_digits (port + int (unat (mx_base_port (w_mux w m)))))) port (- 1) addr w)
               (\<lambda>(err, w). Inr (err, log_event (Ev_dev_put m) w)))"

definition xeth_port_remove :: "platform_device \<Rightarrow> int" where
  "xeth_port_remove pd = 0"

end
