(* ===== verification/Xeth_Life.thy ===== *)
theory Xeth_Life
  imports Xeth_Newlink
begin

text \<open>
  What the creation and the deletion of devices do, over the definitions of \<open>Xeth_Newlink\<close>: the XIDs of ports
  and vlans, the table and the daemon's queue after a link was made, the failures, and the order in which
  the devices of a mux are unregistered.
\<close>

section \<open>XIDs\<close>

lemma vid_over_xid:
  assumes "unat (xid :: u32) < 2 ^ b" and "unat (vid :: u16) < 2 ^ 12" and "b \<le> 20"
  shows "(xid OR push_bit b (ucast vid)) AND (2 ^ b - 1) = xid" and "ucast (drop_bit b (xid OR push_bit b (ucast vid))) = vid"
proof -
  note small = bit_small[OF assms(1)] bit_small[OF assms(2)]
  show "(xid OR push_bit b (ucast vid)) AND (2 ^ b - 1) = xid"
    unfolding mask_eq_exp_minus_1[symmetric] by (rule bit_word_eqI) (auto simp: bit_simps dest: small)
  show "ucast (drop_bit b (xid OR push_bit b (ucast vid))) = vid"
    using assms(3) by (intro bit_word_eqI) (auto simp: bit_simps dest: small)
qed

text \<open>
  The XID of a vlan holds its link's XID and its number: from it the two read back, for both
  encapsulations, so that vlans of different links or numbers never share an XID.
\<close>

theorem vlan_xid_roundtrip:
  assumes "vid_ok vid"
    and "unat xid < 2 ^ (case encap of XETH_ENCAP_VLAN \<Rightarrow> XETH_ENCAP_VLAN_VID_BIT | XETH_ENCAP_VPLS \<Rightarrow> XETH_ENCAP_VPLS_VID_BIT)"
  shows "vlan_xid_vid encap (vlan_xid encap xid vid) = (xid, vid)"
  using assms vid_over_xid[of xid XETH_ENCAP_VLAN_VID_BIT vid] vid_over_xid[of xid XETH_ENCAP_VPLS_VID_BIT vid]
  by (cases encap) (simp_all add: vid_ok_def VLAN_N_VID_def vlan_xid_vid_def vlan_xid_def XETH_ENCAP_VLAN_VID_MASK_def
      XETH_ENCAP_VPLS_VID_MASK_def XETH_ENCAP_VLAN_VID_BIT_def XETH_ENCAP_VPLS_VID_BIT_def)

theorem vlan_xid_roundtrip_witness:
  "vlan_xid_vid XETH_ENCAP_VLAN (vlan_xid XETH_ENCAP_VLAN 3000 5) = (3000, 5)"
  by (rule vlan_xid_roundtrip) (simp_all add: vid_ok_def VLAN_N_VID_def XETH_ENCAP_VLAN_VID_BIT_def)

lemma port_xid_uint:
  assumes "0 \<le> port" and "port + max 0 subport * int (unat ports) \<le> 3999"
  shows "uint (port_xid ports port subport) = 3999 - port - max 0 subport * int (unat ports)"
proof -
  have eq: "port_xid ports port subport = of_int (3999 - port - max 0 subport * int (unat ports))"
    by (simp add: port_xid_def xeth_port_top_vid_def Let_def max_def)
  define c where "c = max 0 subport * int (unat ports)"
  have "0 \<le> c" unfolding c_def by simp
  then have "uint (word_of_int (3999 - port - c) :: u32) = 3999 - port - c"
    using assms unfolding c_def[symmetric] by (intro word_of_int_inverse[OF refl]) simp_all
  then show ?thesis unfolding eq c_def .
qed

text \<open>
  C28: The ports of the platform driver get XIDs from 3999 down that differ for different ports and
  subports, whenever the ports with their four subports fit below 3999.
\<close>

theorem port_xids_distinct:
  assumes "0 \<le> p" "p < int (unat ports)" "0 \<le> q" "q < int (unat ports)" and "s < 4" "t < 4" and "unat ports \<le> 999"
  shows "(port_xid ports p s = port_xid ports q t \<longleftrightarrow> p = q \<and> max 0 s = max 0 t)
    \<and> 3999 - 4 * unat ports < unat (port_xid ports p s) \<and> unat (port_xid ports p s) \<le> 3999"
proof -
  define n where "n = int (unat ports)"
  define S where "S = max 0 s * n"
  define T where "T = max 0 t * n"
  have n: "0 \<le> n" "n \<le> 999" using assms(7) unfolding n_def by linarith+
  have "max 0 u * n \<le> 3 * n" if "u < 4" for u :: int using that n(1) by (intro mult_right_mono) simp_all
  then have ST: "0 \<le> S" "S \<le> 3 * n" "0 \<le> T" "T \<le> 3 * n"
    using assms(5,6) n(1) by (simp_all add: S_def T_def)
  have xs: "uint (port_xid ports p s) = 3999 - p - S" "uint (port_xid ports q t) = 3999 - q - T"
    using port_xid_uint[of p s ports] port_xid_uint[of q t ports] ST n assms(1-4)
    unfolding n_def[symmetric] S_def[symmetric] T_def[symmetric] by linarith+
  have inj: "p + S = q + T \<longleftrightarrow> p = q \<and> max 0 s = max 0 t"
  proof
    assume eq: "p + S = q + T"
    then have "(p + max 0 s * n) mod n = (q + max 0 t * n) mod n" by (simp add: S_def T_def)
    then have "p = q" using assms(1-4) by (simp add: n_def)
    with eq assms(1,2) show "p = q \<and> max 0 s = max 0 t" by (auto simp: S_def T_def n_def)
  qed (simp add: S_def T_def)
  have "p + S < 4 * int (unat ports)" using ST assms(1,2) n_def by linarith
  moreover have "int (unat (port_xid ports p s)) = 3999 - p - S" using xs(1) by simp
  ultimately have "3999 - 4 * unat ports < unat (port_xid ports p s)" "unat (port_xid ports p s) \<le> 3999"
    using ST(1) assms(1,7) by linarith+
  moreover have "port_xid ports p s = port_xid ports q t \<longleftrightarrow> p + S = q + T"
    unfolding word_uint_eq_iff xs by linarith
  ultimately show ?thesis unfolding inj by simp
qed

theorem port_xids_distinct_witness:
  "port_xid 32 31 3 \<noteq> port_xid 32 0 3 \<and> unat (port_xid 32 31 3) \<le> 3999"
  using port_xids_distinct[of 31 32 0 3 3] by simp

section \<open>Entering the table\<close>

lemma upd_kin_sb [simp]:
  "mx_sb_free (upd_kin kd f p) = mx_sb_free p" "mx_counters (upd_kin kd f p) = mx_counters p"
  "mx_flags (upd_kin kd f p) = mx_flags p" "sb_inv (upd_kin kd f p) = sb_inv p" "sb_inv (p\<lparr>mx_hls := h\<rparr>) = sb_inv p"
  by (cases kd; simp add: sb_inv_def)+

lemma add_proxy_frame:
  assumes "xeth_mux_add_proxy k q w = Inr w'"
  shows "w_nd w' = w_nd w" "w_trace w' = w_trace w" "w_port w' = w_port w" "w_vlan_link w' = w_vlan_link w"
    "queued_msgs m w' = queued_msgs m w" "sb_ready k m w' = sb_ready k m w"
  using assms by (auto simp: xeth_mux_add_proxy_def Let_def queued_msgs_def sb_ready_def connected_def
      split: option.splits if_splits)

lemma del_proxy_frame:
  assumes "xeth_mux_del_proxy q w = Inr w'"
  shows "w_nd w' = w_nd w" "w_port w' = w_port w" "queued_msgs m w' = queued_msgs m w" "sb_ready k m w' = sb_ready k m w"
  using assms by (auto simp: xeth_mux_del_proxy_def Let_def queued_msgs_def sb_ready_def connected_def
      split: option.splits if_splits)

lemma same_table_lookup: "same_table m w w' \<Longrightarrow> xeth_mux_proxy_of_xid k m w' = xeth_mux_proxy_of_xid k m w"
  by (simp add: same_table_def xeth_mux_proxy_of_xid_def fun_eq_iff)

lemma same_table_proxies: "same_table m w w' \<Longrightarrow> proxies m w' = proxies m w"
  by (simp add: same_table_def proxies_def)

text \<open>A proxy that is not in the table can be changed at will.\<close>

lemma table_upd_proxy:
  assumes "table_inv k m w" and "q \<notin> set (proxies m w)" and "w_mux w' = w_mux w"
    and "\<And>p. p \<noteq> q \<Longrightarrow> w_proxy w' p = w_proxy w p"
  shows "table_inv k m w'" and "proxies m w' = proxies m w"
    and "xeth_mux_proxy_of_xid k m w' = xeth_mux_proxy_of_xid k m w"
proof -
  let ?hls = "mx_hls (w_mux w m)"
  have same: "w_proxy w' p = w_proxy w p" if "b < length ?hls" "p \<in> set (?hls ! b)" for b p
    using that assms(2) assms(4)[of p] by (cases "p = q") (auto simp: proxies_def set_concat_nth)
  have mem: "w_proxy w' p = w_proxy w p" if "p \<in> set (concat ?hls)" for p
    using that assms(2) assms(4)[of p] by (cases "p = q") (auto simp: proxies_def)
  have "{p \<in> set (concat ?hls). px_kind (w_proxy w' p) = kd} = {p \<in> set (concat ?hls). px_kind (w_proxy w p) = kd}" for kd
    using mem by (intro Collect_cong conj_cong refl) simp
  then have "kin_ok m w' kd = kin_ok m w kd" for kd
    by (simp only: kin_ok_def proxies_def assms(3))
  then show "table_inv k m w'"
    using assms(1) same unfolding table_inv_def proxies_def assms(3) by simp
  show "proxies m w' = proxies m w" by (simp add: proxies_def assms(3))
  have "k_hash_min k x < length ?hls" for x using assms(1) by (simp add: table_inv_def hash_ok_def)
  from same[OF this] have "find (\<lambda>p. px_xid (w_proxy w' p) = x) (?hls ! k_hash_min k x) =
      find (\<lambda>p. px_xid (w_proxy w p) = x) (?hls ! k_hash_min k x)" for x
    by (intro find_cong refl) simp
  then show "xeth_mux_proxy_of_xid k m w' = xeth_mux_proxy_of_xid k m w"
    by (intro ext) (simp only: xeth_mux_proxy_of_xid_def assms(3))
qed

lemma find_xid_up_cong:
  assumes "xeth_mux_proxy_of_xid k m w' = xeth_mux_proxy_of_xid k m w"
  shows "find_xid_up k m w' 3000 = find_xid_up k m w 3000"
  using find_xid_up_find[of 3000 k m w] find_xid_up_find[of 3000 k m w'] assms by (simp del: upt_rec_numeral)

lemma find_xid_up_SomeD:
  assumes "find_xid_up k m w 3000 = Some x"
  shows "\<not> xid_used k m w x" and "x \<noteq> 0"
proof -
  from assms have "find (\<lambda>x. \<not> xid_used k m w x) (map of_nat [3000..<4096]) = Some x"
    using find_xid_up_find[of 3000 k m w] by (simp del: upt_rec_numeral)
  from find_SomeD[OF this] have "\<not> xid_used k m w x" and x: "x \<in> of_nat ` {3000..<4096}"
    by (simp_all del: upt_rec_numeral)
  then show "\<not> xid_used k m w x" by simp
  from x show "x \<noteq> 0" by (auto simp: word_unat_eq_iff unat_of_nat)
qed

text \<open>What a successful registration does to the device, and that it does nothing else.\<close>

definition only_registered :: "ndp \<Rightarrow> world \<Rightarrow> world \<Rightarrow> bool" where
  "only_registered nd w w' \<longleftrightarrow> w_mux w' = w_mux w \<and> w_proxy w' = w_proxy w \<and> w_port w' = w_port w
     \<and> w_vlan_link w' = w_vlan_link w \<and> (\<forall>n. n \<noteq> nd \<longrightarrow> w_nd w' n = w_nd w n)
     \<and> (let d = w_nd w nd; e = w_nd w' nd in nd_lowers e = nd_lowers d \<and> nd_master e = nd_master d
          \<and> nd_netdev_ops e = nd_netdev_ops d \<and> addrs_ok e = addrs_ok d \<and> nd_dev_addr e = nd_dev_addr d \<and> nd_registered e
          \<and> nd_flags e AND IFF_UP = nd_flags d AND IFF_UP)"

lemma register_ok:
  assumes "k_register_netdevice k (w_trace w) nd = (0, b)"
  shows "\<exists>u. register_netdevice k nd w = Inr (0, u) \<and> only_registered nd w u"
proof -
  have m: "(f OR IFF_MASTER) AND IFF_UP = f AND IFF_UP" for f
    by (simp add: IFF_MASTER_def IFF_UP_def word_ao_dist)
  show ?thesis
    using assms by (cases "nd_netdev_ops (w_nd w nd)")
      (auto simp: register_netdevice_def only_registered_def xeth_proxy_init_def xeth_lag_init_def xeth_bridge_init_def
        netif_carrier_def addrs_ok_def m Let_def)
qed

lemma only_registered_table:
  assumes "only_registered nd w u"
  shows "same_table m w u" "queued_msgs m u = queued_msgs m w" "sb_ready k m u = sb_ready k m w"
    "addrs_ok (w_nd u n) = addrs_ok (w_nd w n)"
  using assms by (auto simp: only_registered_def queued_msgs_def Let_def intro!: same_tableI sb_ready_cong)

text \<open>The report of an interface, with the fields that identify the device and the occasion.\<close>

definition ifinfo_msg :: "xeth_proxy \<Rightarrow> xeth_msg_ifinfo_reason \<Rightarrow> u8 list \<Rightarrow> bool" where
  "ifinfo_msg px rs d \<longleftrightarrow> xeth_msg_kind_at d = xeth_msg_kind_code XETH_MSG_KIND_IFINFO
     \<and> ifi_xid (xeth_msg_ifinfo_at d) = px_xid px \<and> ifi_kind (xeth_msg_ifinfo_at d) = xeth_dev_kind_code (px_kind px)
     \<and> ifi_reason (xeth_msg_ifinfo_at d) = xeth_msg_ifinfo_reason_code rs"

lemma ifinfo_told:
  assumes "sb_ready k m w" and "px_mux (w_proxy w q) = Some m" and "px_xid (w_proxy w q) \<noteq> 0"
    and "addrs_ok (w_nd w (px_nd (w_proxy w q)))"
  shows "\<exists>w' d. xeth_sbtx_ifinfo k q f rs w = Inr (0, w') \<and> sent_msgs m w [d] w' \<and> ifinfo_msg (w_proxy w q) rs d"
proof -
  let ?a = "(k, w_proxy w q, m, f, rs, w)"
  have b: "in_bounds 72 (ifinfo_fields k (w_proxy w q) m f rs w)"
    using msg_ifinfo.bounds[of ?a] assms(4) by (simp add: addrs_ok_def xeth_sizeofs)
  have v: "ifinfo_msg (w_proxy w q) rs (message XETH_MSG_KIND_IFINFO 72 (ifinfo_fields k (w_proxy w q) m f rs w))"
    using msg_ifinfo.view[of ?a] assms(4) message_header[OF _ b, of XETH_MSG_KIND_IFINFO]
    by (simp add: addrs_ok_def xeth_sizeofs ifinfo_msg_def xeth_msg_kind_at_def Let_def)
  from sent_one[OF assms(1) _ b, of XETH_MSG_KIND_IFINFO] v assms(2,3) show ?thesis
    by (auto simp: xeth_sbtx_ifinfo_def Let_def xeth_sizeofs)
qed

text \<open>
  Adding a proxy with a free XID and registering its device: the table is the old one with the XID
  mapped to the proxy, and the queue of messages is as it was.
\<close>

lemma entered:
  assumes "table_inv k m w" and "sb_ready k m w" and "px_mux (w_proxy w nd) = Some m" and "nd \<notin> set (proxies m w)"
    and "px_kind (w_proxy w nd) \<noteq> XETH_DEV_KIND_UNSPEC" and "k_register_netdevice k (w_trace w) nd = (0, b)"
  shows "\<exists>v u. xeth_mux_add_proxy k nd w = Inr v \<and> register_netdevice k nd v = Inr (0, u) \<and> only_registered nd v u
    \<and> w_nd v = w_nd w \<and> w_vlan_link v = w_vlan_link w \<and> w_proxy u = w_proxy w \<and> table_inv k m u \<and> sb_ready k m u \<and> queued_msgs m u = queued_msgs m w
    \<and> set (proxies m u) = insert nd (set (proxies m w))
    \<and> xeth_mux_proxy_of_xid k m u = (xeth_mux_proxy_of_xid k m w)(px_xid (w_proxy w nd) \<mapsto> nd)"
proof -
  from add_proxy_spec[OF assms(1,3,4,5)] obtain v where v: "xeth_mux_add_proxy k nd w = Inr v" "table_inv k m v"
    "set (proxies m v) = insert nd (set (proxies m w))" "w_proxy v = w_proxy w"
    "xeth_mux_proxy_of_xid k m v = (xeth_mux_proxy_of_xid k m w)(px_xid (w_proxy w nd) \<mapsto> nd)"
    by (auto simp: fun_eq_iff)
  note vf = add_proxy_frame[OF v(1)]
  have "k_register_netdevice k (w_trace v) nd = (0, b)" using assms(6) vf by simp
  from register_ok[OF this] obtain u where u: "register_netdevice k nd v = Inr (0, u)" "only_registered nd v u" by blast
  note st = only_registered_table(1)[OF u(2), of m]
  show ?thesis
    using u v vf assms(2) only_registered_table(2,3)[OF u(2)] same_table_inv[OF st] same_table_lookup[OF st] same_table_proxies[OF st]
    by (intro exI[of _ v] exI[of _ u]) (simp add: only_registered_def)
qed

lemma add_and_register_ok:
  assumes "table_inv k m w" and "sb_ready k m w" and "px_mux (w_proxy w nd) = Some m" and "nd \<notin> set (proxies m w)"
    and "px_kind (w_proxy w nd) \<noteq> XETH_DEV_KIND_UNSPEC" and "k_register_netdevice k (w_trace w) nd = (0, b)"
    and "px_xid (w_proxy w nd) \<noteq> 0" and "px_nd (w_proxy w nd) = nd" and "addrs_ok (w_nd w nd)"
  shows "\<exists>w' d. add_and_register k nd w = Inr (0, w') \<and> table_inv k m w'
    \<and> xeth_mux_proxy_of_xid k m w' = (xeth_mux_proxy_of_xid k m w)(px_xid (w_proxy w nd) \<mapsto> nd)
    \<and> queued_msgs m w' = queued_msgs m w @ [d] \<and> ifinfo_msg (w_proxy w nd) XETH_IFINFO_REASON_NEW d
    \<and> (\<forall>n. n \<noteq> nd \<longrightarrow> w_nd w' n = w_nd w n) \<and> nd_registered (w_nd w' nd)
    \<and> nd_dev_addr (w_nd w' nd) = nd_dev_addr (w_nd w nd) \<and> w_vlan_link w' = w_vlan_link w"
proof -
  from entered[OF assms(1-6)] obtain v u where u: "xeth_mux_add_proxy k nd w = Inr v" "register_netdevice k nd v = Inr (0, u)"
    "only_registered nd v u" "w_nd v = w_nd w" "w_proxy u = w_proxy w" "table_inv k m u" "sb_ready k m u"
    "queued_msgs m u = queued_msgs m w" "w_vlan_link v = w_vlan_link w"
    "xeth_mux_proxy_of_xid k m u = (xeth_mux_proxy_of_xid k m w)(px_xid (w_proxy w nd) \<mapsto> nd)" by blast
  have "addrs_ok (w_nd u (px_nd (w_proxy u nd)))"
    using only_registered_table(4)[OF u(3), of nd] u(4,5) assms(8,9) by simp
  with ifinfo_told[OF u(7), of nd 0 XETH_IFINFO_REASON_NEW] u(5) assms(3,7) obtain w' d where
    w': "xeth_sbtx_ifinfo k nd 0 XETH_IFINFO_REASON_NEW u = Inr (0, w')" "sent_msgs m u [d] w'"
      "ifinfo_msg (w_proxy w nd) XETH_IFINFO_REASON_NEW d" by auto
  note st = sent_msgs_table[OF w'(2)]
  show ?thesis
    using u w' same_table_inv[OF st] same_table_lookup[OF st] sent_msgs_frame[OF w'(2)] sb_ext_frame[of m u w']
    by (intro exI[of _ w'] exI[of _ d]) (auto simp: add_and_register_def sent_msgs_def only_registered_def Let_def)
qed

section \<open>Creation\<close>

lemma vlan_xid_nonzero: "vid_ok vid \<Longrightarrow> vlan_xid encap xid vid \<noteq> 0"
  using vid_over_xid(2)[of 0 XETH_ENCAP_VLAN_VID_BIT vid] vid_over_xid(2)[of 0 XETH_ENCAP_VPLS_VID_BIT vid]
  by (cases encap) (auto simp: vlan_xid_def vid_ok_def VLAN_N_VID_def or_eq_0_iff XETH_ENCAP_VLAN_VID_BIT_def XETH_ENCAP_VPLS_VID_BIT_def)

lemma member_mux: "table_inv k m w \<Longrightarrow> q \<in> set (proxies m w) \<Longrightarrow> px_mux (w_proxy w q) = Some m"
  unfolding table_inv_def proxies_def set_concat_nth by metis



text \<open>A proxy that has left the table cannot leave it again.\<close>

lemma second_uninit:
  assumes "sb_ready k m w" and "px_mux (w_proxy w q) = Some m" and "px_xid (w_proxy w q) \<noteq> 0"
    and "addrs_ok (w_nd w (px_nd (w_proxy w q)))" and "q \<notin> set (proxies m w)"
  shows "xeth_proxy_uninit k q w = Inl Null_deref"
proof -
  from ifinfo_told[OF assms(1-4), of 0 XETH_IFINFO_REASON_DEL] obtain u d where
    u: "xeth_sbtx_ifinfo k q 0 XETH_IFINFO_REASON_DEL w = Inr (0, u)" "sent_msgs m w [d] u" by blast
  have "q \<notin> set (proxies m u)" "w_proxy u = w_proxy w"
    using assms(5) same_table_proxies[OF sent_msgs_table[OF u(2)]] sent_msgs_frame[OF u(2)] by simp_all
  then have "xeth_mux_del_proxy q u = Inl Null_deref"
    using assms(2) by (simp add: xeth_mux_del_proxy_def proxies_def)
  with u(1) show ?thesis by (simp add: xeth_proxy_uninit_def ignore_err_def)
qed

text \<open>The world in which a new lag has been registered and reported, before its first member joins.\<close>

definition lag_made :: "kapi \<Rightarrow> ndp \<Rightarrow> ndp \<Rightarrow> u32 \<Rightarrow> ndp \<Rightarrow> world \<Rightarrow> u8 list \<Rightarrow> world \<Rightarrow> bool" where
  "lag_made k m lag xid link w d u \<longleftrightarrow> table_inv k m u \<and> sb_ready k m u
     \<and> set (proxies m u) = insert lag (set (proxies m w))
     \<and> xeth_mux_proxy_of_xid k m u = (xeth_mux_proxy_of_xid k m w)(xid \<mapsto> lag)
     \<and> queued_msgs m u = queued_msgs m w @ [d] \<and> ifinfo_msg (w_proxy u lag) XETH_IFINFO_REASON_NEW d
     \<and> px_mux (w_proxy u lag) = Some m \<and> px_xid (w_proxy u lag) = xid \<and> px_nd (w_proxy u lag) = lag
     \<and> w_proxy u link = w_proxy w link \<and> w_nd u link = w_nd w link \<and> addrs_ok (w_nd u lag)
     \<and> nd_lowers (w_nd u lag) = nd_lowers (w_nd w lag) \<and> nd_netdev_ops (w_nd u lag) = nd_netdev_ops (w_nd w lag)
     \<and> nd_flags (w_nd u lag) AND IFF_UP = nd_flags (w_nd w lag) AND IFF_UP"

lemma lag_newlink_made:
  assumes "table_inv k m w" and "sb_ready k m w" and "lag \<notin> set (proxies m w)" and "px_kind (w_proxy w lag) = XETH_DEV_KIND_LAG"
    and "k_register_netdevice k (w_trace w) lag = (0, b)" and "IFLA_LINK t = Some ifx"
    and "k_dev_get_by_index k (nd_net (w_nd w lag)) ifx = Some link" and "link \<in> set (proxies m w)"
    and "xeth_lag_ok_lower link w = 0" and "addrs_ok (w_nd w link)" and "addrs_ok (w_nd w lag)"
    and "find_xid_up k m w 3000 = Some xid"
  shows "\<exists>u d. lag_made k m lag xid link w d u \<and> xeth_lag_newlink k lag (Some t) data w =
    bindR (xeth_lag_add_lower k lag link u) (\<lambda>(err, w).
      if err < 0
      then bindR (xeth_mux_del_proxy lag w) (\<lambda>w.
           bindR (ignore_err (xeth_sbtx_ifinfo k lag 0 XETH_IFINFO_REASON_DEL w)) (\<lambda>w.
           bindR (unregister_netdevice k lag w) (\<lambda>w. Inr (err, w))))
      else Inr (0, w))"
proof -
  have ne: "link \<noteq> lag" using assms(3,8) by auto
  define w1 where "w1 = set_xid lag xid (upper_prepare lag link w)"
  note wdefs = w1_def set_xid_def upper_prepare_def set_proxy_def inherit_mtu_def eth_hw_addr_inherit_def
  have mux: "w_mux w1 = w_mux w" and px: "\<And>p. p \<noteq> lag \<Longrightarrow> w_proxy w1 p = w_proxy w p" and tr: "w_trace w1 = w_trace w"
    by (simp_all add: wdefs)
  note tab = table_upd_proxy[OF assms(1,3) mux px]
  have prep: "w_mux (upper_prepare lag link w) = w_mux w" "\<And>p. p \<noteq> lag \<Longrightarrow> w_proxy (upper_prepare lag link w) p = w_proxy w p"
    "proxy_mux lag (upper_prepare lag link w) = Inr m"
    using member_mux[OF assms(1,8)] by (simp_all add: wdefs proxy_mux_def)
  have xid: "find_xid_up k m (upper_prepare lag link w) 3000 = Some xid"
    using find_xid_up_cong[OF table_upd_proxy(3)[OF assms(1,3) prep(1,2)]] assms(12) by simp
  have l1: "px_mux (w_proxy w1 lag) = Some m" "px_kind (w_proxy w1 lag) = XETH_DEV_KIND_LAG" "px_xid (w_proxy w1 lag) = xid"
    "px_nd (w_proxy w1 lag) = lag" "w_nd w1 link = w_nd w link" "addrs_ok (w_nd w1 lag)" "nd_lowers (w_nd w1 lag) = nd_lowers (w_nd w lag)"
    "nd_netdev_ops (w_nd w1 lag) = nd_netdev_ops (w_nd w lag)" "nd_flags (w_nd w1 lag) = nd_flags (w_nd w lag)"
    using assms(4,10,11) ne member_mux[OF assms(1,8)] by (simp_all add: wdefs addrs_ok_def)
  have r1: "sb_ready k m w1" "queued_msgs m w1 = queued_msgs m w"
    using assms(2) sb_ready_cong[of w1 m w k] mux by (simp_all add: queued_msgs_def)
  have "lag \<notin> set (proxies m w1)" "k_register_netdevice k (w_trace w1) lag = (0, b)" using tab(2) assms(3,5) tr by simp_all
  from entered[OF tab(1) r1(1) l1(1) this(1) _ this(2)] l1(2) obtain v u0 where
    u0: "xeth_mux_add_proxy k lag w1 = Inr v" "register_netdevice k lag v = Inr (0, u0)" "only_registered lag v u0"
      "w_nd v = w_nd w1" "w_proxy u0 = w_proxy w1" "table_inv k m u0" "sb_ready k m u0" "queued_msgs m u0 = queued_msgs m w1"
      "set (proxies m u0) = insert lag (set (proxies m w1))"
      "xeth_mux_proxy_of_xid k m u0 = (xeth_mux_proxy_of_xid k m w1)(px_xid (w_proxy w1 lag) \<mapsto> lag)" by auto
  have "addrs_ok (w_nd u0 (px_nd (w_proxy u0 lag)))"
    using only_registered_table(4)[OF u0(3), of lag] u0(4,5) l1 by simp
  with ifinfo_told[OF u0(7), of lag 0 XETH_IFINFO_REASON_NEW] u0(5) l1 find_xid_up_SomeD(2)[OF assms(12)]
  obtain u d where u: "xeth_sbtx_ifinfo k lag 0 XETH_IFINFO_REASON_NEW u0 = Inr (0, u)" "sent_msgs m u0 [d] u"
      "ifinfo_msg (w_proxy u0 lag) XETH_IFINFO_REASON_NEW d" by auto
  note st = sent_msgs_table[OF u(2)]
  have "lag_made k m lag xid link w d u"
    using u0 u l1 r1 tab ne px[OF ne] same_table_inv[OF st, of k] same_table_lookup[OF st, of k] same_table_proxies[OF st]
      sent_msgs_frame[OF u(2)] sent_msgs_ready[OF u0(7) u(2)]
    by (simp add: lag_made_def only_registered_def sent_msgs_def Let_def)
  moreover have "xeth_lag_newlink k lag (Some t) data w = bindR (xeth_lag_add_lower k lag link u) (\<lambda>(err, w).
      if err < 0
      then bindR (xeth_mux_del_proxy lag w) (\<lambda>w.
           bindR (ignore_err (xeth_sbtx_ifinfo k lag 0 XETH_IFINFO_REASON_DEL w)) (\<lambda>w.
           bindR (unregister_netdevice k lag w) (\<lambda>w. Inr (err, w))))
      else Inr (0, w))"
    using assms(6,7,9) prep(3) xid u0(1,2) u(1)
    by (simp add: xeth_lag_newlink_def nla_link_def w1_def ignore_err_def Let_def)
  ultimately show ?thesis by blast
qed

text \<open>
  C12: A new lag over an eligible port: when the kernel links the two, the lag is in the table at the
  first free XID, the port is its only member, and the daemon is told of the new interface and of the
  membership. When the kernel refuses, the clean up removes the proxy by itself and then once more
  through the unregistration, and so goes through a poisoned list pointer.
\<close>

theorem lag_newlink_outcome:
  assumes "table_inv k m w" and "sb_ready k m w" and "lag \<notin> set (proxies m w)" and "px_kind (w_proxy w lag) = XETH_DEV_KIND_LAG"
    and "k_register_netdevice k (w_trace w) lag = (0, b)" and "IFLA_LINK t = Some ifx"
    and "k_dev_get_by_index k (nd_net (w_nd w lag)) ifx = Some link" and "link \<in> set (proxies m w)"
    and "xeth_lag_ok_lower link w = 0" and "addrs_ok (w_nd w link)" and "addrs_ok (w_nd w lag)"
    and "find_xid_up k m w 3000 = Some xid"
    and "nd_netdev_ops (w_nd w lag) = xeth_lag_ndo" and "nd_lowers (w_nd w lag) = []" and "nd_flags (w_nd w lag) AND IFF_UP = 0"
    and "\<forall>tr. k_master_upper_dev_link k tr link lag = e" and "e \<le> 0"
  shows "if e = 0
    then \<exists>w' d c. xeth_lag_newlink k lag (Some t) data w = Inr (0, w') \<and> table_inv k m w'
      \<and> xeth_mux_proxy_of_xid k m w' = (xeth_mux_proxy_of_xid k m w)(xid \<mapsto> lag)
      \<and> nd_lowers (w_nd w' lag) = [link] \<and> nd_master (w_nd w' link) = Some lag
      \<and> queued_msgs m w' = queued_msgs m w @ [d, c]
      \<and> ifi_xid (xeth_msg_ifinfo_at d) = xid \<and> ifi_reason (xeth_msg_ifinfo_at d) = xeth_msg_ifinfo_reason_code XETH_IFINFO_REASON_NEW
      \<and> xeth_msg_change_upper_xid_at c = \<lparr>cu_upper = xid, cu_lower = px_xid (w_proxy w link), cu_linking = 1\<rparr>
    else xeth_lag_newlink k lag (Some t) data w = Inl Null_deref"
proof -
  from lag_newlink_made[OF assms(1-12), of data] obtain u d where made: "lag_made k m lag xid link w d u"
    and run: "xeth_lag_newlink k lag (Some t) data w = bindR (xeth_lag_add_lower k lag link u) (\<lambda>(err, w).
      if err < 0
      then bindR (xeth_mux_del_proxy lag w) (\<lambda>w.
           bindR (ignore_err (xeth_sbtx_ifinfo k lag 0 XETH_IFINFO_REASON_DEL w)) (\<lambda>w.
           bindR (unregister_netdevice k lag w) (\<lambda>w. Inr (err, w))))
      else Inr (0, w))" by blast
  note lm = made[unfolded lag_made_def]
  have nl: "w_nd u link = w_nd w link" using lm by simp
  have ok: "xeth_lag_ok_lower link u = 0" using assms(9) by (simp only: xeth_lag_ok_lower_def nl)
  show ?thesis
  proof (cases "e = 0")
    case True
    from lag_admits[of k m u lag link] lm ok True assms(14,16) obtain w' c where
      w': "xeth_lag_add_lower k lag link u = Inr (0, w')" "queued_msgs m w' = queued_msgs m u @ [c]" "same_table m u w'"
      "nd_lowers (w_nd w' lag) = [link]" "nd_master (w_nd w' link) = Some lag"
      "xeth_msg_change_upper_xid_at c = \<lparr>cu_upper = xid, cu_lower = px_xid (w_proxy w link), cu_linking = 1\<rparr>" by auto
    with True lm run same_table_inv[OF w'(3), of k] same_table_lookup[OF w'(3), of k] show ?thesis
      by (auto simp: ifinfo_msg_def)
  next
    case False
    obtain v where v: "netdev_master_upper_dev_link k link lag u = (e, v)"
      using assms(16) link_dev_err[of k link lag u] by (cases "netdev_master_upper_dev_link k link lag u") simp
    note vf = link_dev_mux[OF v] link_links(2)[OF v False]
    have add: "xeth_lag_add_lower k lag link u = Inr (e, v)"
      using ok False v lm assms(14) by (simp add: xeth_lag_add_lower_def xeth_lag_n_lowers_def)
    have tv: "table_inv k m v" "lag \<in> set (proxies m v)" "sb_ready k m v"
      using lm vf same_table_inv[OF same_tableI, of v u m k] sb_ready_cong[of v m u k] by (simp_all add: proxies_def)
    from del_proxy_spec[OF tv(1,2)] obtain x where x: "xeth_mux_del_proxy lag v = Inr x" "lag \<notin> set (proxies m x)"
      "w_proxy x = w_proxy v" by auto
    have xr: "sb_ready k m x" "w_nd x = w_nd u" using del_proxy_frame[OF x(1)] tv(3) vf by simp_all
    have lx: "px_mux (w_proxy x lag) = Some m" "px_xid (w_proxy x lag) \<noteq> 0" "addrs_ok (w_nd x (px_nd (w_proxy x lag)))"
      using lm vf x(3) xr(2) find_xid_up_SomeD(2)[OF assms(12)] by simp_all
    from ifinfo_told[OF xr(1) lx, of 0 XETH_IFINFO_REASON_DEL] obtain y c where
      y: "xeth_sbtx_ifinfo k lag 0 XETH_IFINFO_REASON_DEL x = Inr (0, y)" "sent_msgs m x [c] y" by blast
    let ?z = "log_event (Ev_unregister_netdevice lag) y"
    have z: "sb_ready k m ?z" "w_proxy ?z = w_proxy x" "w_nd ?z = w_nd u" "lag \<notin> set (proxies m ?z)"
      using sent_msgs_ready[OF xr(1) y(2)] sb_ready_cong[of ?z m y k] sent_msgs_frame[OF y(2)] xr(2) x(2)
        same_table_proxies[OF sent_msgs_table[OF y(2)]] by (simp_all add: proxies_def)
    have "xeth_lag_uninit k lag ?z = Inl Null_deref"
      using second_uninit[OF z(1), of lag] lx z lm assms(14) xr by (simp add: xeth_lag_uninit_def)
    then have "unregister_netdevice k lag y = Inl Null_deref"
      using z(3) lm assms(13,15) by (simp add: unregister_netdevice_def Let_def)
    with run add x(1) y(1) False assms(17) show ?thesis by (simp add: ignore_err_def)
  qed
qed

lemma sample_lag_setup:
  defines "w \<equiv> xeth_lag_setup 10 sample_world"
  shows "table_inv sample_kapi 1 w" "sb_ready sample_kapi 1 w" "proxies 1 w = proxies 1 sample_world"
    "px_kind (w_proxy w 10) = XETH_DEV_KIND_LAG" "nd_netdev_ops (w_nd w 10) = xeth_lag_ndo" "nd_lowers (w_nd w 10) = []"
    "nd_flags (w_nd w 10) AND IFF_UP = 0" "addrs_ok (w_nd w 10)" "w_nd w 3 = w_nd sample_world 3" "w_proxy w 3 = w_proxy sample_world 3"
    "find_xid_up sample_kapi 1 w 3000 = Some 3004" "w_mux w = w_mux sample_world"
proof -
  note ws = w_def xeth_lag_setup_def xeth_proxy_setup_def set_kind_def Let_def
  show mux: "w_mux w = w_mux sample_world" by (simp add: ws)
  have px: "\<And>p. p \<noteq> 10 \<Longrightarrow> w_proxy w p = w_proxy sample_world p" by (simp add: ws)
  have "10 \<notin> set (proxies 1 sample_world)" by (simp add: proxies_def sample_defs)
  note tab = table_upd_proxy[OF sample_table_inv this mux px]
  have "find_xid_up sample_kapi 1 sample_world 3000 = Some 3004"
    by (simp add: find_xid_up.simps xeth_mux_proxy_of_xid_def sample_defs)
  then show "find_xid_up sample_kapi 1 w 3000 = Some 3004" using find_xid_up_cong[OF tab(3)] by simp
  show "table_inv sample_kapi 1 w" "proxies 1 w = proxies 1 sample_world" using tab by simp_all
  show "sb_ready sample_kapi 1 w" using sample_ready sb_ready_cong[of w 1 sample_world] mux by simp
qed (simp_all add: w_def xeth_lag_setup_def xeth_proxy_setup_def set_kind_def Let_def ether_setup_def addrs_ok_def sample_defs
    IFF_BROADCAST_def IFF_MULTICAST_def IFF_UP_def)

theorem lag_newlink_outcome_witness:
  "(\<exists>w'. xeth_lag_newlink sample_kapi 10 (Some \<lparr>IFLA_LINK = Some 3, IFLA_ADDRESS = None, IFLA_IFNAME = None\<rparr>) None
       (xeth_lag_setup 10 sample_world) = Inr (0, w') \<and> xeth_mux_proxy_of_xid sample_kapi 1 w' 3004 = Some 10
       \<and> nd_lowers (w_nd w' 10) = [3] \<and> length (queued_msgs 1 w') = 2)"
proof -
  note s = sample_lag_setup
  have q: "queued_msgs 1 (xeth_lag_setup 10 sample_world) = []"
    unfolding queued_msgs_def s(12) by (simp add: sample_defs)
  have ok: "xeth_lag_ok_lower 3 (xeth_lag_setup 10 sample_world) = 0"
    unfolding xeth_lag_ok_lower_def s(9) by (simp add: is_xeth_port_def sample_defs IFF_SLAVE_def)
  have "3 \<in> set (proxies 1 (xeth_lag_setup 10 sample_world))" "10 \<notin> set (proxies 1 (xeth_lag_setup 10 sample_world))"
    "addrs_ok (w_nd (xeth_lag_setup 10 sample_world) 3)"
    unfolding s(3,9) by (simp_all add: proxies_def addrs_ok_def sample_defs)
  from lag_newlink_outcome[OF s(1,2) this(2) s(4) _ _ _ this(1) ok this(3) s(8) s(11) s(5-7), of True
      "\<lparr>IFLA_LINK = Some 3, IFLA_ADDRESS = None, IFLA_IFNAME = None\<rparr>" 3 0 None] q
  show ?thesis by (auto simp: sample_kapi_def)
qed

section \<open>Deletion\<close>

lemma ifinfo_keeps:
  assumes "xeth_sbtx_ifinfo k q f rs w = Inr (r, w')"
  shows "w_port w' = w_port w \<and> w_nd w' = w_nd w"
  using assms ifinfo_ext[of k q f rs w r w'] sb_ext_frame
  by (cases "px_mux (w_proxy w q)") (auto simp: xeth_sbtx_ifinfo_def Let_def)

lemma register_Inr0:
  assumes "register_netdevice k nd w = Inr (0, u)"
  shows "only_registered nd w u"
  using assms register_ok[of k w nd "snd (k_register_netdevice k (w_trace w) nd)"]
  by (cases "k_register_netdevice k (w_trace w) nd") (auto simp: register_netdevice_def bindR_eq_Inr Let_def split: if_splits)

lemma port_newlink_with_keeps:
  assumes "port_newlink_with k nd tb xid w = Inr (0, w')"
  shows "w_port w' = w_port w \<and> nd_netdev_ops (w_nd w' nd) = nd_netdev_ops (w_nd w nd)
    \<and> nd_flags (w_nd w' nd) AND IFF_UP = nd_flags (w_nd w nd) AND IFF_UP"
proof -
  define w1 where "w1 = (if has_ifname tb then set_xid nd xid w
     else upd_nd nd (\<lambda>d. d\<lparr>nd_name := take (IFNAMSIZ - 1) (''xeth-port'' @ dec_digits (unat xid))\<rparr>) (set_xid nd xid w))"
  from assms obtain v u r where s: "xeth_mux_add_proxy k nd w1 = Inr v" "register_netdevice k nd v = Inr (0, u)"
    "xeth_sbtx_ifinfo k nd 0 XETH_IFINFO_REASON_NEW u = Inr (r, w')"
    by (auto simp: port_newlink_with_def w1_def Let_def bindR_eq_Inr split: if_splits)
  have "w_port w1 = w_port w" "nd_netdev_ops (w_nd w1 nd) = nd_netdev_ops (w_nd w nd)" "nd_flags (w_nd w1 nd) = nd_flags (w_nd w nd)"
    by (simp_all add: w1_def set_xid_def)
  with add_proxy_frame[OF s(1)] register_Inr0[OF s(2)] ifinfo_keeps[OF s(3)] show ?thesis
    by (simp add: only_registered_def Let_def)
qed

text \<open>
  A port that was made through rtnetlink, whose private data has no room for the extension, cannot be
  removed: the unregistration reads the transceiver pointer beyond the end of the private data.
\<close>

theorem rtnl_port_removal_out_of_bounds:
  assumes "xeth_port_newlink fuel k nd tb data w = Some (Inr (0, w'))" and "pp_ext (w_port w nd) = None"
    and "nd_netdev_ops (w_nd w nd) = xeth_port_ndo" and "nd_flags (w_nd w nd) AND IFF_UP = 0"
  shows "unregister_netdevice k nd w' = Inl Out_of_bounds"
proof -
  from assms(1) obtain l m where "nla_link tb = Inr l" "k_dev_get_by_index k (nd_net (w_nd w nd)) l = Some m"
    by (auto simp: xeth_port_newlink_def split: sum.splits option.splits)
  define v where "v = upd_port nd (\<lambda>pp. pp\<lparr>pp_port := - 1, pp_subport := - 1\<rparr>) (inherit_mtu nd m (set_proxy nd (Some m) w))"
  with assms(1) \<open>nla_link tb = Inr l\<close> \<open>k_dev_get_by_index k _ l = Some m\<close>
  obtain xid where "port_newlink_with k nd tb xid v = Inr (0, w')"
    by (auto simp: xeth_port_newlink_def Let_def split: option.splits)
  from port_newlink_with_keeps[OF this] assms(2-4)
  have "pp_subport (w_port w' nd) = - 1" "pp_ext (w_port w' nd) = None" "nd_netdev_ops (w_nd w' nd) = xeth_port_ndo"
    "nd_flags (w_nd w' nd) AND IFF_UP = 0"
    by (simp_all add: v_def inherit_mtu_def set_proxy_def)
  then show ?thesis by (simp add: unregister_netdevice_def xeth_port_uninit_def port_ext_def Let_def)
qed

lemma queue_all:
  "fold (\<lambda>q w. log_event (Ev_unregister_queue (px_nd (w_proxy w q))) w) qs w =
     w\<lparr>w_trace := w_trace w @ map (\<lambda>q. Ev_unregister_queue (px_nd (w_proxy w q))) qs\<rparr>"
  by (induction qs arbitrary: w) simp_all

lemma all_kin:
  assumes "table_inv k m w"
  defines "p \<equiv> w_mux w m"
  shows "distinct (mx_bridges p @ mx_vlans p @ mx_lags p @ mx_ports p @ mx_lbs p)"
    and "set (mx_bridges p @ mx_vlans p @ mx_lags p @ mx_ports p @ mx_lbs p) = set (proxies m w)"
proof -
  have kin: "distinct (kin_list kd p) \<and> set (kin_list kd p) = {q \<in> set (proxies m w). px_kind (w_proxy w q) = kd}"
    if "kd \<noteq> XETH_DEV_KIND_UNSPEC" for kd using assms that by (simp add: table_inv_def kin_ok_def)
  note kins = kin[of XETH_DEV_KIND_BRIDGE] kin[of XETH_DEV_KIND_VLAN] kin[of XETH_DEV_KIND_LAG] kin[of XETH_DEV_KIND_PORT]
    kin[of XETH_DEV_KIND_LB]
  show "distinct (mx_bridges p @ mx_vlans p @ mx_lags p @ mx_ports p @ mx_lbs p)" using kins by auto
  have "px_kind (w_proxy w q) \<noteq> XETH_DEV_KIND_UNSPEC" if "q \<in> set (proxies m w)" for q
    using assms(1) that unfolding table_inv_def proxies_def set_concat_nth by metis
  then have "set (proxies m w) \<subseteq> (\<Union>kd \<in> - {XETH_DEV_KIND_UNSPEC}. set (kin_list kd p))" using kin by fastforce
  also have "- {XETH_DEV_KIND_UNSPEC} = {XETH_DEV_KIND_BRIDGE, XETH_DEV_KIND_VLAN, XETH_DEV_KIND_LAG, XETH_DEV_KIND_PORT, XETH_DEV_KIND_LB}"
    by (auto intro: xeth_dev_kind.exhaust)
  finally show "set (mx_bridges p @ mx_vlans p @ mx_lags p @ mx_ports p @ mx_lbs p) = set (proxies m w)" using kins by auto
qed

text \<open>
  When a registered mux is deleted, every device of its table is queued for unregistration exactly
  once, upper devices before the ones they stand on (bridges, vlans, lags, ports) and the mux itself
  last; its GPIO arrays are released first. An unregistered mux is left alone.
\<close>

theorem mux_dellink_queues_all:
  assumes "table_inv k m w" and "\<forall>q \<in> set (proxies m w). px_nd (w_proxy w q) = q"
  shows "if nd_registered (w_nd w m)
    then \<exists>gs qs. w_trace (xeth_mux_dellink m w) = w_trace w @ gs @ map Ev_unregister_queue (qs @ [m])
      \<and> (\<forall>n. Ev_unregister_queue n \<notin> set gs)
      \<and> qs = mx_bridges (w_mux w m) @ mx_vlans (w_mux w m) @ mx_lags (w_mux w m) @ mx_ports (w_mux w m) @ mx_lbs (w_mux w m)
      \<and> distinct qs \<and> set qs = set (proxies m w)
      \<and> mx_lpmode_gpios (w_mux (xeth_mux_dellink m w) m) = None
    else xeth_mux_dellink m w = w"
proof (cases "nd_registered (w_nd w m)")
  case True
  let ?p = "w_mux w m"
  let ?qs = "mx_bridges ?p @ mx_vlans ?p @ mx_lags ?p @ mx_ports ?p @ mx_lbs ?p"
  define gs where "gs = concat (map (\<lambda>g. case g of Some ds \<Rightarrow> [Ev_gpio_put ds] | None \<Rightarrow> [])
      [mx_absent_gpios ?p, mx_intr_gpios ?p, mx_lpmode_gpios ?p, mx_reset_gpios ?p])
    @ (if mx_stat_name_sysfs ?p then [Ev_remove_file m] else [])"
  have px: "map (\<lambda>q. Ev_unregister_queue (px_nd (w_proxy w q))) ?qs = map Ev_unregister_queue ?qs"
    using all_kin(2)[OF assms(1)] assms(2) by (intro map_cong refl) simp
  have put: "gpiod_put_array g v = v\<lparr>w_trace := w_trace v @ (case g of Some ds \<Rightarrow> [Ev_gpio_put ds] | None \<Rightarrow> [])\<rparr>" for g v
    by (simp add: gpiod_put_array_def split: option.split)
  have "w_trace (xeth_mux_dellink m w) = w_trace w @ gs @ map (\<lambda>q. Ev_unregister_queue (px_nd (w_proxy w q))) ?qs @ [Ev_unregister_queue m]"
    using True by (simp add: xeth_mux_dellink_def put queue_all unregister_netdevice_queue_def gs_def Let_def)
  moreover have "mx_lpmode_gpios (w_mux (xeth_mux_dellink m w) m) = None"
    using True by (simp add: xeth_mux_dellink_def put queue_all unregister_netdevice_queue_def Let_def)
  moreover have "\<forall>n. Ev_unregister_queue n \<notin> set gs" by (auto simp: gs_def split: option.splits if_splits)
  ultimately show ?thesis
    unfolding px using True all_kin[OF assms(1)] by (auto intro!: exI[of _ gs])
qed (simp add: xeth_mux_dellink_def)

theorem mux_dellink_queues_all_witness:
  "\<exists>gs. w_trace (xeth_mux_dellink 1 sample_world) = gs @ map Ev_unregister_queue [5, 4, 6, 3, 2, 1]
     \<and> (\<forall>n. Ev_unregister_queue n \<notin> set gs)"
proof -
  have "\<forall>q \<in> set (proxies 1 sample_world). px_nd (w_proxy sample_world q) = q" by (simp add: sample_defs)
  from mux_dellink_queues_all[OF sample_table_inv this] show ?thesis
    by (auto simp: sample_world_def sample_mux_def sample_nds_def sample_nd_def)
qed

lemma port_newlink_with_ok:
  assumes "has_ifname tb" and "add_and_register k nd (set_xid nd xid w) = Inr (0, w')"
  shows "port_newlink_with k nd tb xid w = Inr (0, w')"
  using assms by (auto simp: port_newlink_with_def add_and_register_def bindR_eq_Inr Let_def split: if_splits)

theorem rtnl_port_removal_out_of_bounds_witness:
  "\<exists>w'. xeth_port_newlink 9 sample_kapi 10 (Some \<lparr>IFLA_LINK = Some 1, IFLA_ADDRESS = None, IFLA_IFNAME = Some ''p''\<rparr>) None
      (alloc_port 10 ''p'' False sample_world) = Some (Inr (0, w')) \<and> unregister_netdevice sample_kapi 10 w' = Inl Out_of_bounds"
proof -
  let ?tb = "Some \<lparr>IFLA_LINK = Some 1, IFLA_ADDRESS = None, IFLA_IFNAME = Some ''p''\<rparr>" and ?w = "alloc_port 10 ''p'' False sample_world"
  define v where "v = upd_port 10 (\<lambda>pp. pp\<lparr>pp_port := - 1, pp_subport := - 1\<rparr>) (inherit_mtu 10 1 (set_proxy 10 (Some 1) ?w))"
  note vs = v_def inherit_mtu_def set_proxy_def alloc_port_def xeth_port_setup_def xeth_proxy_setup_def set_kind_def netif_carrier_def
    blank_nd_def ether_setup_def Let_def
  let ?u = "set_xid 10 3999 v"
  have mux: "w_mux v = w_mux sample_world" "w_trace v = []" and px: "\<And>p. p \<noteq> 10 \<Longrightarrow> w_proxy v p = w_proxy sample_world p"
    by (simp_all add: vs sample_world_def)
  have new: "10 \<notin> set (proxies 1 sample_world)" by (simp add: proxies_def sample_defs)
  have mu: "w_mux ?u = w_mux sample_world" "w_trace ?u = []" and pu: "\<And>p. p \<noteq> 10 \<Longrightarrow> w_proxy ?u p = w_proxy sample_world p"
    using mux px by (simp_all add: set_xid_def)
  note tv = table_upd_proxy[OF sample_table_inv new mux(1) px] and tu = table_upd_proxy[OF sample_table_inv new mu(1) pu]
  have "px_mux (w_proxy ?u 10) = Some 1" "px_kind (w_proxy ?u 10) = XETH_DEV_KIND_PORT" "px_xid (w_proxy ?u 10) \<noteq> 0"
    "px_nd (w_proxy ?u 10) = 10" "addrs_ok (w_nd ?u 10)"
    by (simp_all add: set_xid_def vs addrs_ok_def)
  moreover have "sb_ready sample_kapi 1 ?u" using sample_ready sb_ready_cong[of ?u 1 sample_world sample_kapi] mu(1) by simp
  moreover have "k_register_netdevice sample_kapi (w_trace ?u) 10 = (0, True)" by (simp add: sample_kapi_def)
  ultimately obtain w' where "add_and_register sample_kapi 10 ?u = Inr (0, w')"
    using add_and_register_ok[OF tu(1), of 10 True] new tu(2) by auto
  then have w': "port_newlink_with sample_kapi 10 ?tb 3999 v = Inr (0, w')" by (intro port_newlink_with_ok) (simp_all add: has_ifname_def)
  have "xeth_mux_proxy_of_xid sample_kapi 1 sample_world 3999 = None" by (simp add: xeth_mux_proxy_of_xid_def sample_defs)
  then have "xeth_mux_proxy_of_xid sample_kapi 1 v 3999 = None" using fun_cong[OF tv(3), of 3999] by simp
  then have "find_xid_down 9 sample_kapi 1 v xeth_port_top_vid = Some 3999"
    by (simp add: eval_nat_numeral xeth_port_top_vid_def)
  moreover have "k_dev_get_by_index sample_kapi net 1 = Some 1" for net by (simp add: sample_kapi_def)
  ultimately have run: "xeth_port_newlink 9 sample_kapi 10 ?tb None ?w = Some (Inr (0, w'))"
    using w' unfolding v_def by (simp add: xeth_port_newlink_def nla_link_def attr_def Let_def del: One_nat_def)
  have "pp_ext (w_port ?w 10) = None" "nd_netdev_ops (w_nd ?w 10) = xeth_port_ndo" "nd_flags (w_nd ?w 10) AND IFF_UP = 0"
    by (simp_all add: vs IFF_BROADCAST_def IFF_MULTICAST_def IFF_UP_def)
  from run rtnl_port_removal_out_of_bounds[OF run this] show ?thesis by blast
qed

end
