(* ===== verification/Xeth_Platform.thy ===== *)
theory Xeth_Platform
  imports Xeth_Probe Xeth_Life
begin

text \<open>
  What the platform drivers do, over the definitions of \<open>Xeth_Probe\<close>: the search for the lower links and its
  references, the addresses of the ports, and the state that a successful probe of the mux starts with.
\<close>

section \<open>The search for links by name\<close>

text \<open>A list of names as the property has it, with commas between.\<close>

fun commas :: "string list \<Rightarrow> string" where
  "commas [] = []"
| "commas [n] = n"
| "commas (n # ns) = n @ CHR '','' # commas ns"

lemma next_aka_commas:
  assumes "CHR '','' \<notin> set n"
  shows "next_aka n = (take 15 n, [])" and "next_aka (n @ CHR '','' # r) = (take 15 n, r)"
proof -
  have *: "\<forall>c \<in> set n. c \<noteq> CHR '',''" using assms by auto
  then have "takeWhile (\<lambda>c. c \<noteq> CHR '','') n = n" "dropWhile (\<lambda>c. c \<noteq> CHR '','') n = []"
    by (simp_all add: takeWhile_eq_all_conv)
  then show "next_aka n = (take 15 n, [])" unfolding next_aka_def by (simp only:) (simp add: IFNAMSIZ_def)
  from * have "takeWhile (\<lambda>c. c \<noteq> CHR '','') (n @ CHR '','' # r) = n" "dropWhile (\<lambda>c. c \<noteq> CHR '','') (n @ CHR '','' # r) = CHR '','' # r"
    by (simp_all add: takeWhile_append2 dropWhile_append2)
  then show "next_aka (n @ CHR '','' # r) = (take 15 n, r)" unfolding next_aka_def by (simp only:) (simp add: IFNAMSIZ_def)
qed

text \<open>
  C32: The scan of a list of alternative names finds what the list of names says: the device of the first
  name, cut to 15 characters, that the name space knows.
\<close>

theorem find_aka_first_known:
  assumes "\<forall>n \<in> set ns. CHR '','' \<notin> set n" and "ns \<noteq> []" and "last ns \<noteq> []"
  shows "find_aka byname (commas ns) =
    Option.bind (find (\<lambda>n. byname (take 15 n) \<noteq> None) ns) (\<lambda>n. byname (take 15 n))"
  using assms
proof (induction ns rule: commas.induct)
  case (2 n)
  then show ?case by (subst find_aka.simps) (simp add: next_aka_commas find_aka.simps[of _ "[]"] split: option.split)
next
  case (3 n n' ns)
  then show ?case by (subst find_aka.simps) (auto simp: next_aka_commas split: option.split)
qed simp

theorem find_aka_first_known_witness:
  "find_aka (\<lambda>n. if n = ''eth1'' then Some 8 else None) (commas [''enp3s0f1'', ''eth1'']) = Some 8"
  using find_aka_first_known[of "[''enp3s0f1'', ''eth1'']" "\<lambda>n. if n = ''eth1'' then Some 8 else None"] by simp

section \<open>References\<close>

text \<open>The references to a device that a log leaves behind.\<close>

definition dev_refs :: "kevent list \<Rightarrow> ndp \<Rightarrow> int" where
  "dev_refs tr x = int (count_list tr (Ev_dev_hold x)) - int (count_list tr (Ev_dev_put x))"

lemma dev_refs_append: "dev_refs (tr @ es) x = dev_refs tr x + dev_refs es x"
  by (simp add: dev_refs_def)

lemma put_all_refs: "dev_refs (w_trace (dev_put_all ds w)) x = dev_refs (w_trace w) x - int (count_list ds x)"
  unfolding dev_put_all_def by (induction ds arbitrary: w) (simp_all add: dev_refs_append dev_refs_def)

lemma count_update:
  assumes "l < length xs" and "xs ! l = None"
  shows "int (count_list (xs[l := Some d]) (Some x)) = int (count_list xs (Some x)) + (if x = d then 1 else 0)"
  using assms by (induction xs arbitrary: l) (auto simp: nth_Cons' list_update_code split: nat.splits if_splits)

lemma match_dev_refs:
  assumes "match_dev addrs nd ls (links, w) = (links', w')" and "\<forall>l \<in> set ls. l < length links"
  shows "length links' = length links \<and>
    dev_refs (w_trace w') x - int (count_list links' (Some x)) = dev_refs (w_trace w) x - int (count_list links (Some x))"
  using assms
proof (induction ls arbitrary: links w)
  case (Cons l ls)
  show ?case
  proof (cases "links ! l = None \<and> nd_dev_addr (w_nd w nd) = addrs ! l")
    case True
    with Cons.prems Cons.IH[of "links[l := Some nd]" "log_event (Ev_dev_hold nd) w"] count_update[of l links nd x] show ?thesis
      by (simp add: dev_refs_append) (simp add: dev_refs_def)
  next
    case False
    with Cons show ?thesis by auto
  qed
qed simp

lemma match_all_refs:
  assumes "match_all addrs devs w = (links, w')"
  shows "length links = length addrs \<and> dev_refs (w_trace w') x = dev_refs (w_trace w) x + int (count_list links (Some x))"
proof -
  have "length l' = length l \<and>
      dev_refs (w_trace w') x - int (count_list l' (Some x)) = dev_refs (w_trace v) x - int (count_list l (Some x))"
    if "fold (\<lambda>nd. match_dev addrs nd [0..<length addrs]) devs (l, v) = (l', w')" "length l = length addrs" for l l' v
    using that
  proof (induction devs arbitrary: l v)
    case (Cons nd devs)
    obtain l1 v1 where s: "match_dev addrs nd [0..<length addrs] (l, v) = (l1, v1)" by force
    with Cons match_dev_refs[OF s, of x] show ?case by force
  qed simp
  from this[of "replicate (length addrs) None" w links] assms show ?thesis
    by (simp add: match_all_def count_list_0_iff)
qed

lemma count_the: "None \<notin> set links \<Longrightarrow> count_list (map the links) x = count_list links (Some x)"
  by (induction links) auto

lemma count_the_filter: "count_list (map the (filter (\<lambda>l. \<exists>y. l = Some y) links)) x = count_list links (Some x)"
  by (induction links) auto

lemma akas_refs:
  assumes "akas_loop byname akas links w = (n, links', w')"
  shows "dev_refs (w_trace w') x - int (count_list links' x) = dev_refs (w_trace w) x - int (count_list links x)
    \<and> (if n < 0 then links' = [] else n = int (length links'))"
  using assms
proof (induction akas arbitrary: links w)
  case (Cons aka akas)
  show ?case
  proof (cases "find_aka byname aka")
    case None
    with Cons.prems show ?thesis by (auto simp: put_all_refs)
  next
    case (Some d)
    with Cons.prems Cons.IH[of "links @ [d]" "log_event (Ev_dev_hold d) w"] show ?thesis
      by (simp add: dev_refs_append) (simp add: dev_refs_def)
  qed
qed simp

text \<open>
  C31: The two searches for the lower links keep the books on references: whatever the properties say and
  whichever devices exist, afterwards exactly the links returned are held, once for each time that they
  are returned; a search that fails returns none and so has released all that it took.
\<close>

theorem link_search_references:
  "case if by_addr then xeth_mux_link_addrs pl d w else xeth_mux_link_akas pl d w of (n, links, w') \<Rightarrow>
     dev_refs (w_trace w') x = dev_refs (w_trace w) x + int (count_list links x)
     \<and> (if n < 0 then links = [] else n = int (length links))"
proof (cases by_addr)
  case True
  obtain links w' where m: "match_all (link_macs d) (pl_netdevs pl) w = (links, w')" by force
  from match_all_refs[OF m, of x] True show ?thesis
    by (auto simp: xeth_mux_link_addrs_def m put_all_refs count_the count_the_filter Let_def)
next
  case False
  show ?thesis
  proof (cases "dv_link_akas d")
    case (Some akas)
    obtain n ls w' where "akas_loop (pl_dev_get_by_name pl) (take xeth_mux_max_links akas) [] w = (n, ls, w')"
      by (metis prod_cases3)
    with akas_refs[OF this, of x] Some False show ?thesis by (auto simp: xeth_mux_link_akas_def)
  qed (simp add: xeth_mux_link_akas_def False)
qed

section \<open>Addresses of ports\<close>

lemma take_le_bytes: "take 6 (le_bytes 8 u) = le_bytes 6 u"
  by (simp add: le_bytes_def take_map)

lemma ether_of_u64: "ether_addr_to_u64 (u64_to_ether_addr u) = take_bit 48 u"
  by (rule bit_word_eqI)
    (auto simp: ether_addr_to_u64_def u64_to_ether_addr_def take_le_bytes bit_le_word le_bytes_def bit_simps)

lemma u64_to_ether_take: "u64_to_ether_addr (take_bit 48 u) = u64_to_ether_addr u"
proof -
  have "(ucast (drop_bit (8 * i) (take_bit 48 u)) :: u8) = ucast (drop_bit (8 * i) u)" if "i < 6" for i
    using that by (intro bit_word_eqI) (auto simp: bit_simps)
  then have "le_bytes 6 (take_bit 48 u) = le_bytes 6 u" by (simp add: le_bytes_def)
  then show ?thesis by (simp add: u64_to_ether_addr_def take_le_bytes)
qed

lemma u64_to_ether_eq: "u64_to_ether_addr u = u64_to_ether_addr v \<longleftrightarrow> take_bit 48 u = take_bit 48 v"
  by (metis ether_of_u64 u64_to_ether_take)

lemma unat_take48: "unat (take_bit 48 (u :: u64)) = unat u mod 2 ^ 48"
  by (simp only: unsigned_take_bit_eq) (simp add: take_bit_eq_mod)

lemma mod_48_64: "(n mod 2 ^ 64) mod 2 ^ 48 = n mod (2 ^ 48 :: nat)"
  by (rule mod_mod_cancel) (rule le_imp_power_dvd, simp)

lemma take48_add: "take_bit 48 (take_bit 48 (u :: u64) + v) = take_bit 48 (u + v)"
proof -
  have "(((unat u mod 2 ^ 48) + unat v) mod 2 ^ 64) mod 2 ^ 48 = ((unat u + unat v) mod 2 ^ 64) mod (2 ^ 48 :: nat)"
    unfolding mod_48_64 by (simp add: mod_add_left_eq)
  then show ?thesis by (simp only: word_unat_eq_iff unat_take48 unat_word_ariths len_bit0 len_num1) simp
qed

lemma take48_add_cancel:
  assumes "take_bit 48 (c + of_nat x :: u64) = take_bit 48 (c + of_nat y)" and "x < 2 ^ 48" and "y < 2 ^ 48"
  shows "x = y"
proof -
  have "take_bit 48 (take_bit 48 (c + of_nat x) + (- c)) = take_bit 48 (take_bit 48 (c + of_nat y) + (- c))"
    using assms(1) by simp
  then have "take_bit 48 (of_nat x :: u64) = take_bit 48 (of_nat y)" unfolding take48_add by simp
  then have "unat (of_nat x :: u64) mod 2 ^ 48 = unat (of_nat y :: u64) mod 2 ^ 48" by (metis unat_take48)
  then show ?thesis using assms(2,3) by (simp add: unat_of_nat)
qed

lemma next_addr_u64: "next_addr n (u64_to_ether_addr u) = u64_to_ether_addr (u + (1 + ucast n))"
proof -
  have "take_bit 48 (take_bit 48 (take_bit 48 u + 1) + ucast n) = take_bit 48 (u + 1 + ucast n)"
    using take48_add[of "take_bit 48 u + 1" "ucast n"] take48_add[of u "1 + ucast n"] by (simp add: add.assoc)
  then show ?thesis by (simp add: next_addr_def ether_of_u64 u64_to_ether_eq add.assoc)
qed

lemma next_addr_iter: "(next_addr n ^^ s) (u64_to_ether_addr u) = u64_to_ether_addr (u + of_nat s * (1 + ucast n))"
  by (induction s arbitrary: u) (simp_all add: next_addr_u64 funpow_swap1 algebra_simps)

lemma qsfp_bus_tables:
  "distinct mk1_qsfp_bus" "distinct alpha_qsfp_bus" "length mk1_qsfp_bus = 32" "length alpha_qsfp_bus = 32"
  by (code_simp)+

lemma mk1_addr:
  "(next_addr 32 ^^ r) (xeth_port_addr_prop (mk1_ppd b a n)) = u64_to_ether_addr (2 + ether_addr_to_u64 a + of_nat (n + 33 * r))"
  unfolding xeth_port_addr_prop_def mk1_ppd_def by (simp add: next_addr_iter) (simp add: algebra_simps)

lemma port_subport_code:
  assumes "p < 33" and "q < 33"
  shows "p + 33 * s = q + 33 * t \<longleftrightarrow> p = q \<and> s = (t :: nat)"
proof
  assume eq: "p + 33 * s = q + 33 * t"
  have "(p + 33 * s) mod 33 = p" "(q + 33 * t) mod 33 = q" using assms by simp_all
  with eq have "p = q" by metis
  with eq show "p = q \<and> s = t" by simp
qed simp

text \<open>
  C30: No two ports or subports that a Platina mark one makes share an Ethernet address, nor two ports an
  I2C bus: the address of a subport is the address of its port plus 33 per subport, with the 32 ports
  of consecutive addresses.
\<close>

theorem mk1_addresses_distinct:
  assumes "p < 32" and "q < 32" and "s < 4" and "t < 4"
  shows "((next_addr 32 ^^ s) (xeth_port_addr_prop (mk1_ppd b a p)) = (next_addr 32 ^^ t) (xeth_port_addr_prop (mk1_ppd b a q))
      \<longleftrightarrow> p = q \<and> s = t)
    \<and> (xeth_port_qsfp_bus_prop (mk1_ppd b a p) = xeth_port_qsfp_bus_prop (mk1_ppd b a q) \<longleftrightarrow> p = q)"
proof -
  have lt: "p + 33 * s < 2 ^ 48" "q + 33 * t < 2 ^ 48" using assms by simp_all
  have "(next_addr 32 ^^ s) (xeth_port_addr_prop (mk1_ppd b a p)) = (next_addr 32 ^^ t) (xeth_port_addr_prop (mk1_ppd b a q))
      \<longleftrightarrow> p + 33 * s = q + 33 * t"
    unfolding mk1_addr u64_to_ether_eq using take48_add_cancel[OF _ lt] by metis
  moreover have "xeth_port_qsfp_bus_prop (mk1_ppd b a p) = xeth_port_qsfp_bus_prop (mk1_ppd b a q) \<longleftrightarrow> p = q"
    using assms(1,2) qsfp_bus_tables by (simp add: xeth_port_qsfp_bus_prop_def mk1_ppd_def nth_eq_iff_index_eq)
  ultimately show ?thesis using port_subport_code[of p q s t] assms(1,2) by simp
qed

theorem mk1_addresses_distinct_witness:
  "(next_addr 32 ^^ 3) (xeth_port_addr_prop (mk1_ppd 1 [2, 0, 0, 0, 255, 255] 31))
     \<noteq> (next_addr 32 ^^ 0) (xeth_port_addr_prop (mk1_ppd 1 [2, 0, 0, 0, 255, 255] 0))"
  using mk1_addresses_distinct[of 31 0 3 0 1 "[2, 0, 0, 0, 255, 255]"] by simp

section \<open>Probe of the mux\<close>

text \<open>The private data of a mux without proxies and messages.\<close>

definition fresh :: "xeth_mux_priv \<Rightarrow> bool" where
  "fresh p \<longleftrightarrow> mx_hls p = replicate xeth_mux_proxy_hash_bkts [] \<and> (\<forall>kd. kin_list kd p = [])
     \<and> mx_counters p = replicate xeth_mux_n_counters 0 \<and> mx_sb_tx p = [] \<and> mx_sb_free p = [] \<and> mx_flags p = 0
     \<and> length (mx_link_stats p) = XETH_N_LINK_STAT \<and> length (mx_link p) = xeth_mux_link_hash_bkts \<and> stat_names_ok p"

lemma kin_list_empty: "(\<forall>kd. kin_list kd p = []) \<longleftrightarrow>
   mx_ports p = [] \<and> mx_vlans p = [] \<and> mx_bridges p = [] \<and> mx_lags p = [] \<and> mx_lbs p = []"
proof
  assume "\<forall>kd. kin_list kd p = []"
  from this[rule_format, of XETH_DEV_KIND_PORT] this[rule_format, of XETH_DEV_KIND_VLAN] this[rule_format, of XETH_DEV_KIND_BRIDGE]
    this[rule_format, of XETH_DEV_KIND_LAG] this[rule_format, of XETH_DEV_KIND_LB]
  show "mx_ports p = [] \<and> mx_vlans p = [] \<and> mx_bridges p = [] \<and> mx_lags p = [] \<and> mx_lbs p = []" by simp
next
  assume "mx_ports p = [] \<and> mx_vlans p = [] \<and> mx_bridges p = [] \<and> mx_lags p = [] \<and> mx_lbs p = []"
  then show "\<forall>kd. kin_list kd p = []" by (intro allI, rename_tac kd, case_tac kd) simp_all
qed

lemma fresh_inv:
  assumes "fresh (w_mux w m)"
  shows "proxies m w = []" and "hash_ok k \<Longrightarrow> table_inv k m w" and "sb_inv (w_mux w m)"
  using assms by (auto simp: fresh_def proxies_def table_inv_def kin_ok_def sb_inv_def xeth_mux_get_def xeth_mux_n_counters_def)

lemma length_gstring: "length (gstring s) = ETH_GSTRING_LEN"
  by (simp add: gstring_def)

lemma stats_prop_ok: "length (xeth_mux_stats_prop d) \<le> xeth_mux_max_stats" "list_all (\<lambda>n. length n = ETH_GSTRING_LEN) (xeth_mux_stats_prop d)"
  by (auto simp: xeth_mux_stats_prop_def length_gstring list_all_iff split: option.splits)

lemma fold_update_replicate: "fold (\<lambda>i xs. xs[i := x]) is (replicate n x) = replicate n x"
proof -
  have "(replicate n x)[i := x] = replicate n x" for i 
    by (cases "i < n") (simp_all add: list_update_same_conv list_update_beyond)
  then show ?thesis by (induction "is") simp_all
qed

lemma fresh_alloc: "fresh (mux_props d addrs m (w_mux (alloc_mux m name w) m))"
  using stats_prop_ok[of d]
  by (auto simp: fresh_def kin_list_empty mux_props_def alloc_mux_def xeth_mux_setup_def xeth_mux_priv_init_def blank_mux_def
      stat_names_ok_def fold_update_replicate xeth_mux_counter_init_def xeth_link_stat_init_def list_all_iff Let_def)

text \<open>Binding a lower device touches nothing of the mux but its link table.\<close>

lemma if_ok_mux: "(\<And>w. w_mux (snd (f w)) = w_mux w) \<Longrightarrow> w_mux (snd (if_ok r f)) = w_mux (snd r)"
  by (cases r) (simp add: if_ok_def)

lemma bind_lower_mux:
  "\<exists>ht. length ht = length (mx_link (w_mux w m)) \<and> w_mux (snd (xeth_mux_bind_lower k m l w)) m = (w_mux w m)\<lparr>mx_link := ht\<rparr>"
proof (cases "k_master_upper_dev_link k (w_trace w) l m = 0")
  case True
  then show ?thesis
    by (simp add: xeth_mux_bind_lower_def netdev_master_upper_dev_link_def xeth_mux_rehash_link_ht_def Let_def)
       (metis length_rehash_loop)
next
  case False
  then show ?thesis
    by (intro exI[of _ "mx_link (w_mux w m)"]) (simp add: xeth_mux_bind_lower_def netdev_master_upper_dev_link_def Let_def)
qed

lemma add_lower_mux:
  "\<exists>ht. length ht = length (mx_link (w_mux w m)) \<and> w_mux (snd (xeth_mux_add_lower k m l w)) m = (w_mux w m)\<lparr>mx_link := ht\<rparr>"
proof -
  define r where "r = if_ok (if_ok (if_ok (if_ok (xeth_mux_set_lower_promiscuity k l w) (xeth_mux_set_lower_mtu k l))
      (\<lambda>w. (xeth_mux_lower_is_loopback k m l w, w))) (\<lambda>w. (xeth_mux_lower_is_busy l w, w))) (xeth_mux_handle_lower k m l)"
  have p: "w_mux (snd (xeth_mux_set_lower_promiscuity k l v)) = w_mux v" "w_mux (snd (xeth_mux_set_lower_mtu k l v)) = w_mux v"
    "w_mux (snd (xeth_mux_handle_lower k m l v)) = w_mux v" for v
    by (simp_all add: xeth_mux_set_lower_promiscuity_def xeth_mux_set_lower_mtu_def xeth_mux_handle_lower_def Let_def)
  have r: "w_mux (snd r) = w_mux w" unfolding r_def by (simp add: if_ok_mux p)
  have "w_mux (snd (xeth_mux_add_lower k m l w)) = w_mux (snd (if_ok r (xeth_mux_bind_lower k m l)))"
    by (simp add: xeth_mux_add_lower_def r_def[symmetric] netdev_rx_handler_unregister_def Let_def split: prod.split)
  moreover have "\<exists>ht. length ht = length (mx_link (w_mux w m)) \<and> w_mux (snd (if_ok r (xeth_mux_bind_lower k m l))) m = (w_mux w m)\<lparr>mx_link := ht\<rparr>"
    using bind_lower_mux[of "snd r" m k l] r by (cases r) (auto simp: if_ok_def intro: exI[of _ "mx_link (w_mux w m)"])
  ultimately show ?thesis by simp
qed

lemma add_lowers_fresh: "fresh (w_mux w m) \<Longrightarrow> fresh (w_mux (fold (\<lambda>l w. snd (xeth_mux_add_lower k m l w)) links w) m)"
proof (induction links arbitrary: w)
  case (Cons l links)
  from add_lower_mux[of w m k l] obtain ht where "length ht = length (mx_link (w_mux w m))"
    "w_mux (snd (xeth_mux_add_lower k m l w)) m = (w_mux w m)\<lparr>mx_link := ht\<rparr>" by blast
  with Cons.prems have "fresh (w_mux (snd (xeth_mux_add_lower k m l w)) m)"
    by (simp add: fresh_def kin_list_empty stat_names_ok_def)
  from Cons.IH[OF this] show ?case by simp
qed simp

lemma mux_start_fresh: "fresh (w_mux w m) \<Longrightarrow> fresh (w_mux (mux_start k pl d m links w) m)"
proof -
  assume f: "fresh (w_mux w m)"
  define v where "v = (if mx_stat_named (w_mux w m) = 0 \<and> pl_create_file pl = 0
      then upd_mux m (\<lambda>p. p\<lparr>mx_stat_name_sysfs := True\<rparr>) w else w)"
  have "fresh (w_mux v m)" using f by (simp add: v_def fresh_def kin_list_empty stat_names_ok_def)
  from add_lowers_fresh[OF this, of k links] show ?thesis
    unfolding mux_start_def v_def[symmetric] Let_def by (simp add: fresh_def kin_list_empty stat_names_ok_def)
qed

lemma probe_prepared:
  "fresh (w_mux (probe_prepare k d m links addrs w) m)" "nd_netdev_ops (w_nd (probe_prepare k d m links addrs w) m) = xeth_mux_ndo"
  using fresh_alloc[of d addrs m "xeth_mux_ifname d" w]
  by (simp_all add: probe_prepare_def eth_hw_addr_inherit_def eth_hw_addr_random_def alloc_mux_def xeth_mux_setup_def ether_setup_def Let_def
      split: list.split)

lemma probe_unfold:
  assumes "probe_links pl d w = (n, links, v)" and "0 \<le> n" and "xeth_mux_qsfp_i2c_addrs_prop d = Inr addrs"
  shows "xeth_mux_probe k pl (Some m) d w =
    bindR (register_netdevice k m (probe_prepare k d m links addrs v)) (\<lambda>(err, u).
      if err < 0 then Inr (err, None, log_event (Ev_free_netdev m) (dev_put_all (rev links) u))
      else if xeth_mux_is_platina_mk1 d
      then Inr (0, Some (m, xeth_mux_platina_mk1_ppds pl m (mux_start k pl d m links u)), mux_start k pl d m links u)
      else Inl Null_call)"
  using assms unfolding xeth_mux_probe_def Let_def by simp


definition sample_device :: device where
  "sample_device = \<lparr>dv_compatible = Some ''platina,mk1'', dv_name = None, dv_encap_vpls = False, dv_base_port = None, dv_ports = None,
     dv_link_macs = [], dv_link_akas = Some [''enp3s0f0,eth1''], dv_flags = None, dv_stats = None, dv_qsfp_i2c_addrs = None,
     dv_absent_gpios = None, dv_int_gpios = None, dv_lpmode_gpios = None, dv_reset_gpios = None\<rparr>"

definition sample_platform :: platform where
  "sample_platform = \<lparr>pl_netdevs = [8, 9], pl_dev_get_by_name = (\<lambda>n. if n = ''eth1'' then Some 11 else if n = ''platina-mk1'' then Some 1 else None),
     pl_register_device = (\<lambda>i. True), pl_create_file = 0\<rparr>"

lemma sample_probe_links: "\<exists>v. probe_links sample_platform sample_device sample_world = (1, [11], v)"
proof -
  have "find_aka (pl_dev_get_by_name sample_platform) ''enp3s0f0,eth1'' = Some 11"
    by (simp add: find_aka.simps next_aka_def IFNAMSIZ_def sample_platform_def)
  then show ?thesis
    by (simp add: probe_links_def xeth_mux_link_addrs_def link_macs_def xeth_mux_link_akas_def xeth_mux_max_links_def sample_device_def)
qed


text \<open>
  On any other platform the probe, once the mux is registered, calls the function that makes the port
  devices through a NULL pointer.
\<close>

theorem generic_probe_calls_null:
  assumes "probe_links pl d w = (n, links, v)" and "0 \<le> n" and "xeth_mux_qsfp_i2c_addrs_prop d = Inr addrs"
    and "\<not> xeth_mux_is_platina_mk1 d" and "\<forall>tr. k_register_netdevice k tr m = (0, b)"
  shows "xeth_mux_probe k pl (Some m) d w = Inl Null_call"
proof -
  from register_ok[of k "probe_prepare k d m links addrs v" m b] assms(5) obtain u where
    "register_netdevice k m (probe_prepare k d m links addrs v) = Inr (0, u)" by blast
  with probe_unfold[OF assms(1-3), of k m] assms(4) show ?thesis by simp
qed

theorem generic_probe_calls_null_witness:
  "xeth_mux_probe sample_kapi sample_platform (Some 10) (sample_device\<lparr>dv_compatible := None, dv_link_akas := None\<rparr>) sample_world = Inl Null_call"
  by (rule generic_probe_calls_null[where n = 0 and links = "[]" and v = sample_world and addrs = "[0x50, 0x51, I2C_CLIENT_END]" and b = True])
    (simp_all add: sample_device_def probe_links_def xeth_mux_link_addrs_def link_macs_def xeth_mux_link_akas_def
      xeth_mux_is_platina_mk1_def xeth_mux_compatible_prop_def xeth_mux_qsfp_i2c_addrs_prop_def sample_kapi_def)

end
