(* ===== verification/Xeth_Teardown.thy ===== *)
theory Xeth_Teardown
  imports Xeth_Platform
begin

text \<open>
  Removal of the mux with everything on it (\<^verbatim>\<open>xeth_mux_remove\<close>): the composition of the deletion of the mux, the
  closing of every device and the release of ports, vlans, lags and bridges, each of which leaves the
  table by itself.
\<close>

section \<open>Configurations that can be removed\<close>

text \<open>
  What the removal relies on: the members of the table are devices of the driver with an XID, the first
  subport of a port has its extension, and the members of lags and bridges are themselves in the table.
\<close>

definition removable :: "kapi \<Rightarrow> ndp \<Rightarrow> world \<Rightarrow> bool" where
  "removable k m w \<longleftrightarrow> table_inv k m w \<and> sb_ready k m w \<and> nd_registered (w_nd w m) \<and> nd_netdev_ops (w_nd w m) = xeth_mux_ndo
     \<and> m \<notin> set (proxies m w)
     \<and> (\<forall>q \<in> set (proxies m w). px_nd (w_proxy w q) = q \<and> px_xid (w_proxy w q) \<noteq> 0 \<and> addrs_ok (w_nd w q)
          \<and> nd_netdev_ops (w_nd w q) \<notin> {xeth_mux_ndo, other_ndo}
          \<and> set (nd_lowers (w_nd w q)) \<subseteq> set (proxies m w)
          \<and> (pp_subport (w_port w q) \<le> 0 \<longrightarrow> pp_ext (w_port w q) \<noteq> None))"

text \<open>What stays of this while the devices \<open>P\<close> of the configuration \<open>w\<close> are taken down.\<close>

definition going :: "kapi \<Rightarrow> ndp \<Rightarrow> ndp set \<Rightarrow> world \<Rightarrow> world \<Rightarrow> bool" where
  "going k m P w u \<longleftrightarrow> table_inv k m u \<and> sb_ready k m u \<and> w_proxy u = w_proxy w
     \<and> (\<forall>q. nd_netdev_ops (w_nd u q) = nd_netdev_ops (w_nd w q))
     \<and> (\<forall>q \<in> P. addrs_ok (w_nd u q) \<and> set (nd_lowers (w_nd u q)) \<subseteq> P
          \<and> (pp_subport (w_port u q) \<le> 0 \<longrightarrow> pp_ext (w_port u q) \<noteq> None))"

text \<open>The messages and the changes of devices that the removal makes keep it, and keep the table.\<close>

lemma going_sent:
  assumes "going k m P w u" and "sent_msgs m u ds v"
  shows "going k m P w v" and "proxies m v = proxies m u"
  using assms same_table_inv[OF sent_msgs_table[OF assms(2)], of k] same_table_proxies[OF sent_msgs_table[OF assms(2)]]
    sent_msgs_frame[OF assms(2)] sent_msgs_ready[OF _ assms(2), of k]
  by (simp_all add: going_def)

lemma going_nd:
  assumes "going k m P w u" and "w_mux v = w_mux u" and "w_proxy v = w_proxy u"
    and "\<And>q. pp_subport (w_port v q) = pp_subport (w_port u q)" and "\<And>q. (pp_ext (w_port v q) = None) = (pp_ext (w_port u q) = None)"
    and "\<And>q. addrs_ok (w_nd v q) = addrs_ok (w_nd u q)" and "\<And>q. nd_netdev_ops (w_nd v q) = nd_netdev_ops (w_nd u q)"
    and "\<And>q. set (nd_lowers (w_nd v q)) \<subseteq> set (nd_lowers (w_nd u q))"
  shows "going k m P w v" and "proxies m v = proxies m u"
proof -
  have st: "same_table m u v" by (rule same_tableI) (simp_all add: assms(2,3))
  show "going k m P w v"
    using assms(1) same_table_inv[OF st, of k] sb_ready_cong[of v m u k] assms(2-7) subset_trans[OF assms(8)]
    unfolding going_def by simp
  show "proxies m v = proxies m u" by (rule same_table_proxies[OF st])
qed

section \<open>Closing\<close>

lemma stop_total:
  assumes "going k m P w u" and "removable k m w" and "P = set (proxies m w)" and "q \<in> P"
  shows "\<exists>v. xeth_proxy_stop k q u = Inr (0, v) \<and> going k m P w v \<and> proxies m v = proxies m u"
proof -
  have "px_mux (w_proxy u q) = Some m" "px_xid (w_proxy u q) \<noteq> 0" "addrs_ok (w_nd u (px_nd (w_proxy u q)))" "sb_ready k m u"
    using assms member_mux[of k m w q] by (auto simp: going_def removable_def)
  from ifinfo_told[OF this(4,1-3), of "nd_flags (w_nd u q)" XETH_IFINFO_REASON_DOWN] obtain v d where
    "xeth_sbtx_ifinfo k q (nd_flags (w_nd u q)) XETH_IFINFO_REASON_DOWN u = Inr (0, v)" "sent_msgs m u [d] v" by blast
  with going_sent[OF assms(1)] show ?thesis by (auto simp: xeth_proxy_stop_def)
qed

lemma gpio_set_frame: "w_mux (gpio_set g x w) = w_mux w" "w_proxy (gpio_set g x w) = w_proxy w" "w_nd (gpio_set g x w) = w_nd w"
  "w_port (gpio_set g x w) = w_port w"
  by (simp_all add: gpio_set_def split: option.split)

lemma ndo_stop_total:
  assumes "going k m P w u" and "removable k m w" and "P = set (proxies m w)" and "q \<in> P"
  shows "\<exists>v. ndo_stop k (nd_netdev_ops (w_nd u q)) q u = Inr (0, v) \<and> going k m P w v \<and> proxies m v = proxies m u"
proof -
  have c: "going k m P w (netif_carrier b q u)" "proxies m (netif_carrier b q u) = proxies m u" for b
    by (rule going_nd[OF assms(1)]; simp add: netif_carrier_def addrs_ok_def)+
  have g: "going k m P w (gpio_set x y u)" "proxies m (gpio_set x y u) = proxies m u" for x y
    by (rule going_nd[OF assms(1)]; simp add: gpio_set_frame)+
  have mux: "px_mux (w_proxy u q) = Some m" and ops: "nd_netdev_ops (w_nd u q) \<notin> {xeth_mux_ndo, other_ndo}"
    using assms member_mux[of k m w q] by (auto simp: going_def removable_def)
  show ?thesis
    using ops stop_total[OF c(1)[of False] assms(2-4)] stop_total[OF g(1) assms(2-4)] c(2) g(2) mux
    by (cases "nd_netdev_ops (w_nd u q)")
      (auto simp: xeth_port_stop_def xeth_vlan_stop_def xeth_lb_stop_def xeth_lag_stop_def xeth_bridge_stop_def proxy_mux_def)
qed

lemma close_total:
  assumes "going k m P w u" and "removable k m w" and "P = set (proxies m w)" and "q \<in> P"
  shows "\<exists>v. close_one k q u = Inr v \<and> going k m P w v \<and> proxies m v = proxies m u"
proof (cases "nd_flags (w_nd u q) AND IFF_UP = 0")
  case True
  then show ?thesis using assms(1) by (simp add: close_one_def)
next
  case False
  from ndo_stop_total[OF assms] obtain v where v: "ndo_stop k (nd_netdev_ops (w_nd u q)) q u = Inr (0, v)" "going k m P w v"
    "proxies m v = proxies m u" by blast
  let ?v = "upd_nd q (\<lambda>d. d\<lparr>nd_flags := nd_flags d AND NOT IFF_UP\<rparr>) v"
  have "going k m P w ?v" "proxies m ?v = proxies m v" by (rule going_nd[OF v(2)]; simp add: addrs_ok_def)+
  with v False show ?thesis by (simp add: close_one_def ignore_err_def)
qed

section \<open>Leaving the table\<close>

lemma leave_table:
  assumes "going k m P w u" and "removable k m w" and "P = set (proxies m w)" and "q \<in> P" and "q \<in> set (proxies m u)"
  shows "\<exists>v. xeth_proxy_uninit k q u = Inr v \<and> going k m P w v \<and> set (proxies m v) = set (proxies m u) - {q}"
proof -
  have q: "px_mux (w_proxy u q) = Some m" "px_xid (w_proxy u q) \<noteq> 0" "addrs_ok (w_nd u (px_nd (w_proxy u q)))" "sb_ready k m u"
    using assms member_mux[of k m w q] by (auto simp: going_def removable_def)
  from ifinfo_told[OF q(4,1-3), of 0 XETH_IFINFO_REASON_DEL] obtain x d where
    x: "xeth_sbtx_ifinfo k q 0 XETH_IFINFO_REASON_DEL u = Inr (0, x)" "sent_msgs m u [d] x" by blast
  note gx = going_sent[OF assms(1) x(2)]
  from gx have "table_inv k m x" "q \<in> set (proxies m x)" using assms(5) by (simp_all add: going_def)
  from del_proxy_spec[OF this] obtain v where v: "xeth_mux_del_proxy q x = Inr v" "table_inv k m v"
    "set (proxies m v) = set (proxies m x) - {q}" "w_proxy v = w_proxy x" by blast
  have "going k m P w v" using gx(1) v del_proxy_frame[OF v(1)] by (simp add: going_def)
  with x(1) v gx(2) show ?thesis by (simp add: xeth_proxy_uninit_def ignore_err_def)
qed

lemma port_uninit_total:
  assumes "going k m P w u" and "removable k m w" and "P = set (proxies m w)" and "q \<in> P" and "q \<in> set (proxies m u)"
  shows "\<exists>v. xeth_port_uninit k q u = Inr v \<and> going k m P w v \<and> set (proxies m v) = set (proxies m u) - {q}"
proof -
  have "\<exists>x. (if pp_subport (w_port u q) \<le> 0
      then bindR (port_ext q u) (\<lambda>e. case ext_qsfp e of None \<Rightarrow> Inr u
             | Some c \<Rightarrow> Inr (upd_ext q (\<lambda>e. e\<lparr>ext_qsfp := None\<rparr>) (log_event (Ev_i2c_unregister c) u)))
      else Inr u) = Inr x \<and> going k m P w x \<and> proxies m x = proxies m u"
  proof (cases "pp_subport (w_port u q) \<le> 0")
    case True
    with assms(1,4) obtain e where e: "pp_ext (w_port u q) = Some e" by (auto simp: going_def)
    let ?x = "\<lambda>c. upd_ext q (\<lambda>e. e\<lparr>ext_qsfp := None\<rparr>) (log_event (Ev_i2c_unregister c) u)"
    have "going k m P w (?x c)" "proxies m (?x c) = proxies m u" for c
      by (rule going_nd[OF assms(1)]; simp add: upd_ext_def)+
    with True e assms(1) show ?thesis by (simp add: port_ext_def split: option.split)
  qed (simp add: assms(1))
  then obtain x where x: "(if pp_subport (w_port u q) \<le> 0
      then bindR (port_ext q u) (\<lambda>e. case ext_qsfp e of None \<Rightarrow> Inr u
             | Some c \<Rightarrow> Inr (upd_ext q (\<lambda>e. e\<lparr>ext_qsfp := None\<rparr>) (log_event (Ev_i2c_unregister c) u)))
      else Inr u) = Inr x" "going k m P w x" "proxies m x = proxies m u" by blast
  from leave_table[OF x(2) assms(2-4)] x(3) assms(5) show ?thesis
    unfolding xeth_port_uninit_def x(1) by simp
qed

text \<open>A member leaves its lag or bridge.\<close>

lemma member_leaves:
  assumes "going k m P w u" and "removable k m w" and "P = set (proxies m w)" and "q \<in> P" and "l \<in> P"
    and "w_mux v = w_mux u" and "w_proxy v = w_proxy u" and "w_port v = w_port u"
    and "\<And>n. addrs_ok (w_nd v n) = addrs_ok (w_nd u n)" and "\<And>n. nd_netdev_ops (w_nd v n) = nd_netdev_ops (w_nd u n)"
    and "\<And>n. set (nd_lowers (w_nd v n)) \<subseteq> set (nd_lowers (w_nd u n))"
  shows "\<exists>w'. bindR (proxy_mux q v) (\<lambda>m.
      bindR (ignore_err (xeth_sbtx_change_upper k m x y False v)) (\<lambda>w.
      bindR (xeth_proxy_dump_ifa k l w) (\<lambda>w. bindR (xeth_proxy_dump_ifa6 k l w) (\<lambda>w. Inr (0 :: int, w))))) = Inr (0, w')
    \<and> going k m P w w' \<and> proxies m w' = proxies m u"
proof -
  have g: "going k m P w v" "proxies m v = proxies m u" by (rule going_nd[OF assms(1)]; simp add: assms(6-11))+
  have "px_mux (w_proxy v q) = Some m" "px_mux (w_proxy v l) = Some m" "addrs_ok (w_nd v (px_nd (w_proxy v l)))" "sb_ready k m v"
    using g(1) assms(2-5) member_mux[of k m w q] member_mux[of k m w l] by (auto simp: going_def removable_def)
  from leave_total[OF this(4,1-3), of x y] obtain w' ds where r: "bindR (proxy_mux q v) (\<lambda>m.
      bindR (ignore_err (xeth_sbtx_change_upper k m x y False v)) (\<lambda>w.
      bindR (xeth_proxy_dump_ifa k l w) (\<lambda>w. bindR (xeth_proxy_dump_ifa6 k l w) (\<lambda>w. Inr (0 :: int, w))))) = Inr (0, w')"
    "sent_msgs m v ds w'" by blast
  show ?thesis using r(1) going_sent[OF g(1) r(2)] g(2) by (intro exI[of _ w']) simp
qed

lemma del_lower_going:
  assumes "going k m P w u" and "removable k m w" and "P = set (proxies m w)" and "q \<in> P" and "l \<in> P"
  shows "\<exists>v. xeth_lag_del_lower k q l u = Inr (0, v) \<and> going k m P w v \<and> proxies m v = proxies m u"
    and "\<exists>v. xeth_bridge_del_lower k q l u = Inr (0, v) \<and> going k m P w v \<and> proxies m v = proxies m u"
  unfolding xeth_lag_del_lower_def xeth_bridge_del_lower_def Let_def
  by (rule member_leaves[OF assms]; auto simp: netdev_upper_dev_unlink_def addrs_ok_def)+

lemma members_leave:
  assumes "going k m P w u" and "removable k m w" and "P = set (proxies m w)" and "q \<in> P" and "set ls \<subseteq> P"
    and "del = xeth_lag_del_lower \<or> del = xeth_bridge_del_lower"
  shows "\<exists>v. foldR (\<lambda>lower w. ignore_err (del k q (px_nd (w_proxy w lower)) w)) ls u = Inr v
    \<and> going k m P w v \<and> proxies m v = proxies m u"
proof (rule foldR_total[where I = "\<lambda>v. going k m P w v \<and> proxies m v = proxies m u"])
  fix l v assume l: "l \<in> set ls" and v: "going k m P w v \<and> proxies m v = proxies m u"
  then have "l \<in> P" "px_nd (w_proxy v l) = l" using assms(2,3,5) by (auto simp: going_def removable_def)
  with del_lower_going[OF _ assms(2-4), of v l] v assms(6)
  show "\<exists>x. ignore_err (del k q (px_nd (w_proxy v l)) v) = Inr x \<and> going k m P w x \<and> proxies m x = proxies m u"
    by (auto simp: ignore_err_Inr)
qed (simp add: assms(1))

lemma ndo_uninit_total:
  assumes "going k m P w u" and "removable k m w" and "P = set (proxies m w)" and "q \<in> P" and "q \<in> set (proxies m u)"
  shows "\<exists>v. ndo_uninit k (nd_netdev_ops (w_nd u q)) q u = Inr v \<and> going k m P w v \<and> set (proxies m v) = set (proxies m u) - {q}"
proof -
  have ops: "nd_netdev_ops (w_nd u q) \<notin> {xeth_mux_ndo, other_ndo}" and ls: "set (nd_lowers (w_nd u q)) \<subseteq> P"
    using assms by (auto simp: going_def removable_def)
  have upper: "\<exists>v. bindR (foldR (\<lambda>lower w. ignore_err (del k q (px_nd (w_proxy w lower)) w)) (nd_lowers (w_nd u q)) u) (xeth_proxy_uninit k q) = Inr v
      \<and> going k m P w v \<and> set (proxies m v) = set (proxies m u) - {q}" if del: "del = xeth_lag_del_lower \<or> del = xeth_bridge_del_lower" for del
  proof -
    from members_leave[OF assms(1-4) ls del] obtain v where v: "foldR (\<lambda>lower w. ignore_err (del k q (px_nd (w_proxy w lower)) w)) (nd_lowers (w_nd u q)) u = Inr v"
      "going k m P w v" "proxies m v = proxies m u" by blast
    from leave_table[OF v(2) assms(2-4)] v(3) assms(5) show ?thesis unfolding v(1) by simp
  qed
  show ?thesis
    using ops port_uninit_total[OF assms] leave_table[OF assms] upper[of xeth_lag_del_lower] upper[of xeth_bridge_del_lower]
    by (cases "nd_netdev_ops (w_nd u q)") (simp_all add: xeth_lag_uninit_def xeth_bridge_uninit_def)
qed

lemma uninit_total:
  assumes "going k m P w u" and "removable k m w" and "P = set (proxies m w)" and "q \<in> P" and "q \<in> set (proxies m u)"
  shows "\<exists>v. uninit_one k q u = Inr v \<and> going k m P w v \<and> set (proxies m v) = set (proxies m u) - {q} \<and> \<not> nd_registered (w_nd v q)"
proof -
  from ndo_uninit_total[OF assms] obtain v where v: "ndo_uninit k (nd_netdev_ops (w_nd u q)) q u = Inr v" "going k m P w v"
    "set (proxies m v) = set (proxies m u) - {q}" by blast
  let ?v = "upd_nd q (\<lambda>d. d\<lparr>nd_registered := False\<rparr>) v"
  have "going k m P w ?v" "proxies m ?v = proxies m v" by (rule going_nd[OF v(2)]; simp add: addrs_ok_def)+
  with v show ?thesis by (simp add: uninit_one_def)
qed

section \<open>The whole removal\<close>

lemma members_uninit:
  assumes "removable k m w" and "P = set (proxies m w)" and "going k m P w u" and "distinct qs" and "set qs \<subseteq> P"
    and "set (proxies m u) = set qs"
  shows "\<exists>v. foldR (uninit_one k) qs u = Inr v \<and> going k m P w v \<and> proxies m v = []"
  using assms(3-6)
proof (induction qs arbitrary: u)
  case (Cons q qs)
  from Cons.prems have "q \<in> P" "q \<in> set (proxies m u)" by simp_all
  from uninit_total[OF Cons.prems(1) assms(1,2) this] obtain v where v: "uninit_one k q u = Inr v" "going k m P w v"
    "set (proxies m v) = set (proxies m u) - {q}" by blast
  from Cons.IH[OF v(2)] Cons.prems v(3) v(1) show ?case by auto
qed simp

lemma dev_close_all:
  "w_mux (fold dev_close ls u) = w_mux u \<and> w_proxy (fold dev_close ls u) = w_proxy u \<and> w_port (fold dev_close ls u) = w_port u
   \<and> (\<forall>q. addrs_ok (w_nd (fold dev_close ls u) q) = addrs_ok (w_nd u q)
     \<and> nd_netdev_ops (w_nd (fold dev_close ls u) q) = nd_netdev_ops (w_nd u q) \<and> nd_lowers (w_nd (fold dev_close ls u) q) = nd_lowers (w_nd u q))"
  by (induction ls arbitrary: u) (simp_all add: dev_close_def addrs_ok_def)

lemma close_mux:
  assumes "going k m P w u" and "removable k m w"
  shows "\<exists>v. close_one k m u = Inr v \<and> going k m P w v \<and> proxies m v = proxies m u"
proof (cases "nd_flags (w_nd u m) AND IFF_UP = 0")
  case True
  then show ?thesis using assms(1) by (simp add: close_one_def)
next
  case False
  let ?u = "if nd_carrier (w_nd u m) then netif_carrier False m u else u"
  let ?v = "fold dev_close (nd_lowers (w_nd ?u m)) ?u"
  let ?w = "upd_nd m (\<lambda>d. d\<lparr>nd_flags := nd_flags d AND NOT IFF_UP\<rparr>) ?v"
  have c: "going k m P w ?u" "proxies m ?u = proxies m u"
    by (rule going_nd[OF assms(1)]; simp add: netif_carrier_def addrs_ok_def)+
  have d: "going k m P w ?v" "proxies m ?v = proxies m ?u" by (rule going_nd[OF c(1)]; simp only: dev_close_all subset_refl)+
  have e: "going k m P w ?w" "proxies m ?w = proxies m ?v" by (rule going_nd[OF d(1)]; simp add: addrs_ok_def)+
  have "nd_netdev_ops (w_nd u m) = xeth_mux_ndo" using assms by (simp add: going_def removable_def)
  with False have "close_one k m u = Inr ?w" by (simp add: close_one_def xeth_mux_stop_def ignore_err_def Let_def)
  with e d c show ?thesis by metis
qed

lemma del_lower_all: "w_mux (fold (xeth_mux_del_lower m) ls u) = w_mux u \<and> w_proxy (fold (xeth_mux_del_lower m) ls u) = w_proxy u"
  by (induction ls arbitrary: u)
    (simp_all add: xeth_mux_del_lower_def netdev_upper_dev_unlink_def netdev_rx_handler_unregister_def Let_def)

lemma uninit_mux:
  assumes "going k m P w u" and "removable k m w"
  shows "\<exists>v. uninit_one k m u = Inr v \<and> table_inv k m v \<and> proxies m v = proxies m u \<and> \<not> nd_registered (w_nd v m)
    \<and> \<not> xeth_mux_has main_task (mx_flags (w_mux v m))"
proof -
  let ?v = "xeth_mux_uninit m u"
  have st: "same_table m u (upd_nd m (\<lambda>d. d\<lparr>nd_registered := False\<rparr>) ?v)"
    by (rule same_tableI) (simp_all add: xeth_mux_uninit_def del_lower_all Let_def)
  have "nd_netdev_ops (w_nd u m) = xeth_mux_ndo" using assms by (simp add: going_def removable_def)
  moreover have "\<not> xeth_mux_has main_task (mx_flags (w_mux ?v m))"
    by (simp add: xeth_mux_uninit_def del_lower_all Let_def xeth_mux_has_def xeth_mux_clear_flag_def bit_simps)
  ultimately show ?thesis
    using same_table_inv[OF st, of k] same_table_proxies[OF st] assms(1) by (simp add: uninit_one_def going_def)
qed

text \<open>The queue that the deletion of the mux leaves.\<close>

lemma queued_simps [simp]:
  "queued_devs [] = []" "queued_devs (xs @ ys) = queued_devs xs @ queued_devs ys" "queued_devs [Ev_unregister_queue n] = [n]"
  "queued_devs [Ev_gpio_put ds] = []" "queued_devs [Ev_remove_file n] = []"
  by (simp_all add: queued_devs_def)

lemma queued_map: "\<forall>q \<in> set l. f q = q \<Longrightarrow> queued_devs (map (\<lambda>q. Ev_unregister_queue (f q)) l) = l"
  by (induction l) (simp_all add: queued_devs_def)

lemma queued_case: "queued_devs (case g of None \<Rightarrow> [] | Some ds \<Rightarrow> [Ev_gpio_put ds]) = []" "queued_devs (if b then [Ev_remove_file n] else []) = []"
  by (simp_all split: option.split)

lemma dellink_queue:
  assumes "removable k m w"
  defines "p \<equiv> w_mux w m"
  defines "qs \<equiv> mx_bridges p @ mx_vlans p @ mx_lags p @ mx_ports p @ mx_lbs p"
  shows "queued_devs (drop (length (w_trace w)) (w_trace (xeth_mux_dellink m w))) = qs @ [m]"
    and "going k m (set (proxies m w)) w (xeth_mux_dellink m w)" and "proxies m (xeth_mux_dellink m w) = proxies m w"
    and "distinct qs" and "set qs = set (proxies m w)"
proof -
  have inv: "table_inv k m w" and reg: "nd_registered (w_nd w m)" and px: "\<forall>q \<in> set (proxies m w). px_nd (w_proxy w q) = q"
    using assms(1) by (auto simp: removable_def)
  show qs: "distinct qs" "set qs = set (proxies m w)" using all_kin[OF inv] by (simp_all add: qs_def p_def)
  have put: "gpiod_put_array g v = v\<lparr>w_trace := w_trace v @ (case g of Some ds \<Rightarrow> [Ev_gpio_put ds] | None \<Rightarrow> [])\<rparr>" for g v
    by (simp add: gpiod_put_array_def split: option.split)
  have d: "xeth_mux_dellink m w = (upd_mux m (\<lambda>p. p\<lparr>mx_absent_gpios := None, mx_intr_gpios := None, mx_lpmode_gpios := None,
       mx_reset_gpios := None\<rparr>) w)\<lparr>w_trace := w_trace (xeth_mux_dellink m w)\<rparr>"
    using reg by (simp add: xeth_mux_dellink_def put queue_all unregister_netdevice_queue_def Let_def)
  have st: "same_table m w (xeth_mux_dellink m w)" by (subst d, rule same_tableI) simp_all
  show "proxies m (xeth_mux_dellink m w) = proxies m w" by (rule same_table_proxies[OF st])
  have "sb_ready k m (xeth_mux_dellink m w)" using assms(1) by (subst d) (simp add: removable_def sb_ready_def sb_inv_def connected_def)
  moreover have "w_proxy (xeth_mux_dellink m w) = w_proxy w" "w_nd (xeth_mux_dellink m w) = w_nd w" "w_port (xeth_mux_dellink m w) = w_port w"
    by (subst d, simp)+
  ultimately show "going k m (set (proxies m w)) w (xeth_mux_dellink m w)"
    using assms(1) same_table_inv[OF st, of k] unfolding going_def removable_def by simp
  show "queued_devs (drop (length (w_trace w)) (w_trace (xeth_mux_dellink m w))) = qs @ [m]"
  proof -
    have "w_trace (xeth_mux_dellink m w) = w_trace w
        @ concat (map (\<lambda>g. case g of Some ds \<Rightarrow> [Ev_gpio_put ds] | None \<Rightarrow> [])
            [mx_absent_gpios p, mx_intr_gpios p, mx_lpmode_gpios p, mx_reset_gpios p])
        @ (if mx_stat_name_sysfs p then [Ev_remove_file m] else [])
        @ map (\<lambda>q. Ev_unregister_queue (px_nd (w_proxy w q))) qs @ [Ev_unregister_queue m]"
      using reg by (simp add: xeth_mux_dellink_def put queue_all unregister_netdevice_queue_def Let_def qs_def p_def)
    then show ?thesis using queued_map[of qs "\<lambda>q. px_nd (w_proxy w q)"] px qs(2) by (simp add: queued_case)
  qed
qed

lemma removable_log: "removable k m (log_event e w) = removable k m w"
proof -
  have st: "same_table m w (log_event e w)" by (rule same_tableI) simp_all
  have "sb_ready k m (log_event e w) = sb_ready k m w" by (rule sb_ready_cong) simp
  with same_table_inv[OF st, of k] same_table_proxies[OF st] show ?thesis unfolding removable_def by simp
qed


lemma sample_removable: "removable sample_kapi 1 sample_world"
  using sample_table_inv sample_ready by (simp add: removable_def) (simp add: sample_defs proxies_def addrs_ok_def)


end
