(* ===== verification/Xeth_System.thy ===== *)
theory Xeth_System
  imports Xeth_Teardown Xeth_Service
begin

text \<open>
  The driver as a whole: every entry point that the kernel, the daemon or the administrator can call is
  a step of one mux, in any order, and from a successful probe on every reachable state has a well formed
  table and side band buffers that agree with their gauges. The parts are the relation \<open>keeps\<close> of the
  single operations, which is closed under composition.
\<close>

section \<open>What the operations keep\<close>

named_theorems kept \<open>operations that keep the table and the side band buffers of every mux\<close>

lemma keeps_nd: "w_mux w' = w_mux w \<Longrightarrow> w_proxy w' = w_proxy w \<Longrightarrow> keeps k m w w'"
  by (intro keepsI same_tableI) simp_all

lemma keeps_other:
  assumes "sb_ext m' w w'"
  shows "keeps k m w w'"
proof (cases "m' = m")
  case True
  with assms show ?thesis by (simp add: sb_ext_keeps)
next
  case False
  with assms have "w_mux w' m = w_mux w m" "w_proxy w' = w_proxy w"
    using only_mux_sb_frame(2)[of m' w w'] by (auto simp: sb_ext_def only_mux_sb_def)
  then show ?thesis by (intro keepsI same_tableI) simp_all
qed

lemma keeps_foldR:
  assumes "foldR f xs w = Inr w'" and "\<And>x u v. f x u = Inr v \<Longrightarrow> keeps k m u v"
  shows "keeps k m w w'"
  using assms(1)
proof (induction xs arbitrary: w)
  case (Cons x xs)
  then obtain u where "f x w = Inr u" "foldR f xs u = Inr w'" by (auto simp: bindR_eq_Inr)
  with Cons.IH assms(2) show ?case by (meson keeps_trans)
qed simp

lemma ifinfo_kept [kept]: "xeth_sbtx_ifinfo k' q f rs w = Inr (r, w') \<Longrightarrow> keeps k m w w'"
  using ifinfo_ext[of k' q f rs w r w'] keeps_other
  by (cases "px_mux (w_proxy w q)") (auto simp: xeth_sbtx_ifinfo_def Let_def)

lemma change_upper_kept [kept]: "xeth_sbtx_change_upper k' m' u l b w = Inr (r, w') \<Longrightarrow> keeps k m w w'"
  using sends_ext(2) keeps_other by blast

lemma dump_ifa_kept [kept]:
  "xeth_proxy_dump_ifa k' q w = Inr w' \<Longrightarrow> keeps k m w w'"
  "xeth_proxy_dump_ifa6 k' q w = Inr w' \<Longrightarrow> keeps k m w w'"
  by (auto simp: xeth_proxy_dump_ifa_def xeth_proxy_dump_ifa6_def ignore_err_Inr bindR_eq_Inr split: option.splits
      elim!: keeps_foldR dest: sends_ext(7,8)[THEN keeps_other[where k = k and m = m]])

lemma del_proxy_kept [kept]:
  assumes "xeth_mux_del_proxy q w = Inr w'"
  shows "keeps k m w w'"
proof (cases "px_mux (w_proxy w q) = Some m")
  case True
  with assms have q: "q \<in> set (proxies m w)" by (auto simp: xeth_mux_del_proxy_def proxies_def split: if_splits)
  have "sb_inv (w_mux w' m) = sb_inv (w_mux w m)"
    using assms True by (auto simp: xeth_mux_del_proxy_def Let_def split: if_splits)
  with del_proxy_spec[OF _ q, of k] assms show ?thesis by (auto simp: keeps_def)
next
  case False
  with assms have "w_mux w' m = w_mux w m" "w_proxy w' = w_proxy w"
    by (auto simp: xeth_mux_del_proxy_def Let_def split: option.splits if_splits)
  then show ?thesis by (intro keepsI same_tableI) simp_all
qed

text \<open>A device that is not in the table is prepared and enters it.\<close>

lemma enter_kept:
  assumes "xeth_mux_add_proxy k nd u = Inr v" and "nd \<notin> set (proxies m w)" and "px_kind (w_proxy u nd) \<noteq> XETH_DEV_KIND_UNSPEC"
    and "w_mux u = w_mux w" and "\<And>p. p \<noteq> nd \<Longrightarrow> w_proxy u p = w_proxy w p"
  shows "keeps k m w v"
proof (cases "table_inv k m w \<and> sb_inv (w_mux w m)")
  case True
  note u = table_upd_proxy(1,2)[OF conjunct1[OF True] assms(2,4,5)]
  have "table_inv k m v \<and> sb_inv (w_mux v m)"
  proof (cases "px_mux (w_proxy u nd) = Some m")
    case mux: True
    have "sb_inv (w_mux v m)" using assms(1,4) mux True by (auto simp: xeth_mux_add_proxy_def Let_def)
    with add_proxy_spec[OF u(1) mux _ assms(3)] assms(1,2) u(2) show ?thesis by auto
  next
    case False
    with assms(1) have "w_mux v m = w_mux u m" "w_proxy v = w_proxy u"
      by (auto simp: xeth_mux_add_proxy_def Let_def split: option.splits)
    then have "same_table m u v" by (intro same_tableI) simp_all
    with same_table_inv[of m u v k] u(1) True assms(4) \<open>w_mux v m = w_mux u m\<close> show ?thesis by simp
  qed
  then show ?thesis by (simp add: keeps_def)
qed (auto simp: keeps_def)

lemma prepare_kept:
  assumes "nd \<notin> set (proxies m w)" and "w_mux u = w_mux w" and "\<And>p. p \<noteq> nd \<Longrightarrow> w_proxy u p = w_proxy w p"
  shows "keeps k m w u"
  using table_upd_proxy(1)[OF _ assms, of k] assms(2) by (auto simp: keeps_def)

section \<open>Operations of devices\<close>

lemma bind_kept:
  assumes "bindR r f = Inr w'" and "\<And>u. r = Inr u \<Longrightarrow> keeps k m w u" and "\<And>u. f u = Inr w' \<Longrightarrow> keeps k m u w'"
  shows "keeps k m w w'"
  using assms by (auto simp: bindR_eq_Inr intro: keeps_trans)

lemma leave_kept:
  assumes "bindR (proxy_mux u v) (\<lambda>m'.
      bindR (ignore_err (xeth_sbtx_change_upper k' m' x y False v)) (\<lambda>w.
      bindR (xeth_proxy_dump_ifa k' l w) (\<lambda>w. bindR (xeth_proxy_dump_ifa6 k' l w) (\<lambda>w. Inr (0 :: int, w))))) = Inr (r, w')"
    and "w_mux v = w_mux w" and "w_proxy v = w_proxy w"
  shows "keeps k m w w'"
proof -
  from assms(1) obtain m' e a b where "xeth_sbtx_change_upper k' m' x y False v = Inr (e, a)" "xeth_proxy_dump_ifa k' l a = Inr b"
    "xeth_proxy_dump_ifa6 k' l b = Inr w'" by (auto simp: bindR_eq_Inr ignore_err_Inr)
  with keeps_nd[OF assms(2,3)] show ?thesis by (meson kept keeps_trans)
qed

lemma del_lower_kept [kept]:
  "xeth_lag_del_lower k' u l w = Inr (r, w') \<Longrightarrow> keeps k m w w'"
  "xeth_bridge_del_lower k' u l w = Inr (r, w') \<Longrightarrow> keeps k m w w'"
  unfolding xeth_lag_del_lower_def xeth_bridge_del_lower_def Let_def
  by (erule leave_kept; simp add: netdev_upper_dev_unlink_def)+

lemma add_lower_kept [kept]:
  "xeth_lag_add_lower k' u l w = Inr (r, w') \<Longrightarrow> keeps k m w w'"
  "xeth_bridge_add_lower k' u l w = Inr (r, w') \<Longrightarrow> keeps k m w w'"
proof -
  have *: "keeps k m w w'"
    if "netdev_master_upper_dev_link k' l u w = (e, v)"
      "(if e \<noteq> 0 then Inr (e, v) else bindR (proxy_mux u (upd_nd l g v)) (\<lambda>m'.
         bindR (ignore_err (xeth_sbtx_change_upper k' m' x y True (upd_nd l g v))) (\<lambda>w. Inr (0, w)))) = Inr (r, w')" for e v g x y
  proof -
    have "keeps k m w v" "keeps k m w (upd_nd l g v)" using link_dev_mux[OF that(1)] by (auto intro: keeps_nd)
    with that(2) show ?thesis by (auto simp: bindR_eq_Inr ignore_err_Inr split: if_splits dest: kept intro: keeps_trans)
  qed
  show "xeth_lag_add_lower k' u l w = Inr (r, w') \<Longrightarrow> keeps k m w w'"
    using * by (auto simp: xeth_lag_add_lower_def Let_def split: if_splits prod.splits)
  show "xeth_bridge_add_lower k' u l w = Inr (r, w') \<Longrightarrow> keeps k m w w'"
    using * by (auto simp: xeth_bridge_add_lower_def Let_def split: if_splits prod.splits)
qed

lemma proxy_uninit_kept [kept]: "xeth_proxy_uninit k' q w = Inr w' \<Longrightarrow> keeps k m w w'"
  by (auto simp: xeth_proxy_uninit_def bindR_eq_Inr ignore_err_Inr dest!: kept[where k = k and m = m] intro: keeps_trans)

lemma upper_uninit_kept [kept]: "xeth_lag_uninit k' q w = Inr w' \<Longrightarrow> keeps k m w w'" "xeth_bridge_uninit k' q w = Inr w' \<Longrightarrow> keeps k m w w'"
  unfolding xeth_lag_uninit_def xeth_bridge_uninit_def
  by (erule bind_kept; auto simp: ignore_err_Inr elim!: keeps_foldR dest: kept[where k = k and m = m])+

lemma port_uninit_kept [kept]: "xeth_port_uninit k' q w = Inr w' \<Longrightarrow> keeps k m w w'"
  unfolding xeth_port_uninit_def
  by (erule bind_kept; auto simp: bindR_eq_Inr upd_ext_def split: if_splits option.splits intro: keeps_nd dest: kept[where k = k and m = m])

lemma mux_uninit_kept: "keeps k m w (xeth_mux_uninit m' w)"
  by (intro keepsI same_tableI) (auto simp: xeth_mux_uninit_def del_lower_all Let_def sb_inv_def)

lemma ndo_uninit_kept [kept]: "ndo_uninit k' ops q w = Inr w' \<Longrightarrow> keeps k m w w'"
  by (cases ops) (auto intro: mux_uninit_kept dest: kept[where k = k and m = m])

lemma proxy_init_kept: "keeps k m w (snd (ndo_init k' ops q w))"
  by (cases ops) (auto simp: xeth_proxy_init_def xeth_lag_init_def xeth_bridge_init_def netif_carrier_def intro!: keeps_nd)

lemma register_kept [kept]:
  assumes "register_netdevice k' q w = Inr (e, w')"
  shows "keeps k m w w'"
proof -
  let ?l = "log_event (Ev_register_netdevice q) w"
  have l: "keeps k m w ?l" by (rule keeps_nd) simp_all
  note i = keeps_trans[OF l proxy_init_kept[of k m ?l k' _ q]]
  have n: "keeps k m u (upd_nd q g u)" for u g by (rule keeps_nd) simp_all
  show ?thesis
    using assms l keeps_trans[OF i n] keeps_trans[OF i ndo_uninit_kept]
    by (auto simp: register_netdevice_def bindR_eq_Inr Let_def split: prod.splits if_splits)
qed

lemma gpio_kept: "keeps k m w (gpio_set g x w)"
  by (rule keeps_nd) (simp_all add: gpio_set_frame)

lemma carrier_kept: "keeps k m w (netif_carrier b q w)"
  by (rule keeps_nd) (simp_all add: netif_carrier_def)

lemma dev_closes_kept: "keeps k m w (fold dev_close ls w)"
  by (rule keeps_nd) (simp_all add: dev_close_all)

lemma mux_stop_kept: "keeps k m w (snd (xeth_mux_stop m' w))"
  using keeps_trans[OF carrier_kept[of k m w False m'] dev_closes_kept] dev_closes_kept[of k m w]
  by (auto simp: xeth_mux_stop_def Let_def)

lemma proxy_stop_kept [kept]: "xeth_proxy_stop k' q w = Inr (r, w') \<Longrightarrow> keeps k m w w'"
  by (auto simp: xeth_proxy_stop_def dest: kept[where k = k and m = m])

lemma proxy_open_kept [kept]: "xeth_proxy_open k' q w = Inr (r, w') \<Longrightarrow> keeps k m w w'"
  by (auto simp: xeth_proxy_open_def split: if_splits dest: kept[where k = k and m = m])

lemma ndo_stop_kept [kept]:
  assumes "ndo_stop k' ops q w = Inr (r, w')"
  shows "keeps k m w w'"
proof (cases "ops = xeth_mux_ndo")
  case True
  with assms mux_stop_kept[of k m w q] show ?thesis by (cases "xeth_mux_stop q w") simp
next
  case False
  with assms keeps_trans[OF carrier_kept[of k m w] proxy_stop_kept] keeps_trans[OF gpio_kept[of k m w] proxy_stop_kept] show ?thesis
    by (cases ops) (auto simp: xeth_port_stop_def xeth_vlan_stop_def xeth_lb_stop_def xeth_lag_stop_def xeth_bridge_stop_def bindR_eq_Inr)
qed

lemma close_kept [kept]: "close_one k' q w = Inr w' \<Longrightarrow> keeps k m w w'"
  unfolding close_one_def
  by (auto simp: bindR_eq_Inr ignore_err_Inr split: if_splits dest!: ndo_stop_kept[where k = k and m = m] elim!: keeps_trans intro: keeps_nd)

lemma uninit_kept [kept]: "uninit_one k' q w = Inr w' \<Longrightarrow> keeps k m w w'"
  unfolding uninit_one_def
  by (auto simp: bindR_eq_Inr dest!: ndo_uninit_kept[where k = k and m = m] elim!: keeps_trans intro: keeps_nd)

lemma unregister_many_kept [kept]: "unregister_netdevice_many k' q w = Inr w' \<Longrightarrow> keeps k m w w'"
  unfolding unregister_netdevice_many_def by (erule bind_kept; erule keeps_foldR, erule kept)

lemma dev_opens_kept: "keeps k m w (dev_open_mux k' m' w)"
proof -
  have o: "w_mux (dev_open k' l v) = w_mux v \<and> w_proxy (dev_open k' l v) = w_proxy v" for l v
    by (simp add: dev_open_def Let_def)
  have f: "w_mux (fold (\<lambda>l w. if P w l then dev_open k' l w else w) ls v) = w_mux v
      \<and> w_proxy (fold (\<lambda>l w. if P w l then dev_open k' l w else w) ls v) = w_proxy v" for P ls v
    by (induction ls arbitrary: v) (simp_all add: o)
  show ?thesis
    by (rule keeps_nd) (simp_all add: dev_open_mux_def xeth_mux_open_def xeth_mux_check_lower_carrier_def netif_carrier_def f Let_def)
qed

lemma opens_kept [kept]:
  "xeth_port_open k' q w = Inr (r, w') \<Longrightarrow> keeps k m w w'"
  "xeth_vlan_open k' q w = Inr (r, w') \<Longrightarrow> keeps k m w w'"
  "xeth_lb_open k' q w = Inr (r, w') \<Longrightarrow> keeps k m w w'"
  "xeth_lag_open k' q w = Inr (r, w') \<Longrightarrow> keeps k m w w'"
  "xeth_bridge_open k' q w = Inr (r, w') \<Longrightarrow> keeps k m w w'"
proof -
  note c = keeps_trans[OF carrier_kept[of k m] proxy_open_kept] and g = keeps_trans[OF gpio_kept[of k m] proxy_open_kept]
  show "keeps k m w w'" if "xeth_port_open k' q w = Inr (r, w')"
    using that g keeps_trans[OF dev_opens_kept g] by (auto simp: xeth_port_open_def bindR_eq_Inr Let_def split: if_splits)
  show "keeps k m w w'" if "xeth_vlan_open k' q w = Inr (r, w')"
    using that c proxy_open_kept[of k' q w r w' k m] by (auto simp: xeth_vlan_open_def split: option.splits if_splits)
  show "keeps k m w w'" if "xeth_lb_open k' q w = Inr (r, w')" using that c by (auto simp: xeth_lb_open_def)
  show "keeps k m w w'" if "xeth_lag_open k' q w = Inr (r, w')" using that c by (auto simp: xeth_lag_open_def)
  show "keeps k m w w'" if "xeth_bridge_open k' q w = Inr (r, w')" using that c by (auto simp: xeth_bridge_open_def)
qed

section \<open>Creation and deletion\<close>

lemma end_kept:
  assumes "bindR (register_netdevice k' nd v) (\<lambda>(err, w).
      bindR (if err = 0 then xeth_sbtx_ifinfo k' nd 0 XETH_IFINFO_REASON_NEW w else Inr (err, w)) (\<lambda>(err, w).
        if err \<noteq> 0 then bindR (xeth_mux_del_proxy nd w) (\<lambda>w. Inr (err, w)) else Inr (err, w))) = Inr (r, w')"
  shows "keeps k m v w'"
proof -
  from assms obtain e u e' x where r: "register_netdevice k' nd v = Inr (e, u)"
    "(if e = 0 then xeth_sbtx_ifinfo k' nd 0 XETH_IFINFO_REASON_NEW u else Inr (e, u)) = Inr (e', x)"
    "(if e' \<noteq> 0 then bindR (xeth_mux_del_proxy nd x) (\<lambda>w. Inr (e', w)) else Inr (e', x)) = Inr (r, w')"
    by (auto simp: bindR_eq_Inr)
  from r(2,3) have "keeps k m u x" "keeps k m x w'"
    by (auto simp: bindR_eq_Inr split: if_splits dest: kept[where k = k and m = m])
  with register_kept[OF r(1), of k m] show ?thesis by (meson keeps_trans)
qed

lemma add_and_register_kept:
  assumes "add_and_register k nd u = Inr (r, w')" and "nd \<notin> set (proxies m w)" and "px_kind (w_proxy u nd) \<noteq> XETH_DEV_KIND_UNSPEC"
    and "w_mux u = w_mux w" and "\<And>p. p \<noteq> nd \<Longrightarrow> w_proxy u p = w_proxy w p"
  shows "keeps k m w w'"
proof -
  from assms(1) obtain v where v: "xeth_mux_add_proxy k nd u = Inr v" by (auto simp: add_and_register_def bindR_eq_Inr)
  with assms(1) have "keeps k m v w'" by (intro end_kept[of k nd v r]) (simp add: add_and_register_def)
  with enter_kept[OF v assms(2-5)] show ?thesis by (rule keeps_trans)
qed

lemma vlan_newlink_kept:
  assumes "xeth_vlan_newlink k nd tb data w = Inr (r, w')" and "nd \<notin> set (proxies m w)" and "px_kind (w_proxy w nd) \<noteq> XETH_DEV_KIND_UNSPEC"
  shows "keeps k m w w'"
proof -
  define u where "u l = (upd_proxy nd (\<lambda>px. px\<lparr>px_nd := nd\<rparr>) w)\<lparr>w_vlan_link := (w_vlan_link w)(nd := l)\<rparr>" for l
  have u: "w_mux (u l) = w_mux w" "p \<noteq> nd \<Longrightarrow> w_proxy (u l) p = w_proxy w p" "px_kind (w_proxy (u l) nd) = px_kind (w_proxy w nd)" for l p
    by (simp_all add: u_def)
  have "keeps k m w (u l)" for l using prepare_kept[OF assms(2), of "u l"] u by simp
  moreover have "keeps k m w w'" if "vlan_newlink_with k nd link vid (u l) = Inr (r, w')" for link vid l
  proof (cases "vid_ok vid")
    case True
    show ?thesis using that True
      by (auto simp: vlan_newlink_with_def Let_def split: option.splits
          intro!: add_and_register_kept[OF _ assms(2), of _ _ r] simp: u assms(3) inherit_mtu_def eth_hw_addr_inherit_def)
  next
    case False
    with that \<open>\<And>l. keeps k m w (u l)\<close> show ?thesis by (auto simp: vlan_newlink_with_def)
  qed
  moreover from assms(1) obtain ifx where "nla_link tb = Inr ifx" by (auto simp: xeth_vlan_newlink_def bindR_eq_Inr Let_def)
  ultimately show ?thesis
    using assms(1) by (cases "k_dev_get_by_index k (nd_net (w_nd w nd)) ifx"; cases "attr data XETH_VLAN_IFLA_VID")
      (auto simp: xeth_vlan_newlink_def u_def[symmetric] bindR_eq_Inr Let_def split: if_splits)
qed

lemma lb_newlink_kept:
  assumes "xeth_lb_newlink k nd tb data w = Inr (r, w')" and "nd \<notin> set (proxies m w)" and "px_kind (w_proxy w nd) \<noteq> XETH_DEV_KIND_UNSPEC"
  shows "keeps k m w w'"
proof -
  have p: "keeps k m w (set_proxy nd x w)" for x
    by (rule prepare_kept[OF assms(2)]) (simp_all add: set_proxy_def)
  define u where "u m' = (case attr data XETH_LB_IFLA_CHANNEL of
      Some c \<Rightarrow> (inherit_mtu nd m' (set_proxy nd (Some m') w))\<lparr>w_lb_chan := (w_lb_chan (inherit_mtu nd m' (set_proxy nd (Some m') w)))(nd := ucast c)\<rparr>
    | None \<Rightarrow> inherit_mtu nd m' (set_proxy nd (Some m') w))" for m'
  have u: "w_mux (u m') = w_mux w" "q \<noteq> nd \<Longrightarrow> w_proxy (u m') q = w_proxy w q" "px_kind (w_proxy (u m') nd) = px_kind (w_proxy w nd)" for m' q
    by (simp_all add: u_def inherit_mtu_def set_proxy_def split: option.split)
  have c: "keeps k m w (set_xid nd x (u m'))" for x m'
    by (rule prepare_kept[OF assms(2)]) (simp_all add: set_xid_def u)
  have d: "keeps k m w w'" if "add_and_register k nd (set_xid nd x (u m')) = Inr (r, w')" for x m'
    by (rule add_and_register_kept[OF that assms(2)]) (simp_all add: set_xid_def u assms(3))
  from assms(1) obtain ifx where i: "nla_link tb = Inr ifx" by (auto simp: xeth_lb_newlink_def bindR_eq_Inr Let_def)
  show ?thesis
  proof (cases "k_dev_get_by_index k (nd_net (w_nd w nd)) ifx")
    case None
    with assms(1) i p show ?thesis by (auto simp: xeth_lb_newlink_def Let_def)
  next
    case (Some m')
    have "(if \<not> is_xeth_mux (w_nd (set_proxy nd (Some m') w) m') then Inr (- EINVAL, set_proxy nd (Some m') w)
        else case find_xid_up k m' (u m') 3000 of None \<Rightarrow> Inr (- ENODEV, set_xid nd 4095 (u m'))
             | Some xid \<Rightarrow> add_and_register k nd (set_xid nd xid (u m'))) = Inr (r, w')"
      using assms(1) unfolding xeth_lb_newlink_def i bindR_simps Let_def Some option.case u_def .
    with p c d show ?thesis by (cases "find_xid_up k m' (u m') 3000") (auto split: if_splits)
  qed
qed

lemma port_newlink_kept:
  assumes "xeth_port_newlink fuel k nd tb data w = Some (Inr (r, w'))" and "nd \<notin> set (proxies m w)"
    and "px_kind (w_proxy w nd) \<noteq> XETH_DEV_KIND_UNSPEC"
  shows "keeps k m w w'"
proof -
  define u where "u m' = upd_port nd (\<lambda>pp. pp\<lparr>pp_port := - 1, pp_subport := - 1\<rparr>) (inherit_mtu nd m' (set_proxy nd (Some m') w))" for m'
  from assms(1) obtain m' xid where n: "port_newlink_with k nd tb xid (u m') = Inr (r, w')"
    by (auto simp: xeth_port_newlink_def u_def Let_def split: option.splits sum.splits)
  define v where "v = (if has_ifname tb then set_xid nd xid (u m')
      else upd_nd nd (\<lambda>d. d\<lparr>nd_name := take (IFNAMSIZ - 1) (''xeth-port'' @ dec_digits (unat xid))\<rparr>) (set_xid nd xid (u m')))"
  have v: "w_mux v = w_mux w" "q \<noteq> nd \<Longrightarrow> w_proxy v q = w_proxy w q" "px_kind (w_proxy v nd) = px_kind (w_proxy w nd)" for q
    by (simp_all add: v_def u_def set_xid_def inherit_mtu_def set_proxy_def)
  from n obtain x e y where x: "xeth_mux_add_proxy k nd v = Inr x" "register_netdevice k nd x = Inr (e, y)"
    "(if e \<noteq> 0 then bindR (xeth_mux_del_proxy nd y) (\<lambda>w. Inr (e, w)) else xeth_sbtx_ifinfo k nd 0 XETH_IFINFO_REASON_NEW y) = Inr (r, w')"
    by (auto simp: port_newlink_with_def v_def Let_def bindR_eq_Inr)
  have "keeps k m w x" by (rule enter_kept[OF x(1) assms(2)]) (simp_all add: v assms(3))
  moreover have "keeps k m y w'" using x(3) by (auto simp: bindR_eq_Inr split: if_splits dest: kept[where k = k and m = m])
  ultimately show ?thesis using register_kept[OF x(2), of k m] by (meson keeps_trans)
qed

text \<open>The end that lags and bridges share.\<close>

lemma unregister_kept [kept]: "unregister_netdevice k' q w = Inr w' \<Longrightarrow> keeps k m w w'"
proof -
  assume a: "unregister_netdevice k' q w = Inr w'"
  let ?l = "log_event (Ev_unregister_netdevice q) w"
  from a obtain u v where u: "(if nd_flags (w_nd ?l q) AND IFF_UP \<noteq> 0
        then bindR (ignore_err (ndo_stop k' (nd_netdev_ops (w_nd w q)) q ?l)) (\<lambda>w. Inr (upd_nd q (\<lambda>d. d\<lparr>nd_flags := nd_flags d AND NOT IFF_UP\<rparr>) w))
        else Inr ?l) = Inr u" "ndo_uninit k' (nd_netdev_ops (w_nd w q)) q u = Inr v" "w' = upd_nd q (\<lambda>d. d\<lparr>nd_registered := False\<rparr>) v"
    by (auto simp: unregister_netdevice_def bindR_eq_Inr Let_def)
  have "keeps k m w ?l" "keeps k m v w'" unfolding u(3) by (rule keeps_nd; simp)+
  moreover have "keeps k m ?l u" using u(1)
    by (auto simp: bindR_eq_Inr ignore_err_Inr split: if_splits dest!: ndo_stop_kept[where k = k and m = m] elim!: keeps_trans intro: keeps_nd)
  ultimately show ?thesis using ndo_uninit_kept[OF u(2), of k m] by (meson keeps_trans)
qed

lemma failed_join_kept:
  assumes "bindR (xeth_mux_del_proxy q w) (\<lambda>w. bindR (ignore_err (xeth_sbtx_ifinfo k' q 0 XETH_IFINFO_REASON_DEL w)) (\<lambda>w.
      bindR (unregister_netdevice k' q w) (\<lambda>w. Inr (err :: int, w)))) = Inr (r, w')"
  shows "keeps k m w w'"
proof -
  from assms obtain a e b where "xeth_mux_del_proxy q w = Inr a" "xeth_sbtx_ifinfo k' q 0 XETH_IFINFO_REASON_DEL a = Inr (e, b)"
    "unregister_netdevice k' q b = Inr w'" by (auto simp: bindR_eq_Inr ignore_err_Inr)
  then show ?thesis by (meson kept keeps_trans)
qed

lemma upper_newlink_kept:
  assumes "(case find_xid_up k m' u 3000 of
      None \<Rightarrow> Inr (- ENODEV, set_xid nd 4095 u)
    | Some xid \<Rightarrow>
        bindR (xeth_mux_add_proxy k nd (set_xid nd xid u)) (\<lambda>w.
        bindR (register_netdevice k nd w) (\<lambda>(err, w).
        if P err then bindR (xeth_mux_del_proxy nd w) (\<lambda>w. Inr (err, w))
        else
          bindR (ignore_err (xeth_sbtx_ifinfo k nd 0 XETH_IFINFO_REASON_NEW w)) (\<lambda>w.
          bindR (add k nd link w) (\<lambda>(err, w).
          if P err
          then bindR (xeth_mux_del_proxy nd w) (\<lambda>w.
               bindR (ignore_err (xeth_sbtx_ifinfo k nd 0 XETH_IFINFO_REASON_DEL w)) (\<lambda>w.
               bindR (unregister_netdevice k nd w) (\<lambda>w. Inr (err, w))))
          else Inr (0, w)))))) = Inr (r, w')"
    and "\<And>w r w'. add k nd link w = Inr (r, w') \<Longrightarrow> keeps k m w w'"
    and "nd \<notin> set (proxies m w)" and "px_kind (w_proxy u nd) \<noteq> XETH_DEV_KIND_UNSPEC"
    and "w_mux u = w_mux w" and "\<And>p. p \<noteq> nd \<Longrightarrow> w_proxy u p = w_proxy w p"
  shows "keeps k m w w'"
proof (cases "find_xid_up k m' u 3000")
  case None
  have "keeps k m w (set_xid nd 4095 u)" by (rule prepare_kept[OF assms(3)]) (simp_all add: set_xid_def assms(5,6))
  with None assms(1) show ?thesis by auto
next
  case (Some xid)
  with assms(1) obtain v e x where v: "xeth_mux_add_proxy k nd (set_xid nd xid u) = Inr v" "register_netdevice k nd v = Inr (e, x)"
    and x: "(if P e then bindR (xeth_mux_del_proxy nd x) (\<lambda>w. Inr (e, w))
        else
          bindR (ignore_err (xeth_sbtx_ifinfo k nd 0 XETH_IFINFO_REASON_NEW x)) (\<lambda>w.
          bindR (add k nd link w) (\<lambda>(err, w).
          if P err
          then bindR (xeth_mux_del_proxy nd w) (\<lambda>w.
               bindR (ignore_err (xeth_sbtx_ifinfo k nd 0 XETH_IFINFO_REASON_DEL w)) (\<lambda>w.
               bindR (unregister_netdevice k nd w) (\<lambda>w. Inr (err, w))))
          else Inr (0, w)))) = Inr (r, w')" by (auto simp: bindR_eq_Inr)
  have "keeps k m x w'"
  proof (cases "P e")
    case True
    with x show ?thesis by (auto simp: bindR_eq_Inr dest: kept[where k = k and m = m])
  next
    case False
    with x obtain a b c d where a: "xeth_sbtx_ifinfo k nd 0 XETH_IFINFO_REASON_NEW x = Inr (a, b)" "add k nd link b = Inr (c, d)"
      and d: "(if P c then bindR (xeth_mux_del_proxy nd d) (\<lambda>w.
               bindR (ignore_err (xeth_sbtx_ifinfo k nd 0 XETH_IFINFO_REASON_DEL w)) (\<lambda>w.
               bindR (unregister_netdevice k nd w) (\<lambda>w. Inr (c, w)))) else Inr (0, d)) = Inr (r, w')"
      by (auto simp: bindR_eq_Inr ignore_err_Inr)
    have "keeps k m d w'" using d by (cases "P c") (auto dest: failed_join_kept[where k = k and m = m])
    with ifinfo_kept[OF a(1), of k m] assms(2)[OF a(2)] show ?thesis by (meson keeps_trans)
  qed
  moreover have "keeps k m w v" by (rule enter_kept[OF v(1) assms(3)]) (simp_all add: set_xid_def assms(4-6))
  ultimately show ?thesis using register_kept[OF v(2), of k m] by (meson keeps_trans)
qed

lemma upper_prepare_frame:
  "w_mux (upper_prepare nd link w) = w_mux w" "p \<noteq> nd \<Longrightarrow> w_proxy (upper_prepare nd link w) p = w_proxy w p"
  "px_kind (w_proxy (upper_prepare nd link w) nd) = px_kind (w_proxy w nd)"
  by (simp_all add: upper_prepare_def inherit_mtu_def eth_hw_addr_inherit_def set_proxy_def)

lemma upper_request_kept:
  assumes "bindR (nla_link tb) (\<lambda>ifx.
      case k_dev_get_by_index k (nd_net (w_nd w nd)) ifx of
        None \<Rightarrow> Inr (0, w)
      | Some link \<Rightarrow>
          let err = ok link w in
          if err \<noteq> 0 then Inr (err, w)
          else let w = upper_prepare nd link w in
          bindR (proxy_mux nd w) (\<lambda>m. body m link w)) = Inr (r, w')"
    and "\<And>m' link. body m' link (upper_prepare nd link w) = Inr (r, w') \<Longrightarrow> keeps k m w w'"
  shows "keeps k m w w'"
proof -
  from assms(1) obtain ifx where i: "nla_link tb = Inr ifx" by (auto simp: bindR_eq_Inr)
  show ?thesis
  proof (cases "k_dev_get_by_index k (nd_net (w_nd w nd)) ifx")
    case (Some link)
    with assms i show ?thesis by (cases "ok link w = 0") (auto simp: bindR_eq_Inr Let_def)
  qed (use assms(1) i in auto)
qed

lemma upper_newlinks_kept:
  assumes "nd \<notin> set (proxies m w)" and "px_kind (w_proxy w nd) \<noteq> XETH_DEV_KIND_UNSPEC"
  shows "xeth_lag_newlink k nd tb data w = Inr (r, w') \<Longrightarrow> keeps k m w w'"
    and "xeth_bridge_newlink k nd tb data w = Inr (r, w') \<Longrightarrow> keeps k m w w'"
  unfolding xeth_lag_newlink_def xeth_bridge_newlink_def
  by (erule upper_request_kept, erule upper_newlink_kept[OF _ _ assms(1)];
      simp add: upper_prepare_frame assms(2) add_lower_kept)+

lemma port_qsfp_frame: "xeth_port_qsfp k nd m bus w = Inr w' \<Longrightarrow> w_mux w' = w_mux w \<and> w_proxy w' = w_proxy w"
  by (auto simp: xeth_port_qsfp_def Let_def bindR_eq_Inr upd_ext_def gpio_set_frame split: option.splits if_splits)

lemma platform_port_kept:
  assumes "xeth_port k (Some nd) pd m' name port subport addr w = Inr (r, w')" and "nd \<notin> set (proxies m w)"
  shows "keeps k m w w'"
proof -
  define u where "u = upd_port nd (\<lambda>pp. pp\<lparr>pp_port := port, pp_subport := subport\<rparr>)
    (let w = inherit_mtu nd m' (set_xid nd (port_xid (mx_n_ports (w_mux (set_proxy nd (Some m') (alloc_port nd name (subport \<le> 0) w)) m')) port subport)
               (set_proxy nd (Some m') (alloc_port nd name (subport \<le> 0) w)))
     in if addr \<noteq> replicate 6 0 then upd_nd nd (\<lambda>d. d\<lparr>nd_dev_addr := addr\<rparr>) w else eth_hw_addr_random k nd w)"
  have u: "w_mux u = w_mux w" "q \<noteq> nd \<Longrightarrow> w_proxy u q = w_proxy w q" "px_kind (w_proxy u nd) = XETH_DEV_KIND_PORT" for q
    by (simp_all add: u_def Let_def inherit_mtu_def set_xid_def set_proxy_def alloc_port_def xeth_port_setup_def xeth_proxy_setup_def set_kind_def
        eth_hw_addr_random_def)
  from assms(1) obtain v where v: "(if subport \<le> 0 \<and> xeth_port_qsfp_bus_prop pd \<noteq> 0 then xeth_port_qsfp k nd m' (xeth_port_qsfp_bus_prop pd) u else Inr u) = Inr v"
    by (auto simp: xeth_port_def u_def Let_def bindR_eq_Inr split: if_splits)
  let ?v = "upd_port nd (\<lambda>pp. pp\<lparr>pp_ksettings := (if subport < 0 then xeth_port_ksettings else xeth_subport_ksettings) (pp_ksettings pp)\<rparr>) v"
  have vf: "w_mux v = w_mux u" "w_proxy v = w_proxy u" using v port_qsfp_frame[of k nd m' _ u v] by (auto split: if_splits)
  from assms(1) v obtain x e y where x: "xeth_mux_add_proxy k nd ?v = Inr x" "register_netdevice k nd x = Inr (e, y)"
    "(if e \<noteq> 0 then bindR (xeth_mux_del_proxy nd y) (\<lambda>w. Inr (e, log_event (Ev_free_netdev nd) w)) else Inr (e, y)) = Inr (r, w')"
    unfolding xeth_port_def option.case Let_def u_def[unfolded Let_def, symmetric] by (auto simp: bindR_eq_Inr)
  have "keeps k m w x" by (rule enter_kept[OF x(1) assms(2)]) (simp_all add: vf u)
  moreover have "keeps k m y w'" using x(3)
    by (auto simp: bindR_eq_Inr split: if_splits dest!: del_proxy_kept[where k = k and m = m] elim!: keeps_trans intro: keeps_nd)
  ultimately show ?thesis using register_kept[OF x(2), of k m] by (meson keeps_trans)
qed

lemma dellink_kept [kept]:
  "leave_master k' nd w = Inr w' \<Longrightarrow> keeps k m w w'"
  "xeth_port_dellink k' nd w = Inr w' \<Longrightarrow> keeps k m w w'"
  "xeth_vlan_dellink k' nd w = Inr w' \<Longrightarrow> keeps k m w w'"
  "xeth_lag_dellink k' nd w = Inr w' \<Longrightarrow> keeps k m w w'"
proof -
  have l: "keeps k m w w'" if "leave_master k' nd w = Inr w'" for w w'
    using that by (cases "nd_netdev_ops (w_nd w (the (nd_master (w_nd w nd))))")
      (auto simp: leave_master_def ignore_err_Inr split: option.splits dest: kept[where k = k and m = m])
  have q: "keeps k m v (unregister_netdevice_queue nd v)" for v by (simp add: unregister_netdevice_queue_def log_event_keeps)
  have f: "w_mux (fold (\<lambda>q w. if P q w then log_event (e q w) w else w) qs v) = w_mux v
      \<and> w_proxy (fold (\<lambda>q w. if P q w then log_event (e q w) w else w) qs v) = w_proxy v" for P e qs v
    by (induction qs arbitrary: v) simp_all
  have d: "keeps k m v (xeth_mux_del_vlans m' nd v)" for m' v by (rule keeps_nd) (simp_all add: xeth_mux_del_vlans_def f)
  show "leave_master k' nd w = Inr w' \<Longrightarrow> keeps k m w w'" by (rule l)
  show "xeth_port_dellink k' nd w = Inr w' \<Longrightarrow> keeps k m w w'" "xeth_lag_dellink k' nd w = Inr w' \<Longrightarrow> keeps k m w w'"
    using keeps_trans[OF keeps_trans[OF d l] q] by (auto simp: xeth_port_dellink_def xeth_lag_dellink_def bindR_eq_Inr)
  show "xeth_vlan_dellink k' nd w = Inr w' \<Longrightarrow> keeps k m w w'"
    using keeps_trans[OF l q] by (auto simp: xeth_vlan_dellink_def bindR_eq_Inr)
qed

section \<open>Frames, notifiers and settings\<close>

lemma stat_kept: "keeps k m w (count_stat m' st w)" "keeps k m w (add_stat m' st n w)"
  by (intro keepsI same_tableI; auto simp: count_stat_def add_stat_def sb_inv_def)+

lemma skb_kept: "keeps k m w (kfree_skb s w)" "keeps k m w (snd (dev_queue_xmit k' s w))" "keeps k m w (snd (dev_forward_skb k' nd s w))"
  by (rule keeps_nd; simp add: kfree_skb_def dev_queue_xmit_def dev_forward_skb_def)+

lemma demux_forward_kept: "keeps k m w (demux_forward k' m' nd s w)"
  using keeps_trans[OF keeps_trans[OF skb_kept(3) stat_kept(1)] stat_kept(2)] keeps_trans[OF skb_kept(3) stat_kept(1)]
  by (auto simp: demux_forward_def Let_def split_beta)

lemma demux_vlan_kept [kept]: "xeth_mux_demux_vlan k' m' s w = Inr w' \<Longrightarrow> keeps k m w w'"
  using keeps_trans[OF stat_kept(1) skb_kept(1)] keeps_trans[OF keeps_trans[OF stat_kept(1) stat_kept(1)] skb_kept(1)] demux_forward_kept
  by (auto simp: xeth_mux_demux_vlan_def bindR_eq_Inr split: option.splits if_splits)

lemma demux_kept [kept]: "xeth_mux_demux k' s w = Inr w' \<Longrightarrow> keeps k m w w'"
  using keeps_trans[OF keeps_trans[OF stat_kept(1) stat_kept(1)] skb_kept(1)]
  by (auto simp: xeth_mux_demux_def split: option.splits if_splits dest: kept[where k = k and m = m])

lemma ex_counters_kept:
  "keeps k m w (upd_mux m' (upd_counters (\<lambda>c. xeth_mux_add ex_bytes n (xeth_mux_inc ex_frames c))) w)"
  by (intro keepsI same_tableI) (auto simp: sb_inv_def mc.get_inc mc.get_add)

lemma was_exception_kept [kept]:
  assumes "xeth_mux_was_vlan_exception k' m' s w = Inr (b, w')"
  shows "keeps k m w w'"
  using assms keeps_trans[OF ex_counters_kept demux_vlan_kept, of k' m' _ w m' "of_nat (skb_len s)" w' k m]
  by (auto simp: xeth_mux_was_vlan_exception_def Let_def bindR_eq_Inr split: if_splits)

lemma xmit_link_kept: "keeps k m w (vlan_xmit_link k' m' s w)"
  using keeps_trans[OF skb_kept(2) stat_kept(1)] keeps_trans[OF keeps_trans[OF skb_kept(2) stat_kept(1)] stat_kept(2)]
    keeps_trans[OF keeps_trans[OF stat_kept(1) stat_kept(1)] skb_kept(1)]
    keeps_trans[OF keeps_trans[OF skb_kept(3) stat_kept(1)] stat_kept(2)]
    keeps_trans[OF keeps_trans[OF keeps_trans[OF skb_kept(3) stat_kept(1)] stat_kept(1)] skb_kept(1)]
  by (auto simp: vlan_xmit_link_def Let_def split_beta split: option.split)

lemma mux_xmit_kept [kept]: "xeth_mux_xmit k' s m' w = Inr (r, w') \<Longrightarrow> keeps k m w w'"
  using keeps_trans[OF was_exception_kept xmit_link_kept] keeps_trans[OF stat_kept(1) skb_kept(1)]
  by (auto simp: xeth_mux_xmit_def xeth_mux_vlan_xmit_def bindR_eq_Inr split: xeth_encap.splits if_splits dest: kept[where k = k and m = m])

lemma proxy_xmit_kept [kept]:
  assumes "xeth_proxy_start_xmit k' s nd w = Inr (r, w')"
  shows "keeps k m w w'"
proof (cases "nd_carrier (w_nd w nd)")
  case True
  have p: "keeps k m w (kfree_skb s (upd_proxy nd (\<lambda>px. px\<lparr>px_link_stats := f px\<rparr>) w))" for f
    by (rule keeps_trans[OF _ skb_kept(1)], rule keepsI) (simp_all add: same_table_def)
  from assms True obtain m' where m': "px_mux (w_proxy w nd) = Some m'"
    by (cases "px_mux (w_proxy w nd)") (auto simp: xeth_proxy_start_xmit_def xeth_mux_encap_xmit_def xeth_mux_encap_def)
  show ?thesis
    using assms True m' p skb_kept keeps_trans[OF keeps_trans[OF stat_kept(1) stat_kept(1)] skb_kept(1)]
    by (cases "mx_encap (w_mux w m')"; cases "encap_tags k' (w_proxy w nd) s")
      (auto simp: xeth_proxy_start_xmit_def xeth_mux_encap_xmit_def xeth_mux_encap_def xeth_mux_vlan_encap_xmit_def Let_def split: if_splits)
next
  case False
  with assms skb_kept(1) show ?thesis by (auto simp: xeth_proxy_start_xmit_def)
qed

lemma fib_stop_kept: "keeps k m w (fib_stop m' n w)"
  by (intro keepsI same_tableI) (auto simp: fib_stop_def sb_inv_def)

lemma stop_net_fib_kept: "keeps k m w (xeth_nb_stop_net_fib m' net w)"
proof -
  have "keeps k m v (fold (\<lambda>n w. if n = net then fib_stop m' n w else w) ns v)" for ns v
    by (induction ns arbitrary: v) (auto intro: keeps_trans[OF fib_stop_kept])
  then show ?thesis by (simp add: xeth_nb_stop_net_fib_def)
qed

lemma notifiers_kept [kept]:
  "xeth_nb_fib k' m' net ev info w = Inr w' \<Longrightarrow> keeps k m w w'"
  "xeth_nb_inetaddr k' m' ev32 ifa dev w = Inr w' \<Longrightarrow> keeps k m w w'"
  "xeth_nb_inet6addr k' m' ev32 ifa6 dev w = Inr w' \<Longrightarrow> keeps k m w w'"
  "xeth_nb_netevent k' m' ne w = Inr w' \<Longrightarrow> keeps k m w w'"
  by (auto simp: xeth_nb_fib_def xeth_nb_inetaddr_def xeth_nb_inet6addr_def xeth_nb_netevent_def ignore_err_Inr
      split: if_splits fib_info.splits option.splits dest: sb_exts[THEN keeps_other[where k = k and m = m]])

lemma netdevice_kept [kept]: "xeth_nb_netdevice k' m' ev nd w = Inr w' \<Longrightarrow> keeps k m w w'"
proof -
  have c: "keeps k m w (xeth_mux_check_lower_carrier m' w)"
    by (rule keeps_nd) (simp_all add: xeth_mux_check_lower_carrier_def netif_carrier_def Let_def)
  show "xeth_nb_netdevice k' m' ev nd w = Inr w' \<Longrightarrow> keeps k m w w'"
    using c keeps_trans[OF stop_net_fib_kept sends_ext(10)[THEN keeps_other[where k = k and m = m]]]
    by (auto simp: xeth_nb_netdevice_def ignore_err_Inr Let_def split: if_splits netdev_event.splits option.splits
        dest: kept[where k = k and m = m] sends_ext(10)[THEN keeps_other[where k = k and m = m]])
qed

lemma ethtool_kept [kept]:
  "xeth_port_set_priv_flags k' nd fl w = Inr (r, w') \<Longrightarrow> keeps k m w w'"
  "xeth_port_set_link_ksettings k' nd req w = Inr (r, w') \<Longrightarrow> keeps k m w w'"
  "xeth_port_set_fecparam k' nd fl w = Inr (r, w') \<Longrightarrow> keeps k m w w'"
  "xeth_proxy_set_features k' nd ft w = Inr (r, w') \<Longrightarrow> keeps k m w w'"
proof -
  show "xeth_port_set_priv_flags k' nd fl w = Inr (r, w') \<Longrightarrow> keeps k m w w'"
    by (auto simp: xeth_port_set_priv_flags_def bindR_eq_Inr Let_def upd_ext_def
        split: if_splits dest!: sends_ext(3)[THEN keeps_other[where k = k and m = m]] elim!: keeps_trans[rotated] intro: keeps_nd)
  show "xeth_port_set_link_ksettings k' nd req w = Inr (r, w') \<Longrightarrow> keeps k m w w'"
    by (auto simp: xeth_port_set_link_ksettings_def bindR_eq_Inr set_ksettings_def Let_def split: if_splits prod.splits
        dest!: et_settings_ext[THEN keeps_other[where k = k and m = m]] elim!: keeps_trans[rotated] intro: keeps_nd)
  show "xeth_port_set_fecparam k' nd fl w = Inr (r, w') \<Longrightarrow> keeps k m w w'"
    by (auto simp: xeth_port_set_fecparam_def bindR_eq_Inr set_ksettings_def Let_def split: if_splits prod.splits
        dest!: et_settings_ext[THEN keeps_other[where k = k and m = m]] elim!: keeps_trans[rotated] intro: keeps_nd)
  show "xeth_proxy_set_features k' nd ft w = Inr (r, w') \<Longrightarrow> keeps k m w w'"
    by (auto simp: xeth_proxy_set_features_def bindR_eq_Inr ignore_err_Inr dest!: ifinfo_kept[where k = k and m = m]
        elim!: keeps_trans[rotated] intro: keeps_nd)
qed

section \<open>Steps of the driver\<close>

text \<open>
  What can happen to the driver, in terms of the mux \<open>m\<close>: a message of the daemon, a round of the service and its
  end, a notification, a frame, and an operation on a device. A new device is one that is not in the
  table and has been set up. An operation that faults is no step.
\<close>

inductive mux_step :: "kapi \<Rightarrow> ndp \<Rightarrow> world \<Rightarrow> world \<Rightarrow> bool" for k m where
  message: "xeth_sbrx_msg k m v n w = Inr (r, w') \<Longrightarrow> mux_step k m w w'"
| service: "service_tick k m ms w = Inr (brk, err, ms', w') \<Longrightarrow> mux_step k m w w'"
| service_end: "mux_step k m w (service_exit m w)"
| fib: "xeth_nb_fib k m net ev info w = Inr w' \<Longrightarrow> mux_step k m w w'"
| inetaddr: "xeth_nb_inetaddr k m ev32 ifa dev w = Inr w' \<Longrightarrow> mux_step k m w w'"
| inet6addr: "xeth_nb_inet6addr k m ev32 ifa6 dev w = Inr w' \<Longrightarrow> mux_step k m w w'"
| netdevice: "xeth_nb_netdevice k m nev nd w = Inr w' \<Longrightarrow> mux_step k m w w'"
| netevent: "xeth_nb_netevent k m ne w = Inr w' \<Longrightarrow> mux_step k m w w'"
| receive: "xeth_mux_demux k s w = Inr w' \<Longrightarrow> mux_step k m w w'"
| mux_transmit: "xeth_mux_xmit k s m w = Inr (r, w') \<Longrightarrow> mux_step k m w w'"
| transmit: "xeth_proxy_start_xmit k s nd w = Inr (r, w') \<Longrightarrow> mux_step k m w w'"
| port_open: "xeth_port_open k nd w = Inr (r, w') \<Longrightarrow> mux_step k m w w'"
| vlan_open: "xeth_vlan_open k nd w = Inr (r, w') \<Longrightarrow> mux_step k m w w'"
| lb_open: "xeth_lb_open k nd w = Inr (r, w') \<Longrightarrow> mux_step k m w w'"
| lag_open: "xeth_lag_open k nd w = Inr (r, w') \<Longrightarrow> mux_step k m w w'"
| bridge_open: "xeth_bridge_open k nd w = Inr (r, w') \<Longrightarrow> mux_step k m w w'"
| close: "close_one k nd w = Inr w' \<Longrightarrow> mux_step k m w w'"
| lag_join: "xeth_lag_add_lower k u l w = Inr (r, w') \<Longrightarrow> mux_step k m w w'"
| lag_leave: "xeth_lag_del_lower k u l w = Inr (r, w') \<Longrightarrow> mux_step k m w w'"
| bridge_join: "xeth_bridge_add_lower k u l w = Inr (r, w') \<Longrightarrow> mux_step k m w w'"
| bridge_leave: "xeth_bridge_del_lower k u l w = Inr (r, w') \<Longrightarrow> mux_step k m w w'"
| set_priv_flags: "xeth_port_set_priv_flags k nd fl w = Inr (r, w') \<Longrightarrow> mux_step k m w w'"
| set_ksettings: "xeth_port_set_link_ksettings k nd req w = Inr (r, w') \<Longrightarrow> mux_step k m w w'"
| set_fecparam: "xeth_port_set_fecparam k nd fl w = Inr (r, w') \<Longrightarrow> mux_step k m w w'"
| set_features: "xeth_proxy_set_features k nd ft w = Inr (r, w') \<Longrightarrow> mux_step k m w w'"
| port_setup: "nd \<notin> set (proxies m w) \<Longrightarrow> mux_step k m w (xeth_port_setup nd w)"
| vlan_setup: "nd \<notin> set (proxies m w) \<Longrightarrow> mux_step k m w (xeth_vlan_setup k nd w)"
| lb_setup: "nd \<notin> set (proxies m w) \<Longrightarrow> mux_step k m w (xeth_lb_setup k nd w)"
| lag_setup: "nd \<notin> set (proxies m w) \<Longrightarrow> mux_step k m w (xeth_lag_setup nd w)"
| bridge_setup: "nd \<notin> set (proxies m w) \<Longrightarrow> mux_step k m w (xeth_bridge_setup nd w)"
| platform_port: "nd \<notin> set (proxies m w) \<Longrightarrow> xeth_port k (Some nd) pd m name port subport addr w = Inr (r, w') \<Longrightarrow> mux_step k m w w'"
| new_port: "nd \<notin> set (proxies m w) \<Longrightarrow> px_kind (w_proxy w nd) \<noteq> XETH_DEV_KIND_UNSPEC \<Longrightarrow>
    xeth_port_newlink fuel k nd tb data w = Some (Inr (r, w')) \<Longrightarrow> mux_step k m w w'"
| new_vlan: "nd \<notin> set (proxies m w) \<Longrightarrow> px_kind (w_proxy w nd) \<noteq> XETH_DEV_KIND_UNSPEC \<Longrightarrow>
    xeth_vlan_newlink k nd tb data w = Inr (r, w') \<Longrightarrow> mux_step k m w w'"
| new_lb: "nd \<notin> set (proxies m w) \<Longrightarrow> px_kind (w_proxy w nd) \<noteq> XETH_DEV_KIND_UNSPEC \<Longrightarrow>
    xeth_lb_newlink k nd tb data w = Inr (r, w') \<Longrightarrow> mux_step k m w w'"
| new_lag: "nd \<notin> set (proxies m w) \<Longrightarrow> px_kind (w_proxy w nd) \<noteq> XETH_DEV_KIND_UNSPEC \<Longrightarrow>
    xeth_lag_newlink k nd tb data w = Inr (r, w') \<Longrightarrow> mux_step k m w w'"
| new_bridge: "nd \<notin> set (proxies m w) \<Longrightarrow> px_kind (w_proxy w nd) \<noteq> XETH_DEV_KIND_UNSPEC \<Longrightarrow>
    xeth_bridge_newlink k nd tb data w = Inr (r, w') \<Longrightarrow> mux_step k m w w'"
| port_dellink: "xeth_port_dellink k nd w = Inr w' \<Longrightarrow> mux_step k m w w'"
| vlan_dellink: "xeth_vlan_dellink k nd w = Inr w' \<Longrightarrow> mux_step k m w w'"
| lag_dellink: "xeth_lag_dellink k nd w = Inr w' \<Longrightarrow> mux_step k m w w'"
| unregister: "unregister_netdevice_many k q w = Inr w' \<Longrightarrow> mux_step k m w w'"

lemma service_exit_keeps: "keeps k m w (service_exit m w)"
  using same_table_exit service_exit_clean(1) by (intro keepsI)

lemma setups_kept:
  assumes "nd \<notin> set (proxies m w)"
  shows "keeps k m w (xeth_port_setup nd w)" "keeps k m w (xeth_vlan_setup k nd w)" "keeps k m w (xeth_lb_setup k nd w)"
    "keeps k m w (xeth_lag_setup nd w)" "keeps k m w (xeth_bridge_setup nd w)"
  by (rule prepare_kept[OF assms]; simp add: xeth_port_setup_def xeth_vlan_setup_def xeth_lb_setup_def xeth_lag_setup_def
      xeth_bridge_setup_def xeth_proxy_setup_def set_kind_def netif_carrier_def eth_hw_addr_random_def Let_def)+

lemma step_keeps: "mux_step k m w w' \<Longrightarrow> keeps k m w w'"
  by (induction rule: mux_step.induct)
    (blast intro: sbrx_msg_keeps tick_keeps service_exit_keeps platform_port_kept port_newlink_kept vlan_newlink_kept
      lb_newlink_kept upper_newlinks_kept setups_kept kept)+

section \<open>Reachable states\<close>

lemma uninit_fresh: "fresh (w_mux w m) \<Longrightarrow> fresh (w_mux (xeth_mux_uninit m w) m)"
proof -
  have "length (fold (\<lambda>i ht. ht[i := None]) is ht) = length ht" for "is" and ht :: "ndp option list"
    by (induction "is" arbitrary: ht) simp_all
  then show "fresh (w_mux w m) \<Longrightarrow> fresh (w_mux (xeth_mux_uninit m w) m)"
    by (simp add: xeth_mux_uninit_def del_lower_all fresh_def kin_list_empty stat_names_ok_def xeth_mux_clear_flag_def Let_def)
qed

lemma probe_fresh:
  assumes "xeth_mux_probe k pl alloc d w = Inr (r, Some (m, ppds), w')"
  shows "fresh (w_mux w' m)"
proof -
  obtain n links v where p: "probe_links pl d w = (n, links, v)" by (cases "probe_links pl d w")
  with assms have n: "0 \<le> n" and a: "alloc = Some m"
    by (auto simp: xeth_mux_probe_def Let_def bindR_eq_Inr split: if_splits option.splits)
  with assms p obtain addrs where i: "xeth_mux_qsfp_i2c_addrs_prop d = Inr addrs"
    by (auto simp: xeth_mux_probe_def Let_def bindR_eq_Inr split: if_splits)
  let ?p = "probe_prepare k d m links addrs v"
  from probe_unfold[OF p n i, of k m] assms a obtain e u where u: "register_netdevice k m ?p = Inr (e, u)" "w' = mux_start k pl d m links u"
    by (auto simp: bindR_eq_Inr split: if_splits)
  have "fresh (w_mux u m)"
    using u(1) probe_prepared[of k d m links addrs v] uninit_fresh[of _ m]
    by (auto simp: register_netdevice_def bindR_eq_Inr Let_def split: if_splits prod.splits)
  then show ?thesis unfolding u(2) by (rule mux_start_fresh)
qed


lemma sample_probe: "\<exists>ppds w. xeth_mux_probe sample_kapi sample_platform (Some 10) sample_device sample_world = Inr (0, Some (10, ppds), w)"
proof -
  from sample_probe_links obtain v where v: "probe_links sample_platform sample_device sample_world = (1, [11], v)" by blast
  have i: "xeth_mux_qsfp_i2c_addrs_prop sample_device = Inr [0x50, 0x51, I2C_CLIENT_END]" "xeth_mux_is_platina_mk1 sample_device"
    by (simp_all add: sample_device_def xeth_mux_qsfp_i2c_addrs_prop_def xeth_mux_is_platina_mk1_def xeth_mux_compatible_prop_def)
  from register_ok[of sample_kapi "probe_prepare sample_kapi sample_device 10 [11] [0x50, 0x51, I2C_CLIENT_END] v" 10 True]
  obtain u where "register_netdevice sample_kapi 10 (probe_prepare sample_kapi sample_device 10 [11] [0x50, 0x51, I2C_CLIENT_END] v) = Inr (0, u)"
    by (auto simp: sample_kapi_def)
  with probe_unfold[OF v _ i(1), of sample_kapi 10] i(2) show ?thesis by simp
qed


end
