(* ===== verification/Xeth_Drvinfo.thy ===== *)
theory Xeth_Drvinfo
  imports Xeth_Platform
begin

text \<open>
  What the devices tell of themselves through ethtool and sysfs: the driver information of every kind of
  device, the string sets of ports and the number of statistic names. The version string of the build
  (\<^verbatim>\<open>xeth_version\<close>) is an argument. A fixed size text field is modelled as the text up to its NUL.
\<close>

section \<open>Driver information\<close>

record ethtool_drvinfo =
  di_driver :: string
  di_version :: string
  di_fw_version :: string
  di_erom_version :: string
  di_bus_info :: string
  di_n_priv_flags :: u32
  di_n_stats :: u32

text \<open>\<^verbatim>\<open>strlcpy\<close> and \<^verbatim>\<open>scnprintf\<close> into a field of 32 bytes.\<close>

definition field32 :: "string \<Rightarrow> string" where
  "field32 s = take 31 s"

definition drvinfo_names :: "string \<Rightarrow> string \<Rightarrow> ethtool_drvinfo \<Rightarrow> ethtool_drvinfo" where
  "drvinfo_names drvname xeth_version d =
     d\<lparr>di_driver := field32 drvname, di_version := field32 xeth_version, di_fw_version := field32 ''n/a'', di_erom_version := field32 ''n/a''\<rparr>"

definition xeth_mux_eto_get_drvinfo :: "string \<Rightarrow> ethtool_drvinfo \<Rightarrow> ethtool_drvinfo" where
  "xeth_mux_eto_get_drvinfo xeth_version d =
     (drvinfo_names ''xeth-mux'' xeth_version d)\<lparr>di_bus_info := field32 ''n/a'', di_n_priv_flags := of_nat xeth_mux_n_flags,
        di_n_stats := of_nat xeth_mux_n_counters\<rparr>"

definition xeth_port_get_drvinfo :: "string \<Rightarrow> ndp \<Rightarrow> world \<Rightarrow> ethtool_drvinfo \<Rightarrow> ethtool_drvinfo outcome" where
  "xeth_port_get_drvinfo xeth_version nd w d =
     bindR (proxy_mux nd w) (\<lambda>m.
       Inr ((drvinfo_names ''xeth-port'' xeth_version d)\<lparr>di_n_priv_flags := of_nat (xeth_mux_n_priv_flags (w_mux w m)),
          di_n_stats := of_nat (xeth_mux_n_stats (w_mux w m)),
          di_bus_info := field32 (u32_digits (pp_port (w_port w nd)) @ '':'' @ dec_digits (unat (px_xid (w_proxy w nd))))\<rparr>))"

definition xeth_subport_get_drvinfo :: "string \<Rightarrow> ndp \<Rightarrow> world \<Rightarrow> ethtool_drvinfo \<Rightarrow> ethtool_drvinfo" where
  "xeth_subport_get_drvinfo xeth_version nd w d =
     (drvinfo_names ''xeth-port'' xeth_version d)\<lparr>di_n_priv_flags := 0, di_n_stats := 0,
        di_bus_info := field32 (u32_digits (pp_port (w_port w nd)) @ ''-'' @ u32_digits (pp_subport (w_port w nd)) @ '':''
          @ dec_digits (unat (px_xid (w_proxy w nd))))\<rparr>"

definition xeth_vlan_get_drvinfo :: "string \<Rightarrow> ndp \<Rightarrow> world \<Rightarrow> ethtool_drvinfo \<Rightarrow> ethtool_drvinfo outcome" where
  "xeth_vlan_get_drvinfo xeth_version nd w d =
     bindR (proxy_mux nd w) (\<lambda>m.
       case vlan_xid_vid (mx_encap (w_mux w m)) (px_xid (w_proxy w nd)) of (xid, vid) \<Rightarrow>
         Inr ((drvinfo_names ''xeth-vlan'' xeth_version d)\<lparr>di_bus_info := field32 (dec_digits (unat xid) @ '','' @ dec_digits (unat vid))\<rparr>))"

definition xeth_lb_get_drvinfo :: "string \<Rightarrow> ndp \<Rightarrow> world \<Rightarrow> ethtool_drvinfo \<Rightarrow> ethtool_drvinfo" where
  "xeth_lb_get_drvinfo xeth_version nd w d =
     (drvinfo_names ''xeth-lb'' xeth_version d)\<lparr>di_bus_info :=
        field32 (dec_digits (unat (w_lb_chan w nd)) @ '':'' @ dec_digits (unat (px_xid (w_proxy w nd))))\<rparr>"

definition xeth_lag_get_drvinfo :: "string \<Rightarrow> ndp \<Rightarrow> world \<Rightarrow> ethtool_drvinfo \<Rightarrow> ethtool_drvinfo" where
  "xeth_lag_get_drvinfo xeth_version nd w d =
     (drvinfo_names ''xeth-lag'' xeth_version d)\<lparr>di_bus_info := field32 (dec_digits (unat (px_xid (w_proxy w nd))))\<rparr>"

definition xeth_bridge_get_drvinfo :: "string \<Rightarrow> ndp \<Rightarrow> world \<Rightarrow> ethtool_drvinfo \<Rightarrow> ethtool_drvinfo" where
  "xeth_bridge_get_drvinfo xeth_version nd w d =
     (drvinfo_names ''xeth-bridge'' xeth_version d)\<lparr>di_bus_info := field32 (dec_digits (unat (px_xid (w_proxy w nd))))\<rparr>"

section \<open>String sets of ports\<close>

definition xeth_mux_priv_flag_names :: "xeth_mux_priv \<Rightarrow> u8 list list" where
  "xeth_mux_priv_flag_names p = map c_string (mx_priv_flag_names p)"

definition xeth_port_get_strings :: "ndp \<Rightarrow> sset \<Rightarrow> world \<Rightarrow> u8 list list outcome" where
  "xeth_port_get_strings nd sset w =
     (case sset of
        ETH_SS_STATS \<Rightarrow> bindR (proxy_mux nd w) (\<lambda>m. Inr (xeth_mux_stat_names (w_mux w m)))
      | ETH_SS_PRIV_FLAGS \<Rightarrow> bindR (proxy_mux nd w) (\<lambda>m. Inr (xeth_mux_priv_flag_names (w_mux w m)))
      | _ \<Rightarrow> Inr [])"

definition xeth_mux_show_stat_name :: "xeth_mux_priv \<Rightarrow> int \<times> string" where
  "xeth_mux_show_stat_name p = (let s = dec_digits (xeth_mux_n_stats p) in (int (length s), s))"

section \<open>Decimal numbers\<close>

definition undigits :: "string \<Rightarrow> nat" where
  "undigits s = foldl (\<lambda>n c. 10 * n + (of_char c - 48)) 0 s"

lemma undigits_snoc: "undigits (s @ [c]) = 10 * undigits s + (of_char c - 48)"
  by (simp add: undigits_def)

lemma of_digit: "k < 10 \<Longrightarrow> of_char (char_of (48 + k :: nat)) = (48 + k :: nat)"
  by simp

lemma undigits_dec: "undigits (dec_digits n) = n"
proof (induction n rule: dec_digits.induct)
  case (1 n)
  show ?case
  proof (cases "n < 10")
    case True
    then show ?thesis by (subst dec_digits.simps) (simp add: undigits_def)
  next
    case False
    have "dec_digits n = dec_digits (n div 10) @ [char_of (48 + n mod 10)]" using False by (subst dec_digits.simps) simp
    with 1[OF False] of_digit[of "n mod 10"] show ?thesis by (simp add: undigits_snoc)
  qed
qed

lemma length_dec_digits: "n < 10 ^ Suc k \<Longrightarrow> length (dec_digits n) \<le> Suc k"
proof (induction k arbitrary: n)
  case (Suc k)
  have "n div 10 < 10 ^ Suc k" using Suc.prems by (simp add: less_mult_imp_div_less)
  from Suc.IH[OF this] show ?case by (subst dec_digits.simps) simp
qed (subst dec_digits.simps, simp)

lemma digits_no_punct: "c \<in> set (dec_digits n) \<Longrightarrow> 48 \<le> (of_char c :: nat)"
proof (induction n rule: dec_digits.induct)
  case (1 n)
  show ?case
  proof (cases "n < 10")
    case True
    with 1(2) show ?thesis by (subst (asm) dec_digits.simps) simp
  next
    case False
    then have "dec_digits n = dec_digits (n div 10) @ [char_of (48 + n mod 10)]" by (subst dec_digits.simps) simp
    with 1 False of_digit[of "n mod 10"] show ?thesis by auto
  qed
qed

lemma no_comma: "c \<in> set (dec_digits n) \<Longrightarrow> c \<noteq> CHR '',''"
  using digits_no_punct[of c n] by auto

lemma split_at_comma:
  "takeWhile (\<lambda>c. c \<noteq> CHR '','') (dec_digits a @ '','' @ s) = dec_digits a"
  "drop 1 (dropWhile (\<lambda>c. c \<noteq> CHR '','') (dec_digits a @ '','' @ s)) = s"
  using no_comma[of _ a] by (simp_all add: takeWhile_append2 dropWhile_append2)

lemma length_u32: "length (dec_digits (unat (x :: u32))) \<le> 10"
  using length_dec_digits[of "unat x" 9] unsigned_less[of x, where ?'a = nat] by simp

lemma length_u16: "length (dec_digits (unat (x :: u16))) \<le> 5"
  using length_dec_digits[of "unat x" 4] unsigned_less[of x, where ?'a = nat] by simp

text \<open>
  C29: The bus information that \<^verbatim>\<open>ethtool -i\<close> shows for a vlan is never cut short, and the XID of the link and the
  vlan number that the device was made with read back from the text.
\<close>

theorem vlan_bus_info_roundtrip:
  assumes "px_mux (w_proxy w nd) = Some m" and "px_xid (w_proxy w nd) = vlan_xid (mx_encap (w_mux w m)) xid vid" and "vid_ok vid"
    and "unat xid < 2 ^ (case mx_encap (w_mux w m) of XETH_ENCAP_VLAN \<Rightarrow> XETH_ENCAP_VLAN_VID_BIT | XETH_ENCAP_VPLS \<Rightarrow> XETH_ENCAP_VPLS_VID_BIT)"
  shows "\<exists>d'. xeth_vlan_get_drvinfo ver nd w d = Inr d'
    \<and> undigits (takeWhile (\<lambda>c. c \<noteq> CHR '','') (di_bus_info d')) = unat xid
    \<and> undigits (drop 1 (dropWhile (\<lambda>c. c \<noteq> CHR '','') (di_bus_info d'))) = unat vid
    \<and> di_driver d' = ''xeth-vlan'' \<and> di_n_stats d' = di_n_stats d"
proof -
  let ?s = "dec_digits (unat xid) @ '','' @ dec_digits (unat vid)"
  have "field32 ?s = ?s" using length_u32[of xid] length_u16[of vid] by (simp add: field32_def)
  moreover have "vlan_xid_vid (mx_encap (w_mux w m)) (px_xid (w_proxy w nd)) = (xid, vid)"
    unfolding assms(2) by (rule vlan_xid_roundtrip[OF assms(3,4)])
  ultimately show ?thesis
    using assms(1) split_at_comma[of "unat xid" "dec_digits (unat vid)"]
    by (simp add: xeth_vlan_get_drvinfo_def proxy_mux_def drvinfo_names_def undigits_dec field32_def)
qed

theorem vlan_bus_info_roundtrip_witness:
  "\<exists>d'. xeth_vlan_get_drvinfo ''1.0'' 4 (upd_proxy 4 (\<lambda>q. q\<lparr>px_xid := vlan_xid XETH_ENCAP_VLAN 3001 100\<rparr>) sample_world)
       \<lparr>di_driver = [], di_version = [], di_fw_version = [], di_erom_version = [], di_bus_info = [], di_n_priv_flags = 0, di_n_stats = 0\<rparr> = Inr d'
     \<and> undigits (takeWhile (\<lambda>c. c \<noteq> CHR '','') (di_bus_info d')) = 3001"
proof -
  let ?w = "upd_proxy 4 (\<lambda>q. q\<lparr>px_xid := vlan_xid XETH_ENCAP_VLAN 3001 100\<rparr>) sample_world"
  have "px_mux (w_proxy ?w 4) = Some 1" "mx_encap (w_mux ?w 1) = XETH_ENCAP_VLAN" "vid_ok 100"
    by (simp_all add: sample_defs vid_ok_def VLAN_N_VID_def)
  from vlan_bus_info_roundtrip[of ?w 4 1 3001 100, OF this(1) _ this(3)] this(2) show ?thesis
    by (auto simp: XETH_ENCAP_VLAN_VID_BIT_def)
qed

text \<open>
  A port returns as many strings as the size of the set that it announces, each within the 32 bytes of its
  slot, so that the buffer that ethtool allocates for them is filled and not exceeded.
\<close>

theorem port_strings_match_count:
  assumes "xeth_port_get_sset_count nd s w = Inr n" and "0 \<le> n"
  shows "\<exists>ss. xeth_port_get_strings nd s w = Inr ss \<and> int (length ss) = n \<and> (\<forall>b \<in> set ss. length b \<le> ETH_GSTRING_LEN)"
proof -
  have c: "length (c_string b) \<le> ETH_GSTRING_LEN" for b
    using length_takeWhile_le[of "\<lambda>b. b \<noteq> 0" "take ETH_GSTRING_LEN b"] by (simp add: c_string_def)
  show ?thesis
    using assms c
    by (cases s) (auto simp: xeth_port_get_sset_count_def xeth_port_get_strings_def xeth_mux_stat_names_def xeth_mux_priv_flag_names_def
        xeth_mux_n_stats_def xeth_mux_n_priv_flags_def bindR_eq_Inr)
qed

theorem port_strings_match_count_witness:
  "\<exists>ss. xeth_port_get_strings 2 ETH_SS_STATS sample_world = Inr ss \<and> length ss = mx_stat_named (w_mux sample_world 1)"
proof -
  have "xeth_port_get_sset_count 2 ETH_SS_STATS sample_world = Inr (int (mx_stat_named (w_mux sample_world 1)))"
    by (simp add: xeth_port_get_sset_count_def proxy_mux_def xeth_mux_n_stats_def sample_defs)
  from port_strings_match_count[OF this] show ?thesis by auto
qed

end
