(* ===== verification/Xeth_Mod.thy ===== *)
theory Xeth_Mod
  imports Xeth_Prelude
begin

text \<open>
  Loading and unloading of the module (\<^verbatim>\<open>dkms/xeth_mod.c\<close>): the registration of the platform drivers and of
  the rtnetlink operations, and what is undone when one of them fails. The variable that holds the error
  is not initialised: its first value is a parameter.
\<close>

section \<open>Operations\<close>

datatype registrant =
  xeth_mux_driver | xeth_port_driver
| lnko_bridge | lnko_lag | lnko_vlan | lnko_port | lnko_lb | lnko_mux

datatype mod_call = Register registrant | Unregister registrant

definition xeth_mod_drivers :: "registrant list" where
  "xeth_mod_drivers = [xeth_mux_driver, xeth_port_driver]"

definition xeth_mod_lnkos :: "registrant list" where
  "xeth_mod_lnkos = [lnko_bridge, lnko_lag, lnko_vlan, lnko_port, lnko_lb, lnko_mux]"

text \<open>The loop \<^verbatim>\<open>for (; err >= 0 && *p; p++) err = register(*p)\<close>: the error and the entries that the pointer has passed.\<close>

fun register_loop :: "(registrant \<Rightarrow> int) \<Rightarrow> registrant list \<Rightarrow> int \<Rightarrow> int \<times> registrant list" where
  "register_loop reg [] err = (err, [])"
| "register_loop reg (r # rs) err =
     (if err < 0 then (err, []) else case register_loop reg rs (reg r) of (e, ps) \<Rightarrow> (e, r # ps))"

definition xeth_mod_init :: "(registrant \<Rightarrow> int) \<Rightarrow> int \<Rightarrow> int \<times> mod_call list" where
  "xeth_mod_init reg err0 =
     (let (err, drvs) = register_loop reg xeth_mod_drivers err0;
          (err, lnks) = register_loop reg xeth_mod_lnkos err;
          calls = map Register (drvs @ lnks)
      in (err, if err \<noteq> 0 then calls @ map Unregister (rev drvs) @ map Unregister (rev lnks) else calls))"

text \<open>Link operations whose list entry was never used are skipped on unloading.\<close>

definition xeth_mod_exit :: "(registrant \<Rightarrow> bool) \<Rightarrow> mod_call list" where
  "xeth_mod_exit listed = map Unregister xeth_mod_drivers @ map Unregister (filter listed xeth_mod_lnkos)"

section \<open>Properties\<close>

lemma register_loop_ok:
  "0 \<le> err \<Longrightarrow> \<forall>r \<in> set rs. reg r = 0 \<Longrightarrow> register_loop reg rs err = (if rs = [] then err else 0, rs)"
  by (induction rs arbitrary: err) auto

lemma register_loop_stop:
  "0 \<le> err \<Longrightarrow> \<forall>x \<in> set rs. reg x = 0 \<Longrightarrow> reg r < 0 \<Longrightarrow> register_loop reg (rs @ r # rest) err = (reg r, rs @ [r])"
proof (induction rs arbitrary: err)
  case Nil
  then show ?case by (cases rest) auto
qed auto

lemma register_loop_neg: "err < 0 \<Longrightarrow> register_loop reg rs err = (err, [])"
  by (cases rs) simp_all

text \<open>The first entry of a list that fails, if any.\<close>

lemma first_failing:
  assumes "\<forall>r. reg r \<le> (0 :: int)"
  obtains "\<forall>r \<in> set rs. reg r = 0" | ok r rest where "rs = ok @ r # rest" "\<forall>x \<in> set ok. reg x = 0" "reg r < 0"
proof (cases "\<forall>r \<in> set rs. reg r = 0")
  case False
  then obtain ok r rest where "rs = ok @ r # rest" "reg r \<noteq> 0" "\<forall>x \<in> set ok. reg x = 0"
    using split_list_first_prop[of rs "\<lambda>r. reg r \<noteq> 0"] by auto
  with assms that(2) show thesis by (metis order_le_less)
qed (use that(1) in blast)

text \<open>
  C35: Loading the module, by the value that its uninitialised error variable happens to have: a negative
  one fails the load with nothing registered. Otherwise all drivers and link operations are registered
  in order, or the first failure is returned, and then exactly the entries up to and including the
  failing one are unregistered, the failing one although it never was registered.
\<close>

theorem mod_init_outcome:
  assumes "\<forall>r. reg r \<le> 0"
  shows "if err0 < 0 then xeth_mod_init reg err0 = (err0, [])
    else if \<forall>r. reg r = 0 then xeth_mod_init reg err0 = (0, map Register (xeth_mod_drivers @ xeth_mod_lnkos))
    else \<exists>ok r rest undo. xeth_mod_drivers @ xeth_mod_lnkos = ok @ r # rest \<and> (\<forall>x \<in> set ok. reg x = 0) \<and> reg r < 0
      \<and> xeth_mod_init reg err0 = (reg r, map Register (ok @ [r]) @ map Unregister undo) \<and> distinct undo \<and> set undo = set (ok @ [r])"
proof -
  have ne: "xeth_mod_drivers \<noteq> []" "xeth_mod_lnkos \<noteq> []" "distinct (xeth_mod_drivers @ xeth_mod_lnkos)"
    by (simp_all add: xeth_mod_drivers_def xeth_mod_lnkos_def)
  have all: "\<forall>r. r \<in> set (xeth_mod_drivers @ xeth_mod_lnkos)"
    by (auto simp: xeth_mod_drivers_def xeth_mod_lnkos_def intro: registrant.exhaust)
  consider "err0 < 0" | "0 \<le> err0" "\<forall>r \<in> set xeth_mod_drivers. reg r = 0" | "0 \<le> err0" "\<not> (\<forall>r \<in> set xeth_mod_drivers. reg r = 0)" by linarith
  then show ?thesis
  proof cases
    case 1
    then show ?thesis by (simp add: xeth_mod_init_def register_loop_neg)
  next
    case 2
    note d = register_loop_ok[OF 2]
    show ?thesis
    proof (rule first_failing[OF assms, of xeth_mod_lnkos])
      assume l: "\<forall>r \<in> set xeth_mod_lnkos. reg r = 0"
      have "xeth_mod_init reg err0 = (0, map Register (xeth_mod_drivers @ xeth_mod_lnkos))"
        using d register_loop_ok[OF order_refl l] ne by (simp add: xeth_mod_init_def Let_def)
      moreover have "\<forall>r. reg r = 0" using l 2(2) all by auto
      ultimately show ?thesis using 2(1) by (metis not_less)
    next
      fix ok r rest assume s: "xeth_mod_lnkos = ok @ r # rest" "\<forall>x \<in> set ok. reg x = 0" "reg r < 0"
      have "xeth_mod_init reg err0 = (reg r, map Register ((xeth_mod_drivers @ ok) @ [r])
          @ map Unregister (rev xeth_mod_drivers @ rev (ok @ [r])))"
        using d register_loop_stop[OF order_refl s(2,3), of rest] s ne by (simp add: xeth_mod_init_def Let_def)
      moreover have "distinct (rev xeth_mod_drivers @ rev (ok @ [r]))" using ne(3) unfolding s(1) by auto
      moreover have "xeth_mod_drivers @ xeth_mod_lnkos = (xeth_mod_drivers @ ok) @ r # rest" using s(1) by simp
      moreover have "\<forall>x \<in> set (xeth_mod_drivers @ ok). reg x = 0" using 2(2) s(2) by auto
      moreover have "set (rev xeth_mod_drivers @ rev (ok @ [r])) = set ((xeth_mod_drivers @ ok) @ [r])" by auto
      moreover have "\<not> (\<forall>r. reg r = 0)" using s(3) by (metis less_irrefl)
      ultimately show ?thesis using 2(1) s(3) by (metis not_less)
    qed
  next
    case 3
    then obtain ok r rest where s: "xeth_mod_drivers = ok @ r # rest" "\<forall>x \<in> set ok. reg x = 0" "reg r < 0"
      using first_failing[OF assms, of xeth_mod_drivers] by metis
    have "xeth_mod_init reg err0 = (reg r, map Register (ok @ [r]) @ map Unregister (rev (ok @ [r])))"
      using register_loop_stop[OF 3(1) s(2,3), of rest] register_loop_neg[OF s(3)] s by (simp add: xeth_mod_init_def Let_def)
    moreover have "distinct (rev (ok @ [r]))" "xeth_mod_drivers @ xeth_mod_lnkos = ok @ r # (rest @ xeth_mod_lnkos)" using ne(3) unfolding s(1) by auto
    moreover have "set (rev (ok @ [r])) = set (ok @ [r])" "\<not> (\<forall>r. reg r = 0)" using s(3) by (simp, metis less_irrefl)
    ultimately show ?thesis using 3(1) s(2,3) by (metis not_less)
  qed
qed

theorem mod_init_outcome_witness:
  "\<exists>undo. xeth_mod_init (\<lambda>r. if r = xeth_port_driver then - 12 else 0) 0 =
     (- 12, map Register [xeth_mux_driver, xeth_port_driver] @ map Unregister undo) \<and> xeth_port_driver \<in> set undo"
proof -
  let ?reg = "\<lambda>r. if r = xeth_port_driver then - 12 else 0 :: int"
  have "\<forall>r. ?reg r \<le> 0" "\<not> (\<forall>r. ?reg r = 0)" by auto
  with mod_init_outcome[of ?reg 0] obtain ok r rest undo where
    o: "xeth_mod_drivers @ xeth_mod_lnkos = ok @ r # rest" "?reg r < 0"
      "xeth_mod_init ?reg 0 = (?reg r, map Register (ok @ [r]) @ map Unregister undo)" "set undo = set (ok @ [r])"
    by (metis less_irrefl)
  then have r: "r = xeth_port_driver" by (auto split: if_splits)
  with o(1) have "ok = [xeth_mux_driver]"
    by (cases ok; cases "tl ok") (auto simp: xeth_mod_drivers_def xeth_mod_lnkos_def append_eq_Cons_conv Cons_eq_append_conv)
  with o r show ?thesis by auto
qed

end
