(* ===== verification/Spec2Isabelle.thy ===== *)
theory Spec2Isabelle
  imports Xeth_Main Xeth_System Xeth_Drvinfo Xeth_Mod
begin

text \<open>
  A verification development for \<^verbatim>\<open>xeth\<close>, a Linux kernel module (\<^verbatim>\<open>src/dkms\<close>) that multiplexes proxy net
  devices over the links to a remote switch and mirrors the state of the kernel to a user space daemon.

  \<^bold>\<open>The program.\<close> A \<^emph>\<open>mux\<close> device (\<^verbatim>\<open>xeth_mux.c\<close>) owns up to eight lower links and a table of \<^emph>\<open>proxies\<close>:
  ports, vlans, lags, bridges and loopback devices, each with an XID. A frame that a proxy transmits
  is tagged with its XID and leaves on a lower link; a frame from a lower link is delivered to the proxy of
  its tags. A main task of the mux accepts connections of the daemon on a unix socket, the side band;
  while one lasts it sends queued messages (interfaces, addresses, routes, neighbours, settings), and
  handles received ones (carrier, speed, statistics, requests for dumps). Kernel notifiers feed the queue.
  Devices are made and destroyed through rtnetlink and by the platform drivers.

  \<^bold>\<open>The theories,\<close> in the order of their imports.
  \<^item> \<open>Xeth_Prelude\<close>: byte buffers, little endian words, the type \<open>outcome\<close> of operations that may fault
    (a NULL or poisoned pointer, an access outside of an allocation, an uninitialised variable) and its bind.
  \<^item> \<open>Xeth_Uapi\<close>: \<^verbatim>\<open>xeth_uapi.h\<close>, the message structures as records read from bytes.
  \<^item> \<open>Xeth_Counters\<close>: the counter, flag and link statistic operations that macros of \<^verbatim>\<open>xeth.h\<close> generate.
  \<^item> \<open>Xeth_State\<close>: the private data of the devices, the part of the kernel's objects that the driver uses,
    the record \<open>kapi\<close> of the kernel services as parameters, and the log of calls with an outside effect.
  \<^item> \<open>Xeth_Sample\<close>: a concrete kernel and configuration at which theorems are instantiated.
  \<^item> \<open>Xeth_Sbq\<close>: \<^verbatim>\<open>xeth_mux.c\<close>, the pool and the queue of side band buffers. The queue is first in first out,
    and every interleaving of its operations keeps buffers, gauges and lists in agreement.
  \<^item> \<open>Xeth_Table\<close>: \<^verbatim>\<open>xeth_mux.c\<close>, the proxy hash table and lists, which refine a finite map from XID to proxy.
  \<^item> \<open>Xeth_Link\<close>: \<^verbatim>\<open>xeth_mux.c\<close>, the lower links and the link table.
  \<^item> \<open>Xeth_Frame\<close>: \<^verbatim>\<open>xeth_mux.c\<close>, encapsulation, transmit and demultiplexing; round trip of a frame, single
    disposal and single accounting of every buffer.
  \<^item> \<open>Xeth_Sbtx\<close>: \<^verbatim>\<open>xeth_sbtx.c\<close>, every message to the daemon, store by store; the messages read back as the
    state that they report.
  \<^item> \<open>Xeth_Ethtool\<close>: link settings, FEC, strings and statistics of \<^verbatim>\<open>xeth_port.c\<close> and \<^verbatim>\<open>xeth_mux.c\<close>.
  \<^item> \<open>Xeth_Proxy\<close>: \<^verbatim>\<open>xeth_proxy.c\<close>, the operations and the dump that all proxies share.
  \<^item> \<open>Xeth_Nb\<close>: \<^verbatim>\<open>xeth_nb.c\<close>, the notifiers and what they queue.
  \<^item> \<open>Xeth_Sbrx\<close>: \<^verbatim>\<open>xeth_sbrx.c\<close>, the handling of a received message.
  \<^item> \<open>Xeth_Service\<close>, \<open>Xeth_Main\<close>: \<^verbatim>\<open>xeth_mux.c\<close>, the service of a connection and the main task.
  \<^item> \<open>Xeth_Upper\<close>: \<^verbatim>\<open>xeth_lag.c\<close> and \<^verbatim>\<open>xeth_bridge.c\<close>, membership, through a locale that both interpret.
  \<^item> \<open>Xeth_Qsfp\<close>: \<^verbatim>\<open>xeth_qsfp.c\<close>, access to the memory of a transceiver over an I2C bus that is a parameter; reads
    stay in the buffer, and the client is that of the first address that answers.
  \<^item> \<open>Xeth_Dev\<close>, \<open>Xeth_Newlink\<close>: setup, operation tables, search for a free XID, and creation and deletion
    of every kind of device.
  \<^item> \<open>Xeth_Life\<close>: what creation and deletion do to the table and what they report: the XIDs of ports and vlans,
    a new vlan, a new lag with its first member, the queue of a deleted mux.
  \<^item> \<open>Xeth_Probe\<close>, \<open>Xeth_Platform\<close>: the platform drivers of \<^verbatim>\<open>xeth_mux.c\<close> and \<^verbatim>\<open>xeth_port.c\<close> with the device properties;
    a probe establishes the invariants of the other theories, the search for links keeps the references
    balanced, and the addresses of ports differ.
  \<^item> \<open>Xeth_Teardown\<close>: the removal of the mux, which composes closing, leaving of lags and bridges and leaving
    of the table for every device, empties the table.
  \<^item> \<open>Xeth_System\<close>: every entry point as a step of one relation, and the invariants of the table and of the side
    band for every state that is reachable from a probe.
  \<^item> \<open>Xeth_Drvinfo\<close>: the driver information and string sets of every kind of device.
  \<^item> \<open>Xeth_Mod\<close>: \<^verbatim>\<open>xeth_mod.c\<close>, loading and unloading of the module.

  \<^bold>\<open>Fuel and bounds.\<close> The service loop, the accept loop and the search for the XID of a port have no end of
  their own, and take fuel; \<open>None\<close> stands for fuel that ran out. It is proved how much is enough: one more than
  the number of kernel calls until the task is told to stop for the service, and one more than the number
  of proxies for the search. The search for the XID of lags, bridges and loopback devices and the scan of
  alternative names of a link terminate by a measure.

  \<^bold>\<open>Kernel services\<close> are parameters. An answer may depend on the log of the calls made before, so that nothing
  is assumed of how the kernel answers over time. The assumptions that a theorem makes of them are in its
  statement; the witness next to it shows that the sample kernel satisfies them.

  \<^bold>\<open>Not modelled:\<close> locks and read-copy-update (operations are atomic steps, and interleavings are sequences of
  steps), debug output, the Go client library, packaging. The platform devices of ports that a probe of the mux
  registers are probed by themselves: their probe is a definition of its own.
\<close>

end
